(* ===== verification/Prelude.thy ===== *)
theory Prelude
  imports Main "HOL-Library.Word" "HOL-Library.Multiset"
begin

text \<open>
  Shared vocabulary of the development: fallible results (\<open>Result<T, E>\<close> of the source) as
  sums, the \<open>?\<close> operator and \<open>map_err\<close>, machine integers, the handful of
  \<open>std\<close> collection operations the program uses (\<open>Iterator::position\<close>,
  \<open>VecDeque::remove\<close>, \<open>HashMap\<close> as a map), and the lemma collections that the
  component theories extend.
\<close>

section \<open>Lemma collections\<close>

named_theorems step_defs \<open>definitions of the operations of a state machine\<close>
named_theorems op_defs \<open>definitions of the operations of a service or a repository\<close>
named_theorems query_simps \<open>what the stored documents satisfy the filters of the source\<close>

section \<open>Machine integers\<close>

type_synonym u8 = "8 word"
type_synonym u32 = "32 word"
type_synonym i32 = "32 word"
type_synonym u64 = "64 word"
type_synonym i64 = "64 word"
type_synonym bytes = "u8 list"

section \<open>Results\<close>

type_synonym ('e, 'a) result = "'e + 'a"

abbreviation Ok :: "'a \<Rightarrow> ('e, 'a) result" where
  "Ok \<equiv> Inr"

abbreviation Err :: "'e \<Rightarrow> ('e, 'a) result" where
  "Err \<equiv> Inl"

text \<open>The \<open>?\<close> operator: continue with the value or return the error.\<close>

definition and_then :: "('e, 'a) result \<Rightarrow> ('a \<Rightarrow> ('e, 'b) result) \<Rightarrow> ('e, 'b) result" where
  "and_then r f = (case r of Inl e \<Rightarrow> Err e | Inr x \<Rightarrow> f x)"

definition map_err :: "('e \<Rightarrow> 'f) \<Rightarrow> ('e, 'a) result \<Rightarrow> ('f, 'a) result" where
  "map_err f r = (case r of Inl e \<Rightarrow> Err (f e) | Inr x \<Rightarrow> Ok x)"

definition ok_or :: "'e \<Rightarrow> 'a option \<Rightarrow> ('e, 'a) result" where
  "ok_or e o' = (case o' of None \<Rightarrow> Err e | Some x \<Rightarrow> Ok x)"

lemma and_then_simps [simp]:
  "and_then (Err e) f = Err e"
  "and_then (Ok x) f = f x"
  by (simp_all add: and_then_def)

lemma and_then_Ok_iff: "and_then r f = Ok y \<longleftrightarrow> (\<exists>x. r = Ok x \<and> f x = Ok y)"
  by (cases r) simp_all

lemma map_err_simps [simp]:
  "map_err f (Err e) = Err (f e)"
  "map_err f (Ok x) = Ok x"
  by (simp_all add: map_err_def)

lemma map_err_Ok_iff [simp]: "map_err f r = Ok x \<longleftrightarrow> r = Ok x"
  by (cases r) simp_all

lemma ok_or_simps [simp]:
  "ok_or e None = Err e"
  "ok_or e (Some x) = Ok x"
  by (simp_all add: ok_or_def)

text \<open>A loop that applies a fallible conversion to every element and stops at the first error.\<close>

fun try_map :: "('a \<Rightarrow> ('e, 'b) result) \<Rightarrow> 'a list \<Rightarrow> ('e, 'b list) result" where
  "try_map f [] = Ok []"
| "try_map f (x # xs) = and_then (f x) (\<lambda>y. and_then (try_map f xs) (\<lambda>ys. Ok (y # ys)))"

lemma try_map_Ok: "(\<And>x. x \<in> set xs \<Longrightarrow> f x = Ok (g x)) \<Longrightarrow> try_map f xs = Ok (map g xs)"
  by (induction xs) simp_all

lemma try_map_Err: "x \<in> set xs \<Longrightarrow> f x = Err e \<Longrightarrow> \<exists>e'. try_map f xs = Err e'"
  by (induction xs) (auto simp: and_then_def split: sum.splits)

lemma try_map_append:
  "try_map f (xs @ ys) = and_then (try_map f xs) (\<lambda>us. and_then (try_map f ys) (\<lambda>vs. Ok (us @ vs)))"
  by (induction xs) (auto simp: and_then_def split: sum.splits)

section \<open>Sequences\<close>

text \<open>\<open>Iterator::position\<close>: the index of the first element that satisfies the test.\<close>

fun position :: "('a \<Rightarrow> bool) \<Rightarrow> 'a list \<Rightarrow> nat option" where
  "position p [] = None"
| "position p (x # xs) = (if p x then Some 0 else map_option Suc (position p xs))"

text \<open>\<open>VecDeque::remove\<close>: takes the element at an index out of the queue.\<close>

fun remove_at :: "nat \<Rightarrow> 'a list \<Rightarrow> ('a \<times> 'a list) option" where
  "remove_at i [] = None"
| "remove_at 0 (x # xs) = Some (x, xs)"
| "remove_at (Suc i) (x # xs) = map_option (\<lambda>(y, ys). (y, x # ys)) (remove_at i xs)"

lemma position_None_iff: "position p xs = None \<longleftrightarrow> (\<forall>x \<in> set xs. \<not> p x)"
  by (induction xs) auto

lemma position_Some_split:
  "position p xs = Some i \<Longrightarrow>
     \<exists>ys x zs. xs = ys @ x # zs \<and> length ys = i \<and> p x \<and> (\<forall>y \<in> set ys. \<not> p y)"
proof (induction xs arbitrary: i)
  case Nil
  then show ?case by simp
next
  case (Cons x xs)
  show ?case
  proof (cases "p x")
    case True
    with Cons.prems show ?thesis by (intro exI [of _ "[]"]) auto
  next
    case False
    with Cons.prems obtain j where j: "position p xs = Some j" and i: "i = Suc j" by auto
    from Cons.IH [OF j] obtain ys y zs where
      "xs = ys @ y # zs" "length ys = j" "p y" "\<forall>y \<in> set ys. \<not> p y" by blast
    with False i show ?thesis by (intro exI [of _ "x # ys"]) auto
  qed
qed

lemma remove_at_append [simp]: "remove_at (length ys) (ys @ x # zs) = Some (x, ys @ zs)"
  by (induction ys) simp_all

lemma remove_at_position:
  assumes "position p xs = Some i"
  shows "\<exists>ys x zs. xs = ys @ x # zs \<and> p x \<and> (\<forall>y \<in> set ys. \<not> p y) \<and> remove_at i xs = Some (x, ys @ zs)"
  using position_Some_split [OF assms] by fastforce

text \<open>Replacing the first element that satisfies a test.\<close>

fun update_first :: "('a \<Rightarrow> bool) \<Rightarrow> ('a \<Rightarrow> 'a) \<Rightarrow> 'a list \<Rightarrow> 'a list" where
  "update_first p f [] = []"
| "update_first p f (x # xs) = (if p x then f x # xs else x # update_first p f xs)"

lemma update_first_map:
  "(\<And>x. x \<in> set xs \<Longrightarrow> p (g x) \<longleftrightarrow> q x) \<Longrightarrow> (\<And>x. x \<in> set xs \<Longrightarrow> f (g x) = g (h x)) \<Longrightarrow>
     update_first p f (map g xs) = map g (update_first q h xs)"
  by (induction xs) auto

lemma update_first_none: "(\<And>x. x \<in> set xs \<Longrightarrow> \<not> p x) \<Longrightarrow> update_first p f xs = xs"
  by (induction xs) auto

lemma update_first_split:
  "(\<And>y. y \<in> set ys \<Longrightarrow> \<not> p y) \<Longrightarrow> p x \<Longrightarrow> update_first p f (ys @ x # zs) = ys @ f x # zs"
  by (induction ys) auto

lemma update_first_key:
  "(\<And>x. x \<in> set xs \<Longrightarrow> k (f x) = k x) \<Longrightarrow> map k (update_first p f xs) = map k xs"
  by (induction xs) auto

lemma find_first_map: "find p (map g xs) = map_option g (find (p \<circ> g) xs)"
  by (induction xs) auto

lemma find_cong_set: "(\<And>x. x \<in> set xs \<Longrightarrow> p x \<longleftrightarrow> q x) \<Longrightarrow> find p xs = find q xs"
  by (induction xs) auto

lemma filter_map_set:
  "(\<And>x. x \<in> set xs \<Longrightarrow> p (g x) \<longleftrightarrow> q x) \<Longrightarrow> filter p (map g xs) = map g (filter q xs)"
  by (induction xs) auto

lemma find_SomeD: "find P xs = Some x \<Longrightarrow> x \<in> set xs \<and> P x"
  by (induction xs) (auto split: if_splits)

lemma mset_eq_image:
  "mset es = image_mset f M \<Longrightarrow> \<exists>xs. mset xs = M \<and> es = map f xs"
proof (induction es arbitrary: M)
  case Nil
  then show ?case by simp
next
  case (Cons e es)
  then have "e \<in># image_mset f M" by (metis list.set_intros(1) set_mset_mset)
  then obtain x N where M: "M = add_mset x N" and e: "e = f x"
    by (auto dest: multi_member_split)
  with Cons.prems have "mset es = image_mset f N" by simp
  from Cons.IH [OF this] obtain xs where "mset xs = N" and "es = map f xs" by blast
  with M e show ?case by (intro exI [of _ "x # xs"]) simp
qed

lemma try_map_map: "try_map f (map g xs) = try_map (f \<circ> g) xs"
  by (induction xs) simp_all

end
