(* ===== verification/Externals.thy ===== *)
theory Externals
  imports Prelude
begin

text \<open>
  The values the program exchanges with third-party crates, and those crates' conversions as
  parameters. \<open>uuid::Uuid\<close> is a 128-bit value, \<open>bson::oid::ObjectId\<close> a 96-bit one;
  \<open>time::OffsetDateTime\<close> is an instant, kept as the number of nanoseconds since the Unix
  epoch (the source compares instants and adds or subtracts durations, nothing else);
  \<open>bson::DateTime\<close> is the number of milliseconds since the epoch. How the crates print,
  parse and convert them is not code of this repository: these functions are the fields of the
  record \<open>ext\<close>, an argument of every definition that calls them. What a theorem relies on is
  a named hypothesis about that record.
\<close>

section \<open>Identifiers\<close>

datatype uuid = Uuid (uuid_bits: "128 word")

datatype object_id = ObjectId (oid_bits: "96 word")

text \<open>Both types derive \<open>Ord\<close>: the order of their bytes.\<close>

instantiation uuid :: linorder
begin

definition less_eq_uuid :: "uuid \<Rightarrow> uuid \<Rightarrow> bool" where
  "less_eq_uuid a b \<longleftrightarrow> uuid_bits a \<le> uuid_bits b"

definition less_uuid :: "uuid \<Rightarrow> uuid \<Rightarrow> bool" where
  "less_uuid a b \<longleftrightarrow> uuid_bits a < uuid_bits b"

instance
  by standard (auto simp: less_eq_uuid_def less_uuid_def uuid.expand)

end

instantiation object_id :: linorder
begin

definition less_eq_object_id :: "object_id \<Rightarrow> object_id \<Rightarrow> bool" where
  "less_eq_object_id a b \<longleftrightarrow> oid_bits a \<le> oid_bits b"

definition less_object_id :: "object_id \<Rightarrow> object_id \<Rightarrow> bool" where
  "less_object_id a b \<longleftrightarrow> oid_bits a < oid_bits b"

instance
  by standard (auto simp: less_eq_object_id_def less_object_id_def object_id.expand)

end

section \<open>Time\<close>

type_synonym offset_date_time = int
type_synonym date_time = int

section \<open>Conversions of third-party crates\<close>

record ext =
  uuid_to_string :: "uuid \<Rightarrow> string"
  uuid_from_str :: "string \<Rightarrow> uuid option"
  oid_to_hex :: "object_id \<Rightarrow> string"
  oid_from_str :: "string \<Rightarrow> object_id option"
  dt_from :: "offset_date_time \<Rightarrow> date_time"
  dt_into :: "date_time \<Rightarrow> offset_date_time"
  unix_timestamp :: "offset_date_time \<Rightarrow> i64"
  nanosecond :: "offset_date_time \<Rightarrow> u32"
  from_unix_timestamp :: "i64 \<Rightarrow> offset_date_time option"
  replace_nanosecond :: "offset_date_time \<Rightarrow> u32 \<Rightarrow> offset_date_time option"

text \<open>
  Named hypotheses: printing an identifier and parsing the text gives it back; splitting an
  instant into seconds and nanoseconds and putting them together gives it back.
\<close>

definition uuid_text_ok :: "ext \<Rightarrow> uuid \<Rightarrow> bool" where
  "uuid_text_ok X u \<longleftrightarrow> uuid_from_str X (uuid_to_string X u) = Some u"

definition oid_text_ok :: "ext \<Rightarrow> object_id \<Rightarrow> bool" where
  "oid_text_ok X i \<longleftrightarrow> oid_from_str X (oid_to_hex X i) = Some i"

definition timestamp_ok :: "ext \<Rightarrow> offset_date_time \<Rightarrow> bool" where
  "timestamp_ok X t \<longleftrightarrow>
     (\<exists>s. from_unix_timestamp X (unix_timestamp X t) = Some s \<and>
          replace_nanosecond X s (nanosecond X t) = Some t)"

definition dt_mono :: "ext \<Rightarrow> bool" where
  "dt_mono X \<longleftrightarrow> (\<forall>s t. s \<le> t \<longrightarrow> dt_from X s \<le> dt_from X t)"

lemma dt_monoD: "dt_mono X \<Longrightarrow> s \<le> t \<Longrightarrow> dt_from X s \<le> dt_from X t"
  by (simp add: dt_mono_def)

text \<open>
  A concrete instance for the witnesses: identifiers are printed as the bits of the value, least
  significant first; instants are split at the second; milliseconds are the floor.
\<close>

definition bits_to_text :: "bool list \<Rightarrow> string" where
  "bits_to_text bs = map (\<lambda>b. if b then CHR ''1'' else CHR ''0'') bs"

definition text_to_bits :: "nat \<Rightarrow> string \<Rightarrow> bool list option" where
  "text_to_bits n s =
     (if length s = n \<and> list_all (\<lambda>c. c = CHR ''0'' \<or> c = CHR ''1'') s
      then Some (map (\<lambda>c. c = CHR ''1'') s) else None)"

lemma text_to_bits_to_text: "length bs = n \<Longrightarrow> text_to_bits n (bits_to_text bs) = Some bs"
  by (auto simp: text_to_bits_def bits_to_text_def list_all_iff comp_def split: if_splits
      intro!: map_idI)

definition ref_ext :: ext where
  "ref_ext =
    \<lparr> uuid_to_string = (\<lambda>u. bits_to_text (map (bit (uuid_bits u)) [0..<128])),
      uuid_from_str = (\<lambda>s. map_option (\<lambda>bs. Uuid (horner_sum of_bool 2 bs)) (text_to_bits 128 s)),
      oid_to_hex = (\<lambda>i. bits_to_text (map (bit (oid_bits i)) [0..<96])),
      oid_from_str = (\<lambda>s. map_option (\<lambda>bs. ObjectId (horner_sum of_bool 2 bs)) (text_to_bits 96 s)),
      dt_from = (\<lambda>t. t div 1000000),
      dt_into = (\<lambda>d. d * 1000000),
      unix_timestamp = (\<lambda>t. word_of_int (t div 1000000000)),
      nanosecond = (\<lambda>t. word_of_int (t mod 1000000000)),
      from_unix_timestamp = (\<lambda>s. Some (sint s * 1000000000)),
      replace_nanosecond = (\<lambda>t n. if unat n < 1000000000
        then Some (t div 1000000000 * 1000000000 + uint n) else None) \<rparr>"

lemma horner_sum_bits: "horner_sum of_bool 2 (map (bit w) [0..<LENGTH('a)]) = (w :: 'a::len word)"
  by (simp add: horner_sum_bit_eq_take_bit)

lemma ref_uuid_text_ok: "uuid_text_ok ref_ext u"
  using horner_sum_bits [of "uuid_bits u"]
  by (simp add: uuid_text_ok_def ref_ext_def text_to_bits_to_text del: upt_rec_numeral)

lemma ref_oid_text_ok: "oid_text_ok ref_ext i"
  using horner_sum_bits [of "oid_bits i"]
  by (simp add: oid_text_ok_def ref_ext_def text_to_bits_to_text del: upt_rec_numeral)

lemma ref_dt_mono: "dt_mono ref_ext"
  by (simp add: dt_mono_def ref_ext_def zdiv_mono1)

lemma ref_timestamp_ok:
  assumes "- (2 ^ 63) \<le> t div 1000000000" and "t div 1000000000 < 2 ^ 63"
  shows "timestamp_ok ref_ext t"
proof -
  have s: "sint (word_of_int (t div 1000000000) :: i64) = t div 1000000000"
    using assms by (simp add: signed_of_int signed_take_bit_int_eq_self)
  have n: "uint (word_of_int (t mod 1000000000) :: u32) = t mod 1000000000"
    by (simp add: unsigned_of_int take_bit_int_eq_self)
  then have "unat (word_of_int (t mod 1000000000) :: u32) < 1000000000"
    by (simp add: unat_eq_nat_uint nat_less_iff)
  with s n show ?thesis
    by (simp add: timestamp_ok_def ref_ext_def)
qed

end
