(* ===== verification/Mongo.thy ===== *)
theory Mongo
  imports Externals
begin

text \<open>
  MongoDB as the two repositories use it. The server and its driver are not code of this
  repository: they are the record \<open>mongo\<close>, a parameter of every repository operation. Its
  fields are the driver calls of the source and what one can observe of the server: the stored
  documents, the indexes, when a document matches a filter, what an update makes of it. The
  locales below state the documented behaviour of exactly the operators that the source's
  filters, updates and projections use, as named hypotheses; no theorem about the program is
  among them. \<open>Mongo_Reference\<close> gives a concrete server that satisfies all of them.
\<close>

section \<open>BSON values\<close>

datatype bson =
    Null
  | Bool bool
  | Int32 i32
  | Int64 i64
  | Str string
  | DateTime date_time
  | Oid object_id
  | UuidBin uuid \<comment> \<open>a binary value of the UUID subtype\<close>
  | Generic bytes \<comment> \<open>a binary value of the generic subtype\<close>
  | Arr "bson list"
  | Doc "(string \<times> bson) list"

fun scalar :: "bson \<Rightarrow> bool" where
  "scalar Null = False"
| "scalar (Arr _) = False"
| "scalar (Doc _) = False"
| "scalar _ = True"

fun is_doc :: "bson \<Rightarrow> bool" where
  "is_doc (Doc _) = True"
| "is_doc _ = False"

fun field :: "string \<Rightarrow> bson \<Rightarrow> bson option" where
  "field k (Doc fs) = map_of fs k"
| "field k _ = None"

text \<open>A key of a filter or an update that names a top-level field, not an operator or a path.\<close>

definition field_name :: "string \<Rightarrow> bool" where
  "field_name k \<longleftrightarrow> k \<noteq> [] \<and> hd k \<noteq> CHR ''$'' \<and> CHR ''.'' \<notin> set k"

fun set_field :: "string \<Rightarrow> bson \<Rightarrow> (string \<times> bson) list \<Rightarrow> (string \<times> bson) list" where
  "set_field k v [] = [(k, v)]"
| "set_field k v ((k', v') # fs) = (if k' = k then (k, v) # fs else (k', v') # set_field k v fs)"

fun doc_set :: "string \<Rightarrow> bson \<Rightarrow> bson \<Rightarrow> bson" where
  "doc_set k v (Doc fs) = Doc (set_field k v fs)"
| "doc_set k v d = d"

definition date_at :: "string \<Rightarrow> bson \<Rightarrow> date_time" where
  "date_at k d = (case field k d of Some (DateTime t) \<Rightarrow> t | _ \<Rightarrow> 0)"

section \<open>The driver's interface\<close>

text \<open>The part of the driver's error values that the source looks at.\<close>

datatype write_failure = WriteError int | WriteConcernError

datatype mongo_error = Write write_failure | Custom string | OtherKind

record update_result =
  matched_count :: nat
  modified_count :: nat

record find_options =
  projection :: bson
  sort_by :: "(string \<times> i32) option"
  skip :: u64
  limit :: i64

record index_model =
  index_name :: string
  index_keys :: "string list"
  unique :: bool

record 'w mongo =
  docs :: "string \<Rightarrow> 'w \<Rightarrow> bson list"
  indexes :: "string \<Rightarrow> 'w \<Rightarrow> index_model list"
  matches :: "bson \<Rightarrow> bson \<Rightarrow> bool"
  cond :: "string \<Rightarrow> bson \<Rightarrow> bson \<Rightarrow> bool"
  test :: "bson \<Rightarrow> bson option \<Rightarrow> bool"
  apply_update :: "bson \<Rightarrow> bson \<Rightarrow> bson \<Rightarrow> bson"
  project :: "bson \<Rightarrow> bson \<Rightarrow> bson \<Rightarrow> bson"
  create_collection :: "string \<Rightarrow> 'w \<Rightarrow> (mongo_error, unit) result \<times> 'w"
  list_index_names :: "string \<Rightarrow> 'w \<Rightarrow> (mongo_error, string list) result \<times> 'w"
  create_index :: "string \<Rightarrow> index_model \<Rightarrow> 'w \<Rightarrow> (mongo_error, unit) result \<times> 'w"
  insert_one :: "string \<Rightarrow> (string \<times> bson) list \<Rightarrow> 'w \<Rightarrow> (mongo_error, bson) result \<times> 'w"
  update_one :: "string \<Rightarrow> bson \<Rightarrow> bson \<Rightarrow> 'w \<Rightarrow> (mongo_error, update_result) result \<times> 'w"
  update_many :: "string \<Rightarrow> bson \<Rightarrow> bson \<Rightarrow> 'w \<Rightarrow> (mongo_error, update_result) result \<times> 'w"
  find_one :: "string \<Rightarrow> bson \<Rightarrow> bson option \<Rightarrow> 'w \<Rightarrow> (mongo_error, bson option) result \<times> 'w"
  find_many :: "string \<Rightarrow> bson \<Rightarrow> find_options \<Rightarrow> 'w \<Rightarrow> (mongo_error, bson list) result \<times> 'w"

section \<open>Documented behaviour of the query language\<close>

locale mongo_queries =
  fixes m :: "'w mongo"
  assumes matches_Doc: "matches m (Doc fs) d \<longleftrightarrow> list_all (\<lambda>(k, v). cond m k v d) fs"
    and cond_and: "cond m ''$and'' (Arr qs) d \<longleftrightarrow> list_all (\<lambda>q. matches m q d) qs"
    and cond_or: "cond m ''$or'' (Arr qs) d \<longleftrightarrow> list_ex (\<lambda>q. matches m q d) qs"
    and cond_field: "field_name k \<Longrightarrow> cond m k v d \<longleftrightarrow> test m v (field k d)"
    and test_gt: "test m (Doc [(''$gt'', DateTime t)]) (Some (DateTime s)) \<longleftrightarrow> t < s"
    and test_gt_null: "x = None \<or> x = Some Null \<Longrightarrow> \<not> test m (Doc [(''$gt'', DateTime t)]) x"
    and test_size: "test m (Doc [(''$size'', Int32 n)]) (Some (Arr xs)) \<longleftrightarrow> int (length xs) = sint n"
    and test_in: "scalar v \<Longrightarrow> test m (Doc [(''$in'', Arr vs)]) (Some v) \<longleftrightarrow> v \<in> set vs"
    and test_elemMatch: "list_all is_doc xs \<Longrightarrow>
      test m (Doc [(''$elemMatch'', q)]) (Some (Arr xs)) \<longleftrightarrow> list_ex (matches m q) xs"
    and test_not: "test m (Doc [(''$not'', p)]) x \<longleftrightarrow> \<not> test m p x"
    and test_null: "x = None \<or> x = Some Null \<or> (\<exists>v. x = Some v \<and> scalar v) \<Longrightarrow>
      test m Null x \<longleftrightarrow> x = None \<or> x = Some Null"
    and test_scalar: "scalar v \<Longrightarrow> scalar v' \<Longrightarrow> test m v (Some v') \<longleftrightarrow> v' = v"
    and test_scalar_array: "scalar v \<Longrightarrow> list_all scalar vs \<Longrightarrow> test m v (Some (Arr vs)) \<longleftrightarrow> v \<in> set vs"

section \<open>Documented behaviour of updates and projections\<close>

text \<open>
  \<open>$set\<close> of a field, \<open>$set\<close> through the positional operator \<open>$\<close> (the first array element
  the filter's \<open>$elemMatch\<close> accepts) and \<open>$push\<close>; a projection keeps the listed fields,
  and \<open>a.$\<close> keeps of the array only the first element the filter accepts.
\<close>

locale mongo_updates = mongo_queries m for m :: "'w mongo" +
  assumes apply_set: "field_name k \<Longrightarrow>
      apply_update m f (Doc [(''$set'', Doc [(k, v)])]) (Doc fs) = Doc (set_field k v fs)"
    and apply_set_positional: "field_name a \<Longrightarrow> field_name b \<Longrightarrow>
      map_of qs a = Some (Doc [(''$elemMatch'', q)]) \<Longrightarrow> map_of fs a = Some (Arr xs) \<Longrightarrow>
      list_all is_doc xs \<Longrightarrow> list_ex (matches m q) xs \<Longrightarrow>
      apply_update m (Doc qs) (Doc [(''$set'', Doc [(a @ ''.$.'' @ b, v)])]) (Doc fs) =
        Doc (set_field a (Arr (update_first (matches m q) (doc_set b v) xs)) fs)"
    and apply_push: "field_name a \<Longrightarrow> map_of fs a = Some (Arr xs) \<Longrightarrow>
      apply_update m f (Doc [(''$push'', Doc [(a, v)])]) (Doc fs) =
        Doc (set_field a (Arr (xs @ [v])) fs)"
    and project_field: "field_name k \<Longrightarrow> (k, Int32 1) \<in> set ps \<Longrightarrow>
      (k @ ''.$'', Int32 1) \<notin> set ps \<Longrightarrow>
      field k (project m (Doc ps) f (Doc fs)) = map_of fs k"
    and project_positional: "field_name a \<Longrightarrow> (a @ ''.$'', Int32 1) \<in> set ps \<Longrightarrow>
      map_of qs a = Some (Doc [(''$elemMatch'', q)]) \<Longrightarrow> map_of fs a = Some (Arr xs) \<Longrightarrow>
      list_all is_doc xs \<Longrightarrow> find (matches m q) xs = Some x \<Longrightarrow>
      field a (project m (Doc ps) (Doc qs) (Doc fs)) = Some (Arr [x])"
    and project_absent: "field_name k \<Longrightarrow> k \<noteq> ''_id'' \<Longrightarrow> (k, Int32 1) \<notin> set ps \<Longrightarrow>
      (k @ ''.$'', Int32 1) \<notin> set ps \<Longrightarrow> field k (project m (Doc ps) f (Doc fs)) = None"

section \<open>Documented behaviour of the server\<close>

definition same_key :: "string list \<Rightarrow> bson \<Rightarrow> bson \<Rightarrow> bool" where
  "same_key ks d e \<longleftrightarrow> list_all (\<lambda>k. field k d = field k e) ks"

text \<open>A unique index refuses a document that agrees with a stored one on all its keys.\<close>

definition duplicate_key :: "index_model list \<Rightarrow> bson list \<Rightarrow> bson \<Rightarrow> bool" where
  "duplicate_key ixs ds d \<longleftrightarrow>
     list_ex (\<lambda>ix. unique ix \<and> list_ex (\<lambda>e. same_key (index_keys ix) d e) ds) ixs"

text \<open>
  What a write may have done to a collection: every document is either as before or, if it
  matches, updated. A write that reports an error is allowed to have happened.
\<close>

definition partly_updated :: "'w mongo \<Rightarrow> bson \<Rightarrow> bson \<Rightarrow> bson list \<Rightarrow> bson list \<Rightarrow> bool" where
  "partly_updated m f u ds ds' \<longleftrightarrow>
     list_all2 (\<lambda>d d'. d' = d \<or> matches m f d \<and> d' = apply_update m f u d) ds ds'"

definition inserted :: "object_id \<Rightarrow> (string \<times> bson) list \<Rightarrow> bson list \<Rightarrow> bson list \<Rightarrow> bool" where
  "inserted i fs ds ds' \<longleftrightarrow>
     ds' = ds @ [Doc ((''_id'', Oid i) # fs)] \<and> (\<forall>d \<in> set ds. field ''_id'' d \<noteq> Some (Oid i))"

fun in_order :: "(string \<times> i32) option \<Rightarrow> bson \<Rightarrow> bson \<Rightarrow> bool" where
  "in_order None d e = True"
| "in_order (Some (k, dir)) d e =
     (if dir = 1 then date_at k d \<le> date_at k e else date_at k e \<le> date_at k d)"

definition page :: "find_options \<Rightarrow> 'a list \<Rightarrow> 'a list" where
  "page opts xs =
     (let rest = drop (unat (skip opts)) xs
      in if limit opts = 0 then rest else take (nat (sint (limit opts))) rest)"

locale mongo_server = mongo_updates m for m :: "'w mongo" +
  assumes update_one_Ok: "update_one m c f u w = (Ok r, w') \<Longrightarrow>
      (\<not> list_ex (matches m f) (docs m c w) \<and> docs m c w' = docs m c w \<and>
         r = \<lparr>matched_count = 0, modified_count = 0\<rparr>) \<or>
      (\<exists>xs d ys. docs m c w = xs @ d # ys \<and> matches m f d \<and>
         docs m c w' = xs @ apply_update m f u d # ys \<and>
         r = \<lparr>matched_count = 1, modified_count = (if apply_update m f u d = d then 0 else 1)\<rparr>)"
    and update_many_Ok: "update_many m c f u w = (Ok r, w') \<Longrightarrow>
      docs m c w' = map (\<lambda>d. if matches m f d then apply_update m f u d else d) (docs m c w)"
    and update_one_Err: "update_one m c f u w = (Err e, w') \<Longrightarrow>
      partly_updated m f u (docs m c w) (docs m c w')"
    and update_many_Err: "update_many m c f u w = (Err e, w') \<Longrightarrow>
      partly_updated m f u (docs m c w) (docs m c w')"
    and insert_Ok: "insert_one m c fs w = (Ok v, w') \<Longrightarrow>
      \<exists>i. v = Oid i \<and> inserted i fs (docs m c w) (docs m c w') \<and>
        \<not> duplicate_key (indexes m c w) (docs m c w) (Doc fs)"
    and insert_duplicate: "insert_one m c fs w = (Err (Write (WriteError 11000)), w') \<Longrightarrow>
      duplicate_key (indexes m c w) (docs m c w) (Doc fs) \<and> docs m c w' = docs m c w"
    and insert_Err: "insert_one m c fs w = (Err e, w') \<Longrightarrow>
      docs m c w' = docs m c w \<or> (\<exists>i. inserted i fs (docs m c w) (docs m c w') \<and>
        \<not> duplicate_key (indexes m c w) (docs m c w) (Doc fs))"
    and find_one_None: "find_one m c f p w = (Ok None, w') \<Longrightarrow> \<not> list_ex (matches m f) (docs m c w)"
    and find_one_Some: "find_one m c f p w = (Ok (Some d'), w') \<Longrightarrow>
      \<exists>d \<in> set (docs m c w). matches m f d \<and>
        d' = (case p of None \<Rightarrow> d | Some p' \<Rightarrow> project m p' f d)"
    and find_one_docs: "docs m c' (snd (find_one m c f p w)) = docs m c' w"
    and find_many_Ok: "find_many m c f opts w = (Ok ds, w') \<Longrightarrow>
      \<exists>ms. mset ms = mset (filter (matches m f) (docs m c w)) \<and>
        sorted_wrt (in_order (sort_by opts)) ms \<and>
        ds = map (project m (projection opts) f) (page opts ms)"
    and find_many_docs: "docs m c' (snd (find_many m c f opts w)) = docs m c' w"
    and update_one_frame: "c' \<noteq> c \<Longrightarrow> docs m c' (snd (update_one m c f u w)) = docs m c' w"
    and update_many_frame: "c' \<noteq> c \<Longrightarrow> docs m c' (snd (update_many m c f u w)) = docs m c' w"
    and insert_frame: "c' \<noteq> c \<Longrightarrow> docs m c' (snd (insert_one m c fs w)) = docs m c' w"
    and write_indexes:
      "indexes m c' (snd (update_one m c f u w)) = indexes m c' w"
      "indexes m c' (snd (update_many m c f u w)) = indexes m c' w"
      "indexes m c' (snd (insert_one m c fs w)) = indexes m c' w"
      "indexes m c' (snd (find_one m c f p w)) = indexes m c' w"
      "indexes m c' (snd (find_many m c f opts w)) = indexes m c' w"
    and create_index_Ok: "create_index m c ix w = (Ok (), w') \<Longrightarrow>
      set (indexes m c w') = insert ix (set (indexes m c w))"
    and create_collection_keeps:
      "docs m c' (snd (create_collection m c w)) = docs m c' w"
      "indexes m c' (snd (create_collection m c w)) = indexes m c' w"
    and create_index_docs: "docs m c' (snd (create_index m c ix w)) = docs m c' w"
    and list_index_names_Ok: "list_index_names m c w = (Ok ns, w') \<Longrightarrow>
      set ns = index_name ` set (indexes m c w)"
    and list_index_names_keeps:
      "docs m c' (snd (list_index_names m c w)) = docs m c' w"
      "indexes m c' (snd (list_index_names m c w)) = indexes m c' w"

end
