(* ===== verification/Core_Types.thy ===== *)
theory Core_Types
  imports Mongo
begin

text \<open>
  The data of \<open>tom-notifier-core\<close>: what requests carry (\<open>dto/input\<close>), what responses carry
  (\<open>dto/output\<close>), what the repository stores and returns (\<open>repository/entity\<close>,
  \<open>repository/dto\<close>) with its BSON form, and the two error types.
\<close>

section \<open>Requests\<close>

record input_notification =
  in_invalidate_at :: "offset_date_time option"
  in_user_ids :: "uuid list"
  in_producer_notification_id :: i64
  in_content_type :: string
  in_content :: bytes

record pagination =
  page_idx :: u32
  page_size :: u32

record notification_filters =
  filter_seen :: "bool option"

record notification_invalidate_at =
  new_invalidate_at :: "offset_date_time option"

record notification_seen =
  new_seen :: bool

section \<open>What the repository returns\<close>

record inserted_notification =
  ins_id :: object_id
  ins_created_at :: offset_date_time
  ins_invalidate_at :: "offset_date_time option"
  ins_user_ids :: "uuid list"
  ins_producer_id :: uuid
  ins_producer_notification_id :: i64
  ins_content_type :: string
  ins_content :: bytes

record repo_notification =
  rn_id :: object_id
  rn_created_at :: offset_date_time
  rn_producer_id :: uuid
  rn_seen :: bool
  rn_content_type :: string
  rn_content :: bytes

section \<open>Responses\<close>

record output_notification =
  out_id :: string
  out_created_at :: offset_date_time
  out_created_by :: uuid
  out_seen :: bool
  out_content_type :: string
  out_content :: bytes

record notification_id =
  nid :: string

definition output_of_repo :: "ext \<Rightarrow> repo_notification \<Rightarrow> output_notification" where
  "output_of_repo X n =
    \<lparr> out_id = oid_to_hex X (rn_id n), out_created_at = rn_created_at n,
      out_created_by = rn_producer_id n, out_seen = rn_seen n,
      out_content_type = rn_content_type n, out_content = rn_content n \<rparr>"

section \<open>Entities\<close>

record notification_insert_entity =
  ie_created_at :: date_time
  ie_invalidate_at :: "date_time option"
  ie_user_ids :: "uuid list"
  ie_producer_id :: uuid
  ie_producer_notification_id :: i64
  ie_content_type :: string
  ie_content :: bytes

definition opt_date :: "date_time option \<Rightarrow> bson" where
  "opt_date d = (case d of None \<Rightarrow> Null | Some t \<Rightarrow> DateTime t)"

text \<open>The derived \<open>Serialize\<close>: one field per struct field; \<open>confirmations: [(); 0]\<close> is empty.\<close>

definition insert_entity_fields :: "notification_insert_entity \<Rightarrow> (string \<times> bson) list" where
  "insert_entity_fields e =
    [ (''created_at'', DateTime (ie_created_at e)),
      (''invalidate_at'', opt_date (ie_invalidate_at e)),
      (''user_ids'', Arr (map UuidBin (ie_user_ids e))),
      (''producer_id'', UuidBin (ie_producer_id e)),
      (''producer_notification_id'', Int64 (ie_producer_notification_id e)),
      (''content_type'', Str (ie_content_type e)),
      (''content'', Generic (ie_content e)),
      (''confirmations'', Arr []) ]"

text \<open>\<open>NotificationFindEntity\<close>, its confirmations reduced to \<open>notification_seen\<close>.\<close>

record notification_find_entity =
  fe_id :: object_id
  fe_created_at :: date_time
  fe_producer_id :: uuid
  fe_content_type :: string
  fe_content :: bytes
  fe_confirmations :: "bool list"

text \<open>
  The derived \<open>Deserialize\<close>: every field by its name, a missing \<open>confirmations\<close> is empty
  (\<open>serde(default)\<close>), anything else missing or of another type is an error.
\<close>

fun seen_of_confirmation :: "bson \<Rightarrow> bool option" where
  "seen_of_confirmation d =
     (case field ''notification_seen'' d of Some (Bool b) \<Rightarrow> Some b | _ \<Rightarrow> None)"

definition decode_confirmations :: "bson option \<Rightarrow> bool list option" where
  "decode_confirmations x = (case x of
     None \<Rightarrow> Some []
   | Some (Arr cs) \<Rightarrow>
       if list_all (\<lambda>c. seen_of_confirmation c \<noteq> None) cs
       then Some (map (\<lambda>c. the (seen_of_confirmation c)) cs) else None
   | Some _ \<Rightarrow> None)"

definition decode_find_entity :: "bson \<Rightarrow> notification_find_entity option" where
  "decode_find_entity d =
    (case (field ''_id'' d, field ''created_at'' d, field ''producer_id'' d,
           field ''content_type'' d, field ''content'' d,
           decode_confirmations (field ''confirmations'' d)) of
       (Some (Oid i), Some (DateTime t), Some (UuidBin p), Some (Str ct), Some (Generic c), Some cs) \<Rightarrow>
         Some \<lparr> fe_id = i, fe_created_at = t, fe_producer_id = p, fe_content_type = ct,
                fe_content = c, fe_confirmations = cs \<rparr>
     | _ \<Rightarrow> None)"

definition repo_of_entity :: "ext \<Rightarrow> notification_find_entity \<Rightarrow> repo_notification" where
  "repo_of_entity X e =
    \<lparr> rn_id = fe_id e, rn_created_at = dt_into X (fe_created_at e), rn_producer_id = fe_producer_id e,
      rn_seen = (case fe_confirmations e of [] \<Rightarrow> False | s # _ \<Rightarrow> s),
      rn_content_type = fe_content_type e, rn_content = fe_content e \<rparr>"

section \<open>Errors\<close>

datatype repo_error = InsertUniqueViolation | NoDocumentUpdated | Mongo mongo_error

record missing_role_error =
  missing_role :: string

datatype core_error =
    NotificationNotExist
  | Validation string
  | NotificationAlreadySaved
  | ValidationNotificationTooLarge nat nat
  | Auth missing_role_error
  | Database repo_error

datatype status_code =
    SWITCHING_PROTOCOLS | OK | NO_CONTENT | UNAUTHORIZED | FORBIDDEN | NOT_FOUND | CONFLICT | PAYLOAD_TOO_LARGE
  | UNPROCESSABLE_ENTITY | INTERNAL_SERVER_ERROR

fun core_error_status :: "core_error \<Rightarrow> status_code" where
  "core_error_status NotificationNotExist = NOT_FOUND"
| "core_error_status (Validation _) = UNPROCESSABLE_ENTITY"
| "core_error_status (ValidationNotificationTooLarge _ _) = PAYLOAD_TOO_LARGE"
| "core_error_status NotificationAlreadySaved = CONFLICT"
| "core_error_status (Auth _) = FORBIDDEN"
| "core_error_status (Database _) = INTERNAL_SERVER_ERROR"

end
