(* ===== verification/Notifications_Store.thy ===== *)
theory Notifications_Store
  imports Core_Types
begin

text \<open>
  The abstract store of notifications, what the documents of the collection \<open>notifications\<close>
  stand for: a list of typed notifications in insertion order, each with its confirmations (one
  per user it was delivered to). \<open>encode\<close> is the stored document; the predicates say who may
  receive a notification and who has it; \<open>well_formed\<close> is the store's invariant.
\<close>

section \<open>Notifications and their documents\<close>

record confirmation =
  c_user_id :: uuid
  c_delivered_at :: date_time
  c_seen :: bool
  c_deleted :: bool

record notification =
  n_id :: object_id
  n_created_at :: date_time
  n_invalidate_at :: "date_time option"
  n_user_ids :: "uuid list"
  n_producer_id :: uuid
  n_producer_notification_id :: i64
  n_content_type :: string
  n_content :: bytes
  n_confirmations :: "confirmation list"

definition encode_confirmation :: "confirmation \<Rightarrow> bson" where
  "encode_confirmation c = Doc
    [ (''user_id'', UuidBin (c_user_id c)),
      (''notification_delivered_at'', DateTime (c_delivered_at c)),
      (''notification_seen'', Bool (c_seen c)),
      (''notification_deleted'', Bool (c_deleted c)) ]"

definition encode_fields :: "notification \<Rightarrow> (string \<times> bson) list" where
  "encode_fields n =
    [ (''_id'', Oid (n_id n)),
      (''created_at'', DateTime (n_created_at n)),
      (''invalidate_at'', opt_date (n_invalidate_at n)),
      (''user_ids'', Arr (map UuidBin (n_user_ids n))),
      (''producer_id'', UuidBin (n_producer_id n)),
      (''producer_notification_id'', Int64 (n_producer_notification_id n)),
      (''content_type'', Str (n_content_type n)),
      (''content'', Generic (n_content n)),
      (''confirmations'', Arr (map encode_confirmation (n_confirmations n))) ]"

definition encode :: "notification \<Rightarrow> bson" where
  "encode n = Doc (encode_fields n)"

section \<open>Who may receive a notification, who has it\<close>

definition recipient :: "uuid \<Rightarrow> notification \<Rightarrow> bool" where
  "recipient u n \<longleftrightarrow> u \<in> set (n_user_ids n) \<or> n_user_ids n = []"

definition valid_at :: "date_time \<Rightarrow> notification \<Rightarrow> bool" where
  "valid_at t n \<longleftrightarrow> (case n_invalidate_at n of None \<Rightarrow> True | Some i \<Rightarrow> t < i)"

definition confirmed :: "uuid \<Rightarrow> notification \<Rightarrow> bool" where
  "confirmed u n \<longleftrightarrow> list_ex (\<lambda>c. c_user_id c = u) (n_confirmations n)"

definition undelivered :: "uuid \<Rightarrow> date_time \<Rightarrow> notification \<Rightarrow> bool" where
  "undelivered u t n \<longleftrightarrow> recipient u n \<and> valid_at t n \<and> \<not> confirmed u n"

text \<open>The first confirmation of a user that is not deleted and, if asked for, has the seen flag.\<close>

definition conf_filter :: "uuid \<Rightarrow> bool option \<Rightarrow> confirmation \<Rightarrow> bool" where
  "conf_filter u s c \<longleftrightarrow> c_user_id c = u \<and> \<not> c_deleted c \<and> (case s of None \<Rightarrow> True | Some b \<Rightarrow> c_seen c = b)"

definition delivered_conf :: "uuid \<Rightarrow> bool option \<Rightarrow> notification \<Rightarrow> confirmation option" where
  "delivered_conf u s n = find (conf_filter u s) (n_confirmations n)"

section \<open>What the operations make of a notification\<close>

definition confirm :: "uuid \<Rightarrow> date_time \<Rightarrow> notification \<Rightarrow> notification" where
  "confirm u t n = n\<lparr>n_confirmations := n_confirmations n @
     [\<lparr>c_user_id = u, c_delivered_at = t, c_seen = False, c_deleted = False\<rparr>]\<rparr>"

definition mark_seen :: "uuid \<Rightarrow> bool \<Rightarrow> notification \<Rightarrow> notification" where
  "mark_seen u b n = n\<lparr>n_confirmations :=
     update_first (conf_filter u None) (\<lambda>c. c\<lparr>c_seen := b\<rparr>) (n_confirmations n)\<rparr>"

definition mark_deleted :: "uuid \<Rightarrow> notification \<Rightarrow> notification" where
  "mark_deleted u n = n\<lparr>n_confirmations :=
     update_first (\<lambda>c. c_user_id c = u) (\<lambda>c. c\<lparr>c_deleted := True\<rparr>) (n_confirmations n)\<rparr>"

definition reinvalidate :: "date_time option \<Rightarrow> notification \<Rightarrow> notification" where
  "reinvalidate d n = n\<lparr>n_invalidate_at := d\<rparr>"

definition view :: "ext \<Rightarrow> bool \<Rightarrow> notification \<Rightarrow> repo_notification" where
  "view X s n =
    \<lparr> rn_id = n_id n, rn_created_at = dt_into X (n_created_at n), rn_producer_id = n_producer_id n,
      rn_seen = s, rn_content_type = n_content_type n, rn_content = n_content n \<rparr>"

definition update_where :: "('a \<Rightarrow> bool) \<Rightarrow> ('a \<Rightarrow> 'a) \<Rightarrow> 'a list \<Rightarrow> 'a list" where
  "update_where p f xs = map (\<lambda>x. if p x then f x else x) xs"

section \<open>The invariant of the store\<close>

definition well_formed_notification :: "notification \<Rightarrow> bool" where
  "well_formed_notification n \<longleftrightarrow>
     distinct (map c_user_id (n_confirmations n)) \<and>
     list_all (\<lambda>c. recipient (c_user_id c) n) (n_confirmations n)"

definition producer_key :: "notification \<Rightarrow> uuid \<times> i64" where
  "producer_key n = (n_producer_id n, n_producer_notification_id n)"

definition well_formed :: "notification list \<Rightarrow> bool" where
  "well_formed ns \<longleftrightarrow> distinct (map n_id ns) \<and> distinct (map producer_key ns) \<and>
     list_all well_formed_notification ns"

lemma well_formedD:
  assumes "well_formed ns"
  shows "distinct (map n_id ns)" "distinct (map producer_key ns)"
    "n \<in> set ns \<Longrightarrow> well_formed_notification n"
  using assms by (auto simp: well_formed_def list_all_iff)

lemma update_where_key: "(\<And>x. k (f x) = k x) \<Longrightarrow> map k (update_where p f xs) = map k xs"
  by (simp add: update_where_def)

lemma update_where_idle: "(\<And>x. x \<in> set xs \<Longrightarrow> p x \<Longrightarrow> f x = x) \<Longrightarrow> update_where p f xs = xs"
  by (simp add: update_where_def map_idI)

lemma set_update_where: "set (update_where p f xs) = {x \<in> set xs. \<not> p x} \<union> f ` {x \<in> set xs. p x}"
  by (auto simp: update_where_def)

lemma operation_keys [simp]:
  "n_id (confirm u t n) = n_id n" "n_id (mark_seen u b n) = n_id n"
  "n_id (mark_deleted u n) = n_id n" "n_id (reinvalidate d n) = n_id n"
  "producer_key (confirm u t n) = producer_key n" "producer_key (mark_seen u b n) = producer_key n"
  "producer_key (mark_deleted u n) = producer_key n" "producer_key (reinvalidate d n) = producer_key n"
  "recipient v (confirm u t n) = recipient v n" "recipient v (mark_seen u b n) = recipient v n"
  "recipient v (mark_deleted u n) = recipient v n" "recipient v (reinvalidate d n) = recipient v n"
  by (simp_all add: confirm_def mark_seen_def mark_deleted_def reinvalidate_def producer_key_def
      recipient_def)

lemma confirmed_iff: "confirmed u n \<longleftrightarrow> u \<in> c_user_id ` set (n_confirmations n)"
  by (auto simp: confirmed_def list_ex_iff)

lemma confirmed_operations [simp]:
  "confirmed v (confirm u t n) \<longleftrightarrow> v = u \<or> confirmed v n"
  "confirmed v (mark_seen u b n) \<longleftrightarrow> confirmed v n"
  "confirmed v (mark_deleted u n) \<longleftrightarrow> confirmed v n"
  "confirmed v (reinvalidate d n) \<longleftrightarrow> confirmed v n"
proof -
  show "confirmed v (confirm u t n) \<longleftrightarrow> v = u \<or> confirmed v n"
    by (auto simp: confirm_def confirmed_def)
  have "map c_user_id (n_confirmations (mark_seen u b n)) = map c_user_id (n_confirmations n)"
    and "map c_user_id (n_confirmations (mark_deleted u n)) = map c_user_id (n_confirmations n)"
    by (simp_all add: mark_seen_def mark_deleted_def update_first_key)
  then show "confirmed v (mark_seen u b n) \<longleftrightarrow> confirmed v n"
    and "confirmed v (mark_deleted u n) \<longleftrightarrow> confirmed v n"
    by (simp_all add: confirmed_iff flip: set_map)
  show "confirmed v (reinvalidate d n) \<longleftrightarrow> confirmed v n"
    by (simp add: reinvalidate_def confirmed_def)
qed

lemma well_formed_operations:
  "well_formed_notification n \<Longrightarrow> recipient u n \<Longrightarrow> \<not> confirmed u n \<Longrightarrow>
     well_formed_notification (confirm u t n)"
  "well_formed_notification n \<Longrightarrow> well_formed_notification (mark_seen u b n)"
  "well_formed_notification n \<Longrightarrow> well_formed_notification (mark_deleted u n)"
  "well_formed_notification n \<Longrightarrow> well_formed_notification (reinvalidate d n)"
proof -
  assume n: "well_formed_notification n"
  have wf: "well_formed_notification n' \<longleftrightarrow> distinct (map c_user_id (n_confirmations n')) \<and>
      list_all (\<lambda>v. recipient v n') (map c_user_id (n_confirmations n'))" for n'
    by (simp add: well_formed_notification_def list_all_iff)
  show "well_formed_notification (mark_seen u b n)" and "well_formed_notification (mark_deleted u n)"
    using n unfolding wf operation_keys
    by (simp_all add: mark_seen_def mark_deleted_def update_first_key)
  show "well_formed_notification (reinvalidate d n)"
    using n unfolding wf operation_keys by (simp add: reinvalidate_def)
  assume "recipient u n" and "\<not> confirmed u n"
  with n show "well_formed_notification (confirm u t n)"
    unfolding wf operation_keys by (simp add: confirm_def confirmed_iff)
qed

lemma well_formed_update_where:
  assumes "well_formed ns" and "\<And>n. n_id (f n) = n_id n" and "\<And>n. producer_key (f n) = producer_key n"
    and "\<And>n. n \<in> set ns \<Longrightarrow> p n \<Longrightarrow> well_formed_notification n \<Longrightarrow> well_formed_notification (f n)"
  shows "well_formed (update_where p f ns)"
proof -
  have "map n_id (update_where p f ns) = map n_id ns"
    and "map producer_key (update_where p f ns) = map producer_key ns"
    by (intro update_where_key assms)+
  moreover have "well_formed_notification n" if "n \<in> set (update_where p f ns)" for n
    using that well_formedD(3) [OF assms(1)] assms(4) by (auto simp: set_update_where)
  ultimately show ?thesis
    using well_formedD(1,2) [OF assms(1)] by (simp add: well_formed_def list_all_iff)
qed

text \<open>With distinct identifiers, changing one matching element is changing all of them.\<close>

lemma update_where_one:
  assumes "well_formed ns" and "ns = xs @ n # ys" and "n_id n = i" and "p n"
  shows "update_where (\<lambda>n. n_id n = i \<and> p n) f ns = xs @ f n # ys"
proof -
  have ne: "n_id x \<noteq> i" if "x \<in> set xs \<union> set ys" for x
    using well_formedD(1) [OF assms(1)] assms(2,3) that by (auto simp: in_set_conv_decomp)
  have "update_where (\<lambda>n. n_id n = i \<and> p n) f zs = zs" if "set zs \<subseteq> set xs \<union> set ys" for zs
    by (rule update_where_idle) (use ne that in blast)
  then have "update_where (\<lambda>n. n_id n = i \<and> p n) f xs = xs"
    and "update_where (\<lambda>n. n_id n = i \<and> p n) f ys = ys" by simp_all
  with assms(2-4) show ?thesis by (simp add: update_where_def)
qed

end
