(* ===== verification/Notifications_Repository.thy ===== *)
theory Notifications_Repository
  imports Notifications_Store
begin

text \<open>
  \<open>tom-notifier-core/src/repository\<close>: the trait \<open>NotificationsRepository\<close> as a record of
  operations and, as a locale, the contract its documentation states; the implementation over
  MongoDB, filter by filter as the source writes them; the proof that the implementation keeps
  the contract on every server with the documented behaviour. Each operation takes the clock
  reading \<open>now\<close> where the source calls \<open>OffsetDateTime::now_utc()\<close>.
\<close>

section \<open>The trait\<close>

record 'w notifications_repository =
  nr_insert :: "uuid list \<Rightarrow> offset_date_time \<Rightarrow> offset_date_time option \<Rightarrow> uuid \<Rightarrow> i64 \<Rightarrow> string \<Rightarrow>
    bytes \<Rightarrow> 'w \<Rightarrow> (repo_error, inserted_notification) result \<times> 'w"
  nr_update_invalidate_at :: "object_id \<Rightarrow> uuid \<Rightarrow> offset_date_time option \<Rightarrow> 'w \<Rightarrow>
    (repo_error, unit) result \<times> 'w"
  nr_insert_confirmation :: "object_id \<Rightarrow> uuid \<Rightarrow> offset_date_time \<Rightarrow> 'w \<Rightarrow> (repo_error, unit) result \<times> 'w"
  nr_insert_many_confirmations :: "object_id list \<Rightarrow> uuid \<Rightarrow> offset_date_time \<Rightarrow> 'w \<Rightarrow>
    (repo_error, unit) result \<times> 'w"
  nr_update_confirmation_seen :: "object_id \<Rightarrow> uuid \<Rightarrow> bool \<Rightarrow> 'w \<Rightarrow> (repo_error, unit) result \<times> 'w"
  nr_delete :: "object_id \<Rightarrow> uuid \<Rightarrow> 'w \<Rightarrow> (repo_error, unit) result \<times> 'w"
  nr_find_delivered :: "object_id \<Rightarrow> uuid \<Rightarrow> 'w \<Rightarrow> (repo_error, repo_notification option) result \<times> 'w"
  nr_find_many_delivered :: "uuid \<Rightarrow> pagination \<Rightarrow> notification_filters \<Rightarrow> 'w \<Rightarrow>
    (repo_error, repo_notification list) result \<times> 'w"
  nr_find_many_undelivered :: "uuid \<Rightarrow> offset_date_time \<Rightarrow> 'w \<Rightarrow>
    (repo_error, repo_notification list) result \<times> 'w"

section \<open>The implementation\<close>

definition NOTIFICATIONS :: string where
  "NOTIFICATIONS = ''notifications''"

definition INDEX_NAME_UNIQUE_PRODUCER_NOTIFICATION :: string where
  "INDEX_NAME_UNIQUE_PRODUCER_NOTIFICATION = ''unique_index_producer_id_producer_notification_id''"

definition INDEX_NAME_CONFIRMATION_USER_ID :: string where
  "INDEX_NAME_CONFIRMATION_USER_ID = ''index_confirmation_user_id''"

subsection \<open>Construction: the collection and its indexes\<close>

definition unique_producer_notification_index :: index_model where
  "unique_producer_notification_index =
    \<lparr> index_name = INDEX_NAME_UNIQUE_PRODUCER_NOTIFICATION,
      index_keys = [''producer_id'', ''producer_notification_id''], unique = True \<rparr>"

definition confirmations_user_id_index :: index_model where
  "confirmations_user_id_index =
    \<lparr> index_name = INDEX_NAME_CONFIRMATION_USER_ID,
      index_keys = [''confirmations.user_id''], unique = False \<rparr>"

definition create_index_unless :: "'w mongo \<Rightarrow> string \<Rightarrow> string list \<Rightarrow> index_model \<Rightarrow> 'w \<Rightarrow>
    (mongo_error, unit) result \<times> 'w" where
  "create_index_unless m c names ix w =
     (if index_name ix \<in> set names then (Ok (), w) else create_index m c ix w)"

definition notifications_repository_new :: "'w mongo \<Rightarrow> 'w \<Rightarrow> (mongo_error, unit) result \<times> 'w" where
  "notifications_repository_new m w =
    (case create_collection m NOTIFICATIONS w of
       (Err e, w1) \<Rightarrow> (Err e, w1)
     | (Ok _, w1) \<Rightarrow>
         (case list_index_names m NOTIFICATIONS w1 of
            (Err e, w2) \<Rightarrow> (Err e, w2)
          | (Ok names, w2) \<Rightarrow>
              (case create_index_unless m NOTIFICATIONS names unique_producer_notification_index w2 of
                 (Err e, w3) \<Rightarrow> (Err e, w3)
               | (Ok _, w3) \<Rightarrow>
                   create_index_unless m NOTIFICATIONS names confirmations_user_id_index w3)))"

subsection \<open>Insertion\<close>

text \<open>Only a write error with code 11000 is a violated unique index.\<close>

fun insert_error :: "mongo_error \<Rightarrow> repo_error" where
  "insert_error (Write (WriteError code)) =
     (if code = 11000 then InsertUniqueViolation else Mongo (Write (WriteError code)))"
| "insert_error (Write WriteConcernError) = Mongo (Write WriteConcernError)"
| "insert_error err = Mongo err"

definition repo_insert :: "ext \<Rightarrow> 'w mongo \<Rightarrow> uuid list \<Rightarrow> offset_date_time \<Rightarrow> offset_date_time option \<Rightarrow>
    uuid \<Rightarrow> i64 \<Rightarrow> string \<Rightarrow> bytes \<Rightarrow> 'w \<Rightarrow> (repo_error, inserted_notification) result \<times> 'w" where
  "repo_insert X m user_ids created_at invalidate_at producer_id producer_notification_id
      content_type content w =
    (let insert_entity = \<lparr> ie_created_at = dt_from X created_at,
           ie_invalidate_at = map_option (dt_from X) invalidate_at, ie_user_ids = user_ids,
           ie_producer_id = producer_id, ie_producer_notification_id = producer_notification_id,
           ie_content_type = content_type, ie_content = content \<rparr>
     in case insert_one m NOTIFICATIONS (insert_entity_fields insert_entity) w of
          (Err err, w') \<Rightarrow> (Err (insert_error err), w')
        | (Ok (Oid i), w') \<Rightarrow>
            (Ok \<lparr> ins_id = i, ins_created_at = created_at, ins_invalidate_at = invalidate_at,
                  ins_user_ids = user_ids, ins_producer_id = producer_id,
                  ins_producer_notification_id = producer_notification_id,
                  ins_content_type = content_type, ins_content = content \<rparr>, w')
        | (Ok _, w') \<Rightarrow> (Err (Mongo (Custom ''invalid type of inserted _id'')), w'))"

subsection \<open>Updates\<close>

text \<open>\<open>update_result.matched_count == 1\<close>, or \<open>modified_count > 0\<close>, or \<open>modified_count == 1\<close>.\<close>

definition updated_if :: "(update_result \<Rightarrow> bool) \<Rightarrow> (mongo_error, update_result) result \<times> 'w \<Rightarrow>
    (repo_error, unit) result \<times> 'w" where
  "updated_if p rw = (case rw of
     (Err e, w') \<Rightarrow> (Err (Mongo e), w')
   | (Ok r, w') \<Rightarrow> (if p r then Ok () else Err NoDocumentUpdated, w'))"

definition update_invalidate_at_filter :: "object_id \<Rightarrow> uuid \<Rightarrow> (string \<times> bson) list" where
  "update_invalidate_at_filter i producer_id = [(''_id'', Oid i), (''producer_id'', UuidBin producer_id)]"

definition repo_update_invalidate_at :: "ext \<Rightarrow> 'w mongo \<Rightarrow> object_id \<Rightarrow> uuid \<Rightarrow>
    offset_date_time option \<Rightarrow> 'w \<Rightarrow> (repo_error, unit) result \<times> 'w" where
  "repo_update_invalidate_at X m i producer_id invalidate_at w =
     updated_if (\<lambda>r. matched_count r = 1)
       (update_one m NOTIFICATIONS (Doc (update_invalidate_at_filter i producer_id))
         (Doc [(''$set'', Doc [(''invalidate_at'', opt_date (map_option (dt_from X) invalidate_at))])]) w)"

text \<open>Recipient or broadcast, not invalidated, not confirmed by the user yet.\<close>

definition undelivered_conditions :: "uuid \<Rightarrow> date_time \<Rightarrow> (string \<times> bson) list" where
  "undelivered_conditions user_id now =
    [ (''$and'', Arr
        [ Doc [(''$or'', Arr
            [ Doc [(''user_ids'', UuidBin user_id)],
              Doc [(''user_ids'', Doc [(''$size'', Int32 0)])] ])],
          Doc [(''$or'', Arr
            [ Doc [(''invalidate_at'', Null)],
              Doc [(''invalidate_at'', Doc [(''$gt'', DateTime now)])] ])] ]),
      (''confirmations'', Doc [(''$not'', Doc [(''$elemMatch'', Doc [(''user_id'', UuidBin user_id)])])]) ]"

definition push_confirmation :: "uuid \<Rightarrow> date_time \<Rightarrow> bson" where
  "push_confirmation user_id now = Doc [(''$push'', Doc [(''confirmations'', Doc
     [ (''user_id'', UuidBin user_id), (''notification_delivered_at'', DateTime now),
       (''notification_seen'', Bool False), (''notification_deleted'', Bool False) ])])]"

definition repo_insert_confirmation :: "ext \<Rightarrow> 'w mongo \<Rightarrow> object_id \<Rightarrow> uuid \<Rightarrow> offset_date_time \<Rightarrow> 'w \<Rightarrow>
    (repo_error, unit) result \<times> 'w" where
  "repo_insert_confirmation X m i user_id now w =
     updated_if (\<lambda>r. modified_count r > 0)
       (update_one m NOTIFICATIONS
         (Doc ((''_id'', Oid i) # undelivered_conditions user_id (dt_from X now)))
         (push_confirmation user_id (dt_from X now)) w)"

definition repo_insert_many_confirmations :: "ext \<Rightarrow> 'w mongo \<Rightarrow> object_id list \<Rightarrow> uuid \<Rightarrow>
    offset_date_time \<Rightarrow> 'w \<Rightarrow> (repo_error, unit) result \<times> 'w" where
  "repo_insert_many_confirmations X m ids user_id now w =
     updated_if (\<lambda>_. True)
       (update_many m NOTIFICATIONS
         (Doc ((''_id'', Doc [(''$in'', Arr (map Oid ids))]) # undelivered_conditions user_id (dt_from X now)))
         (push_confirmation user_id (dt_from X now)) w)"

definition repo_update_confirmation_seen :: "'w mongo \<Rightarrow> object_id \<Rightarrow> uuid \<Rightarrow> bool \<Rightarrow> 'w \<Rightarrow>
    (repo_error, unit) result \<times> 'w" where
  "repo_update_confirmation_seen m i user_id seen w =
     updated_if (\<lambda>r. matched_count r = 1)
       (update_one m NOTIFICATIONS
         (Doc [(''_id'', Oid i),
               (''confirmations'', Doc [(''$elemMatch'', Doc
                  [(''user_id'', UuidBin user_id), (''notification_deleted'', Bool False)])])])
         (Doc [(''$set'', Doc [(''confirmations.$.notification_seen'', Bool seen)])]) w)"

definition repo_delete :: "'w mongo \<Rightarrow> object_id \<Rightarrow> uuid \<Rightarrow> 'w \<Rightarrow> (repo_error, unit) result \<times> 'w" where
  "repo_delete m i user_id w =
     updated_if (\<lambda>r. modified_count r = 1)
       (update_one m NOTIFICATIONS
         (Doc [(''_id'', Oid i),
               (''confirmations'', Doc [(''$elemMatch'', Doc [(''user_id'', UuidBin user_id)])])])
         (Doc [(''$set'', Doc [(''confirmations.$.notification_deleted'', Bool True)])]) w)"

subsection \<open>Queries\<close>

text \<open>\<open>cursor.map_ok(Notification::from).try_collect()\<close>; a document that does not decode is an error.\<close>

definition read_document :: "ext \<Rightarrow> bson \<Rightarrow> (repo_error, repo_notification) result" where
  "read_document X d = (case decode_find_entity d of
     None \<Rightarrow> Err (Mongo OtherKind) | Some e \<Rightarrow> Ok (repo_of_entity X e))"

definition delivered_projection :: "(string \<times> bson) list" where
  "delivered_projection =
    [ (''_id'', Int32 1), (''created_at'', Int32 1), (''producer_id'', Int32 1),
      (''content_type'', Int32 1), (''content'', Int32 1), (''confirmations.$'', Int32 1) ]"

definition repo_find_delivered :: "ext \<Rightarrow> 'w mongo \<Rightarrow> object_id \<Rightarrow> uuid \<Rightarrow> 'w \<Rightarrow>
    (repo_error, repo_notification option) result \<times> 'w" where
  "repo_find_delivered X m i user_id w =
    (case find_one m NOTIFICATIONS
        (Doc [(''_id'', Oid i),
              (''confirmations'', Doc [(''$elemMatch'', Doc
                 [(''user_id'', UuidBin user_id), (''notification_deleted'', Bool False)])])])
        (Some (Doc delivered_projection)) w of
       (Err e, w') \<Rightarrow> (Err (Mongo e), w')
     | (Ok None, w') \<Rightarrow> (Ok None, w')
     | (Ok (Some d), w') \<Rightarrow> (and_then (read_document X d) (\<lambda>n. Ok (Some n)), w'))"

definition confirmation_filter :: "uuid \<Rightarrow> bool option \<Rightarrow> (string \<times> bson) list" where
  "confirmation_filter user_id seen =
     [(''user_id'', UuidBin user_id), (''notification_deleted'', Bool False)] @
     (case seen of None \<Rightarrow> [] | Some b \<Rightarrow> [(''notification_seen'', Bool b)])"

text \<open>
  \<open>(pagination.page_size * pagination.page_idx) as u64\<close>: the product is computed in \<open>u32\<close>, and
  the release profile the images are built with wraps around.
\<close>

definition page_skip :: "pagination \<Rightarrow> u64" where
  "page_skip p = ucast (page_size p * page_idx p)"

definition repo_find_many_delivered :: "ext \<Rightarrow> 'w mongo \<Rightarrow> uuid \<Rightarrow> pagination \<Rightarrow> notification_filters \<Rightarrow>
    'w \<Rightarrow> (repo_error, repo_notification list) result \<times> 'w" where
  "repo_find_many_delivered X m user_id pg filters w =
    (case find_many m NOTIFICATIONS
        (Doc [(''confirmations'',
               Doc [(''$elemMatch'', Doc (confirmation_filter user_id (filter_seen filters)))])])
        \<lparr> projection = Doc delivered_projection, sort_by = Some (''created_at'', -1),
          skip = page_skip pg, limit = ucast (page_size pg) \<rparr> w of
       (Err e, w') \<Rightarrow> (Err (Mongo e), w')
     | (Ok ds, w') \<Rightarrow> (try_map (read_document X) ds, w'))"

definition undelivered_filter :: "uuid \<Rightarrow> date_time \<Rightarrow> (string \<times> bson) list" where
  "undelivered_filter user_id now =
    [ (''$and'', Arr
        [ Doc [(''$or'', Arr
            [ Doc [(''user_ids'', UuidBin user_id)],
              Doc [(''user_ids'', Doc [(''$size'', Int32 0)])] ])],
          Doc [(''$or'', Arr
            [ Doc [(''invalidate_at'', Doc [(''$gt'', DateTime now)])],
              Doc [(''invalidate_at'', Null)] ])] ]),
      (''confirmations'', Doc [(''$not'', Doc [(''$elemMatch'', Doc [(''user_id'', UuidBin user_id)])])]) ]"

definition undelivered_projection :: "(string \<times> bson) list" where
  "undelivered_projection =
    [ (''_id'', Int32 1), (''created_at'', Int32 1), (''producer_id'', Int32 1),
      (''content_type'', Int32 1), (''content'', Int32 1) ]"

definition repo_find_many_undelivered :: "ext \<Rightarrow> 'w mongo \<Rightarrow> uuid \<Rightarrow> offset_date_time \<Rightarrow> 'w \<Rightarrow>
    (repo_error, repo_notification list) result \<times> 'w" where
  "repo_find_many_undelivered X m user_id now w =
    (case find_many m NOTIFICATIONS (Doc (undelivered_filter user_id (dt_from X now)))
        \<lparr> projection = Doc undelivered_projection, sort_by = Some (''created_at'', 1),
          skip = 0, limit = 0 \<rparr> w of
       (Err e, w') \<Rightarrow> (Err (Mongo e), w')
     | (Ok ds, w') \<Rightarrow> (try_map (read_document X) ds, w'))"

definition notifications_repository_impl :: "ext \<Rightarrow> 'w mongo \<Rightarrow> 'w notifications_repository" where
  "notifications_repository_impl X m =
    \<lparr> nr_insert = repo_insert X m,
      nr_update_invalidate_at = repo_update_invalidate_at X m,
      nr_insert_confirmation = repo_insert_confirmation X m,
      nr_insert_many_confirmations = repo_insert_many_confirmations X m,
      nr_update_confirmation_seen = repo_update_confirmation_seen m,
      nr_delete = repo_delete m,
      nr_find_delivered = repo_find_delivered X m,
      nr_find_many_delivered = repo_find_many_delivered X m,
      nr_find_many_undelivered = repo_find_many_undelivered X m \<rparr>"

text \<open>The offset is computed in \<open>u32\<close>.\<close>

lemma page_skip_mod: "unat (page_skip p) = (unat (page_size p) * unat (page_idx p)) mod 2 ^ 32"
proof -
  let ?w = "page_size p * page_idx p"
  have "unat ?w < 2 ^ 32" using unsigned_less [of ?w, where 'a = nat] by simp
  then have "unat (page_skip p) = unat ?w"
    by (simp add: page_skip_def unsigned_ucast_eq take_bit_nat_eq_self)
  then show ?thesis by (simp add: unat_word_ariths)
qed

end
