(* ===== verification/Notifications_Contract.thy ===== *)
theory Notifications_Contract
  imports Notifications_Repository
begin

text \<open>
  The contract of the trait \<open>NotificationsRepository\<close> as a locale: each operation of the trait's
  record against the abstract store of \<open>Notifications_Store\<close>. \<open>holds w ns\<close> relates a world to the
  notifications it stores; every outcome of an operation, errors included, says what the store
  holds afterwards. A write that reports a database error may or may not have happened.
\<close>

section \<open>The contract\<close>

definition id_of :: "object_id \<Rightarrow> (notification \<Rightarrow> bool) \<Rightarrow> notification \<Rightarrow> bool" where
  "id_of i p n \<longleftrightarrow> n_id n = i \<and> p n"

definition update_outcome :: "('w \<Rightarrow> notification list \<Rightarrow> bool) \<Rightarrow> (notification \<Rightarrow> bool) \<Rightarrow>
    (notification \<Rightarrow> notification) \<Rightarrow> notification list \<Rightarrow> (repo_error, unit) result \<Rightarrow> 'w \<Rightarrow> bool" where
  "update_outcome H p f ns res w' = (case res of
     Ok _ \<Rightarrow> list_ex p ns \<and> H w' (update_where p f ns)
   | Err NoDocumentUpdated \<Rightarrow> \<not> list_ex p ns \<and> H w' ns
   | Err (Mongo _) \<Rightarrow> H w' ns \<or> H w' (update_where p f ns)
   | Err InsertUniqueViolation \<Rightarrow> False)"

definition new_notification :: "ext \<Rightarrow> object_id \<Rightarrow> uuid list \<Rightarrow> offset_date_time \<Rightarrow>
    offset_date_time option \<Rightarrow> uuid \<Rightarrow> i64 \<Rightarrow> string \<Rightarrow> bytes \<Rightarrow> notification" where
  "new_notification X i us c ia p pn ct content =
    \<lparr> n_id = i, n_created_at = dt_from X c, n_invalidate_at = map_option (dt_from X) ia,
      n_user_ids = us, n_producer_id = p, n_producer_notification_id = pn,
      n_content_type = ct, n_content = content, n_confirmations = [] \<rparr>"

definition fresh :: "notification \<Rightarrow> notification list \<Rightarrow> bool" where
  "fresh n ns \<longleftrightarrow> n_id n \<notin> n_id ` set ns \<and> producer_key n \<notin> producer_key ` set ns"

definition page_of :: "pagination \<Rightarrow> 'a list \<Rightarrow> 'a list" where
  "page_of pg xs = (let rest = drop (unat (page_skip pg)) xs
     in if page_size pg = 0 then rest else take (unat (page_size pg)) rest)"

definition delivered_view :: "ext \<Rightarrow> uuid \<Rightarrow> bool option \<Rightarrow> notification \<Rightarrow> repo_notification" where
  "delivered_view X u s n = view X (case delivered_conf u s n of None \<Rightarrow> False | Some c \<Rightarrow> c_seen c) n"

definition confirmed_some :: "uuid \<Rightarrow> notification \<Rightarrow> bool" where
  "confirmed_some u n \<longleftrightarrow> delivered_conf u None n \<noteq> None"

locale notifications_repository =
  fixes r :: "'w notifications_repository" and X :: ext
    and holds :: "'w \<Rightarrow> notification list \<Rightarrow> bool"
  assumes insert_Ok: "holds w ns \<Longrightarrow> nr_insert r us c ia p pn ct content w = (Ok ins, w') \<Longrightarrow>
      \<exists>i. ins = \<lparr>ins_id = i, ins_created_at = c, ins_invalidate_at = ia, ins_user_ids = us,
          ins_producer_id = p, ins_producer_notification_id = pn, ins_content_type = ct,
          ins_content = content\<rparr> \<and>
        fresh (new_notification X i us c ia p pn ct content) ns \<and>
        holds w' (ns @ [new_notification X i us c ia p pn ct content])"
    and insert_duplicate: "holds w ns \<Longrightarrow>
      nr_insert r us c ia p pn ct content w = (Err InsertUniqueViolation, w') \<Longrightarrow>
      (p, pn) \<in> producer_key ` set ns \<and> holds w' ns"
    and insert_Err: "holds w ns \<Longrightarrow> nr_insert r us c ia p pn ct content w = (Err e, w') \<Longrightarrow>
      e \<noteq> NoDocumentUpdated \<and>
      (holds w' ns \<or> (\<exists>i. fresh (new_notification X i us c ia p pn ct content) ns \<and>
        holds w' (ns @ [new_notification X i us c ia p pn ct content])))"
    and update_invalidate_at: "holds w ns \<Longrightarrow> nr_update_invalidate_at r i p d w = (res, w') \<Longrightarrow>
      update_outcome holds (id_of i (\<lambda>n. n_producer_id n = p))
        (reinvalidate (map_option (dt_from X) d)) ns res w'"
    and insert_confirmation: "holds w ns \<Longrightarrow> nr_insert_confirmation r i u now w = (res, w') \<Longrightarrow>
      update_outcome holds (id_of i (undelivered u (dt_from X now))) (confirm u (dt_from X now)) ns res w'"
    and insert_many_confirmations_Ok: "holds w ns \<Longrightarrow>
      nr_insert_many_confirmations r is u now w = (Ok (), w') \<Longrightarrow>
      holds w' (update_where (\<lambda>n. n_id n \<in> set is \<and> undelivered u (dt_from X now) n)
        (confirm u (dt_from X now)) ns)"
    and insert_many_confirmations_Err: "holds w ns \<Longrightarrow>
      nr_insert_many_confirmations r is u now w = (Err e, w') \<Longrightarrow>
      \<exists>js. set js \<subseteq> set is \<and>
        holds w' (update_where (\<lambda>n. n_id n \<in> set js \<and> undelivered u (dt_from X now) n)
          (confirm u (dt_from X now)) ns)"
    and update_confirmation_seen: "holds w ns \<Longrightarrow>
      nr_update_confirmation_seen r i u b w = (res, w') \<Longrightarrow>
      update_outcome holds (id_of i (confirmed_some u)) (mark_seen u b) ns res w'"
    and delete: "holds w ns \<Longrightarrow> nr_delete r i u w = (res, w') \<Longrightarrow>
      update_outcome holds (id_of i (confirmed_some u)) (mark_deleted u) ns res w'"
    and find_delivered: "holds w ns \<Longrightarrow> nr_find_delivered r i u w = (Ok x, w') \<Longrightarrow>
      x = map_option (delivered_view X u None) (find (id_of i (confirmed_some u)) ns)"
    and find_many_delivered: "holds w ns \<Longrightarrow> nr_find_many_delivered r u pg fs w = (Ok xs, w') \<Longrightarrow>
      \<exists>ms. mset ms = mset (filter (\<lambda>n. delivered_conf u (filter_seen fs) n \<noteq> None) ns) \<and>
        sorted_wrt (\<lambda>a b. n_created_at b \<le> n_created_at a) ms \<and>
        xs = map (delivered_view X u (filter_seen fs)) (page_of pg ms)"
    and find_many_undelivered: "holds w ns \<Longrightarrow> nr_find_many_undelivered r u now w = (Ok xs, w') \<Longrightarrow>
      \<exists>ms. mset ms = mset (filter (undelivered u (dt_from X now)) ns) \<and>
        sorted_wrt (\<lambda>a b. n_created_at a \<le> n_created_at b) ms \<and> xs = map (view X False) ms"
    and queries_keep: "holds w ns \<Longrightarrow> holds (snd (nr_find_delivered r i u w)) ns"
      "holds w ns \<Longrightarrow> holds (snd (nr_find_many_delivered r u pg fs w)) ns"
      "holds w ns \<Longrightarrow> holds (snd (nr_find_many_undelivered r u now w)) ns"

end
