(* ===== verification/Notifications_Encoding.thy ===== *)
theory Notifications_Encoding
  imports Notifications_Repository
begin

text \<open>
  What the filters, updates and projections of \<open>Notifications_Repository\<close> mean on the stored
  documents: a document \<open>encode n\<close> matches a filter exactly when the notification satisfies the
  corresponding predicate of \<open>Notifications_Store\<close>, an update of it encodes the updated
  notification, and a projected document decodes to what the repository returns. Proved once,
  inside the locales that state the documented behaviour of MongoDB's operators.
\<close>

section \<open>Fields of an encoded notification\<close>

lemma field_encode [simp]:
  "field ''_id'' (encode n) = Some (Oid (n_id n))"
  "field ''created_at'' (encode n) = Some (DateTime (n_created_at n))"
  "field ''invalidate_at'' (encode n) = Some (opt_date (n_invalidate_at n))"
  "field ''user_ids'' (encode n) = Some (Arr (map UuidBin (n_user_ids n)))"
  "field ''producer_id'' (encode n) = Some (UuidBin (n_producer_id n))"
  "field ''producer_notification_id'' (encode n) = Some (Int64 (n_producer_notification_id n))"
  "field ''content_type'' (encode n) = Some (Str (n_content_type n))"
  "field ''content'' (encode n) = Some (Generic (n_content n))"
  "field ''confirmations'' (encode n) = Some (Arr (map encode_confirmation (n_confirmations n)))"
  by (simp_all add: encode_def encode_fields_def)

lemma field_encode_confirmation [simp]:
  "field ''user_id'' (encode_confirmation c) = Some (UuidBin (c_user_id c))"
  "field ''notification_delivered_at'' (encode_confirmation c) = Some (DateTime (c_delivered_at c))"
  "field ''notification_seen'' (encode_confirmation c) = Some (Bool (c_seen c))"
  "field ''notification_deleted'' (encode_confirmation c) = Some (Bool (c_deleted c))"
  by (simp_all add: encode_confirmation_def)

lemma field_names [simp]:
  "field_name ''_id''" "field_name ''created_at''" "field_name ''invalidate_at''"
  "field_name ''user_ids''" "field_name ''producer_id''" "field_name ''producer_notification_id''"
  "field_name ''content_type''" "field_name ''content''" "field_name ''confirmations''"
  "field_name ''user_id''" "field_name ''notification_seen''" "field_name ''notification_deleted''"
  by (simp_all add: field_name_def)

lemma encoded_confirmations_docs [simp]: "list_all is_doc (map encode_confirmation cs)"
  by (simp add: list_all_iff encode_confirmation_def)

section \<open>The filters\<close>

context mongo_queries
begin

lemma cond_user_ids: "cond m ''user_ids'' (UuidBin u) (encode n) \<longleftrightarrow> u \<in> set (n_user_ids n)"
proof -
  have "test m (UuidBin u) (Some (Arr (map UuidBin (n_user_ids n)))) \<longleftrightarrow>
      UuidBin u \<in> set (map UuidBin (n_user_ids n))"
    by (rule test_scalar_array) (simp_all add: list_all_iff)
  then show ?thesis by (auto simp: cond_field)
qed

lemma cond_broadcast:
  "cond m ''user_ids'' (Doc [(''$size'', Int32 0)]) (encode n) \<longleftrightarrow> n_user_ids n = []"
  by (simp add: cond_field test_size)

lemma cond_not_invalidated:
  "cond m ''invalidate_at'' Null (encode n) \<longleftrightarrow> n_invalidate_at n = None"
  "cond m ''invalidate_at'' (Doc [(''$gt'', DateTime t)]) (encode n) \<longleftrightarrow>
     (\<exists>i. n_invalidate_at n = Some i \<and> t < i)"
proof -
  show "cond m ''invalidate_at'' Null (encode n) \<longleftrightarrow> n_invalidate_at n = None"
    by (cases "n_invalidate_at n") (simp_all add: cond_field opt_date_def test_null)
  show "cond m ''invalidate_at'' (Doc [(''$gt'', DateTime t)]) (encode n) \<longleftrightarrow>
     (\<exists>i. n_invalidate_at n = Some i \<and> t < i)"
    by (cases "n_invalidate_at n") (simp_all add: cond_field opt_date_def test_gt test_gt_null)
qed

lemma matches_confirmation:
  "matches m (Doc (confirmation_filter u s)) (encode_confirmation c) \<longleftrightarrow> conf_filter u s c"
  "matches m (Doc [(''user_id'', UuidBin u), (''notification_deleted'', Bool False)]) (encode_confirmation c)
     \<longleftrightarrow> conf_filter u None c"
  "matches m (Doc [(''user_id'', UuidBin u)]) (encode_confirmation c) \<longleftrightarrow> c_user_id c = u"
  by (auto simp: confirmation_filter_def conf_filter_def matches_Doc cond_field test_scalar
      split: option.splits)

lemma cond_confirmations:
  "cond m ''confirmations'' (Doc [(''$elemMatch'', q)]) (encode n) \<longleftrightarrow>
     list_ex (\<lambda>c. matches m q (encode_confirmation c)) (n_confirmations n)"
  by (simp add: cond_field test_elemMatch list_ex_iff)

lemma cond_confirmations_user:
  "cond m ''confirmations'' (Doc [(''$elemMatch'', Doc (confirmation_filter u s))]) (encode n) \<longleftrightarrow>
     delivered_conf u s n \<noteq> None"
  "cond m ''confirmations'' (Doc [(''$elemMatch'', Doc
      [(''user_id'', UuidBin u), (''notification_deleted'', Bool False)])]) (encode n) \<longleftrightarrow>
     delivered_conf u None n \<noteq> None"
  "cond m ''confirmations'' (Doc [(''$elemMatch'', Doc [(''user_id'', UuidBin u)])]) (encode n) \<longleftrightarrow>
     confirmed u n"
  "cond m ''confirmations'' (Doc [(''$not'', Doc [(''$elemMatch'', Doc [(''user_id'', UuidBin u)])])]) (encode n)
     \<longleftrightarrow> \<not> confirmed u n"
  unfolding cond_confirmations matches_confirmation
  by (auto simp: delivered_conf_def find_None_iff list_ex_iff confirmed_def cond_field test_not
      test_elemMatch matches_confirmation)

lemma cond_producer: "cond m ''producer_id'' (UuidBin p) (encode n) \<longleftrightarrow> n_producer_id n = p"
  by (auto simp: cond_field test_scalar)

lemma cond_id:
  "cond m ''_id'' (Oid i) (encode n) \<longleftrightarrow> n_id n = i"
  "cond m ''_id'' (Doc [(''$in'', Arr (map Oid is))]) (encode n) \<longleftrightarrow> n_id n \<in> set is"
  by (auto simp: cond_field test_scalar test_in)

lemmas encode_conditions = matches_Doc cond_and cond_or cond_user_ids cond_broadcast cond_not_invalidated
  cond_confirmations_user cond_producer cond_id

lemma matches_undelivered:
  "matches m (Doc (undelivered_conditions u t)) (encode n) \<longleftrightarrow> undelivered u t n"
  "matches m (Doc (undelivered_filter u t)) (encode n) \<longleftrightarrow> undelivered u t n"
  by (auto simp: undelivered_conditions_def undelivered_filter_def undelivered_def recipient_def
      valid_at_def encode_conditions split: option.splits)

lemma matches_filters:
  "matches m (Doc ((''_id'', Oid i) # undelivered_conditions u t)) (encode n) \<longleftrightarrow>
     n_id n = i \<and> undelivered u t n"
  "matches m (Doc ((''_id'', Doc [(''$in'', Arr (map Oid is))]) # undelivered_conditions u t)) (encode n) \<longleftrightarrow>
     n_id n \<in> set is \<and> undelivered u t n"
  "matches m (Doc (update_invalidate_at_filter i p)) (encode n) \<longleftrightarrow> n_id n = i \<and> n_producer_id n = p"
  using matches_undelivered(1) [of u t n]
  by (auto simp: matches_Doc cond_id cond_producer update_invalidate_at_filter_def)

lemma matches_delivered:
  "matches m (Doc [(''confirmations'', Doc [(''$elemMatch'', Doc (confirmation_filter u s))])]) (encode n) \<longleftrightarrow>
     delivered_conf u s n \<noteq> None"
  "matches m (Doc [(''_id'', Oid i), (''confirmations'', Doc [(''$elemMatch'', Doc
        [(''user_id'', UuidBin u), (''notification_deleted'', Bool False)])])]) (encode n) \<longleftrightarrow>
     n_id n = i \<and> delivered_conf u None n \<noteq> None"
  "matches m (Doc [(''_id'', Oid i), (''confirmations'', Doc [(''$elemMatch'', Doc
        [(''user_id'', UuidBin u)])])]) (encode n) \<longleftrightarrow> n_id n = i \<and> confirmed u n"
  by (simp_all add: encode_conditions)

end

section \<open>The updates and the projections\<close>

lemma set_encode_fields [simp]:
  "Doc (set_field ''confirmations'' (Arr (map encode_confirmation cs)) (encode_fields n)) =
     encode (n\<lparr>n_confirmations := cs\<rparr>)"
  "Doc (set_field ''invalidate_at'' (opt_date d) (encode_fields n)) = encode (n\<lparr>n_invalidate_at := d\<rparr>)"
  by (simp_all add: encode_def encode_fields_def)

lemma doc_set_confirmation:
  "doc_set ''notification_seen'' (Bool b) (encode_confirmation c) = encode_confirmation (c\<lparr>c_seen := b\<rparr>)"
  "doc_set ''notification_deleted'' (Bool b) (encode_confirmation c) = encode_confirmation (c\<lparr>c_deleted := b\<rparr>)"
  by (simp_all add: encode_confirmation_def)

lemma map_of_encode_fields: "map_of (encode_fields n) k = field k (encode n)"
  by (simp add: encode_def)

context mongo_updates
begin

lemma apply_push_confirmation: "apply_update m f (push_confirmation u t) (encode n) = encode (confirm u t n)"
proof -
  let ?c = "\<lparr>c_user_id = u, c_delivered_at = t, c_seen = False, c_deleted = False\<rparr>"
  have "apply_update m f (Doc [(''$push'', Doc [(''confirmations'', encode_confirmation ?c)])])
      (Doc (encode_fields n)) =
    Doc (set_field ''confirmations'' (Arr (map encode_confirmation (n_confirmations n) @ [encode_confirmation ?c]))
      (encode_fields n))"
    by (rule apply_push) (simp_all add: map_of_encode_fields)
  also have "\<dots> = encode (confirm u t n)"
    using set_encode_fields(1) [of "n_confirmations n @ [?c]" n] by (simp add: confirm_def)
  finally show ?thesis
    by (simp add: push_confirmation_def encode_confirmation_def encode_def [of n])
qed

lemma apply_set_invalidate_at:
  "apply_update m f (Doc [(''$set'', Doc [(''invalidate_at'', opt_date d)])]) (encode n) =
     encode (reinvalidate d n)"
  using apply_set [of "''invalidate_at''" f "opt_date d" "encode_fields n"] set_encode_fields(2) [of d n]
  by (simp add: encode_def [of n] reinvalidate_def)

lemma apply_positional:
  assumes q: "map_of qs ''confirmations'' = Some (Doc [(''$elemMatch'', q)])"
    and k: "field_name k"
    and p: "\<And>c. matches m q (encode_confirmation c) \<longleftrightarrow> p c"
    and g: "\<And>c. doc_set k v (encode_confirmation c) = encode_confirmation (g c)"
    and ex: "list_ex p (n_confirmations n)"
  shows "apply_update m (Doc qs) (Doc [(''$set'', Doc [(''confirmations.$.'' @ k, v)])]) (encode n) =
    encode (n\<lparr>n_confirmations := update_first p g (n_confirmations n)\<rparr>)"
proof -
  let ?cs = "map encode_confirmation (n_confirmations n)"
  have "apply_update m (Doc qs) (Doc [(''$set'', Doc [(''confirmations'' @ ''.$.'' @ k, v)])])
      (Doc (encode_fields n)) =
    Doc (set_field ''confirmations'' (Arr (update_first (matches m q) (doc_set k v) ?cs)) (encode_fields n))"
    by (rule apply_set_positional)
       (use q k ex in \<open>auto simp: map_of_encode_fields list_ex_iff p\<close>)
  also have "update_first (matches m q) (doc_set k v) ?cs =
      map encode_confirmation (update_first p g (n_confirmations n))"
    by (rule update_first_map) (simp_all add: p g)
  finally show ?thesis by (simp add: encode_def [of n])
qed

lemma apply_set_seen:
  assumes "delivered_conf u None n \<noteq> None"
  shows "apply_update m (Doc [(''_id'', Oid i), (''confirmations'', Doc [(''$elemMatch'', Doc
        [(''user_id'', UuidBin u), (''notification_deleted'', Bool False)])])])
      (Doc [(''$set'', Doc [(''confirmations.$.notification_seen'', Bool b)])]) (encode n) =
    encode (mark_seen u b n)"
proof -
  have ex: "list_ex (conf_filter u None) (n_confirmations n)"
    using assms by (auto simp: delivered_conf_def find_None_iff list_ex_iff)
  show ?thesis
    using apply_positional [where k = "''notification_seen''" and v = "Bool b",
        OF _ _ matches_confirmation(2) doc_set_confirmation(1) ex]
    by (simp add: mark_seen_def)
qed

lemma apply_set_deleted:
  assumes "confirmed u n"
  shows "apply_update m (Doc [(''_id'', Oid i), (''confirmations'', Doc [(''$elemMatch'', Doc
        [(''user_id'', UuidBin u)])])])
      (Doc [(''$set'', Doc [(''confirmations.$.notification_deleted'', Bool True)])]) (encode n) =
    encode (mark_deleted u n)"
  using apply_positional [where k = "''notification_deleted''" and v = "Bool True",
      OF _ _ matches_confirmation(3) doc_set_confirmation(2) assms [unfolded confirmed_def]]
  by (simp add: mark_deleted_def)

lemma read_projection:
  assumes ps: "{(''_id'', Int32 1), (''created_at'', Int32 1), (''producer_id'', Int32 1),
      (''content_type'', Int32 1), (''content'', Int32 1)} \<subseteq> set ps"
    and nps: "\<And>k. k \<in> {''_id'', ''created_at'', ''producer_id'', ''content_type'', ''content''} \<Longrightarrow>
      (k @ ''.$'', Int32 1) \<notin> set ps"
    and confs: "decode_confirmations (field ''confirmations'' (project m (Doc ps) f (encode n))) = Some cs"
  shows "read_document X (project m (Doc ps) f (encode n)) =
    Ok (view X (case cs of [] \<Rightarrow> False | s # _ \<Rightarrow> s) n)"
proof -
  have "field k (project m (Doc ps) f (encode n)) = field k (encode n)"
    if "k \<in> {''_id'', ''created_at'', ''producer_id'', ''content_type'', ''content''}" for k
    using that ps nps [OF that] project_field [of k ps f "encode_fields n"]
    by (auto simp: encode_def)
  then show ?thesis
    by (simp add: read_document_def decode_find_entity_def confs repo_of_entity_def view_def)
qed

lemma read_undelivered:
  "read_document X (project m (Doc undelivered_projection) f (encode n)) = Ok (view X False n)"
proof -
  have "field ''confirmations'' (project m (Doc undelivered_projection) f (encode n)) = None"
    using project_absent [of "''confirmations''" undelivered_projection f "encode_fields n"]
    by (simp add: undelivered_projection_def encode_def)
  then have "decode_confirmations
      (field ''confirmations'' (project m (Doc undelivered_projection) f (encode n))) = Some []"
    by (simp add: decode_confirmations_def)
  from read_projection [OF _ _ this] show ?thesis by (simp add: undelivered_projection_def)
qed

lemma read_delivered:
  assumes q: "map_of qs ''confirmations'' = Some (Doc [(''$elemMatch'', q)])"
    and p: "\<And>c. matches m q (encode_confirmation c) \<longleftrightarrow> conf_filter u s c"
    and c: "delivered_conf u s n = Some c"
  shows "read_document X (project m (Doc delivered_projection) (Doc qs) (encode n)) =
    Ok (view X (c_seen c) n)"
proof -
  have "find (matches m q) (map encode_confirmation (n_confirmations n)) = Some (encode_confirmation c)"
    using c by (simp add: find_first_map comp_def p delivered_conf_def)
  then have "field ''confirmations'' (project m (Doc delivered_projection) (Doc qs) (Doc (encode_fields n))) =
      Some (Arr [encode_confirmation c])"
    by (intro project_positional [where q = q and xs = "map encode_confirmation (n_confirmations n)"])
       (simp_all add: q map_of_encode_fields delivered_projection_def)
  then have "decode_confirmations
      (field ''confirmations'' (project m (Doc delivered_projection) (Doc qs) (encode n))) = Some [c_seen c]"
    by (simp add: decode_confirmations_def encode_def [of n])
  then have "read_document X (project m (Doc delivered_projection) (Doc qs) (encode n)) =
      Ok (view X (case [c_seen c] of [] \<Rightarrow> False | s # _ \<Rightarrow> s) n)"
    by (intro read_projection) (auto simp: delivered_projection_def)
  then show ?thesis by simp
qed

end

end
