(* ===== verification/Mongo_Reference.thy ===== *)
theory Mongo_Reference
  imports Mongo
begin

text \<open>
  A concrete server: collections in memory, an evaluator for the operators that the source's
  filters, updates and projections use. It is an instance of the parameter \<open>mongo\<close>, not a model
  of MongoDB: it shows that the documented behaviour assumed in the theory \<open>Mongo\<close> can hold, it
  is what the locales are interpreted with, and the witnesses run on it.
\<close>

section \<open>Filters\<close>

fun r_compare :: "string \<Rightarrow> bson \<Rightarrow> bson option \<Rightarrow> bool" where
  "r_compare op' v x =
     (if op' = ''$gt'' then
        (case v of DateTime t \<Rightarrow> (case x of Some (DateTime s) \<Rightarrow> t < s | _ \<Rightarrow> False) | _ \<Rightarrow> False)
      else if op' = ''$size'' then
        (case v of Int32 n \<Rightarrow> (case x of Some (Arr xs) \<Rightarrow> int (length xs) = sint n | _ \<Rightarrow> False)
         | _ \<Rightarrow> False)
      else if op' = ''$in'' then
        (case v of Arr vs \<Rightarrow> (case x of Some y \<Rightarrow> y \<in> set vs | _ \<Rightarrow> False) | _ \<Rightarrow> False)
      else False)"

fun r_equal :: "bson \<Rightarrow> bson option \<Rightarrow> bool" where
  "r_equal v x = (case x of None \<Rightarrow> v = Null | Some y \<Rightarrow>
     (case y of Arr vs \<Rightarrow> v \<in> set vs | _ \<Rightarrow> y = v))"

function r_matches :: "bson \<Rightarrow> bson \<Rightarrow> bool"
  and r_cond :: "string \<Rightarrow> bson \<Rightarrow> bson \<Rightarrow> bool"
  and r_test :: "bson \<Rightarrow> bson option \<Rightarrow> bool"
where
  "r_matches q d = (case q of Doc fs \<Rightarrow> list_all (\<lambda>(k, v). r_cond k v d) fs | _ \<Rightarrow> False)"
| "r_cond k v d =
     (if k = ''$and'' then (case v of Arr qs \<Rightarrow> list_all (\<lambda>q. r_matches q d) qs | _ \<Rightarrow> False)
      else if k = ''$or'' then (case v of Arr qs \<Rightarrow> list_ex (\<lambda>q. r_matches q d) qs | _ \<Rightarrow> False)
      else r_test v (field k d))"
| "r_test v x =
     (case v of
        Doc fs \<Rightarrow>
          (case fs of [] \<Rightarrow> False | (op', p) # _ \<Rightarrow>
             (if op' = ''$not'' then \<not> r_test p x
              else if op' = ''$elemMatch'' then
                (case x of None \<Rightarrow> False | Some y \<Rightarrow>
                   (case y of Arr xs \<Rightarrow> list_ex (\<lambda>e. r_matches p e) xs | _ \<Rightarrow> False))
              else r_compare op' p x))
      | _ \<Rightarrow> r_equal v x)"
  by pat_completeness auto

termination
  by (relation "measures
        [\<lambda>a. case a of Inl (q, _) \<Rightarrow> size q | Inr (Inl (_, v, _)) \<Rightarrow> size v | Inr (Inr (v, _)) \<Rightarrow> size v,
         \<lambda>a. case a of Inl _ \<Rightarrow> 0 | Inr (Inl _) \<Rightarrow> 1 | Inr (Inr _) \<Rightarrow> 0]")
     (auto dest!: in_set_conv_decomp [THEN iffD1])

declare r_matches.simps [simp del] r_cond.simps [simp del] r_test.simps [simp del]

lemma r_matches_Doc [simp]: "r_matches (Doc fs) d = list_all (\<lambda>(k, v). r_cond k v d) fs"
  by (subst r_matches.simps) simp

lemma r_cond_simps [simp]:
  "r_cond ''$and'' (Arr qs) d = list_all (\<lambda>q. r_matches q d) qs"
  "r_cond ''$or'' (Arr qs) d = list_ex (\<lambda>q. r_matches q d) qs"
  "k \<noteq> ''$and'' \<Longrightarrow> k \<noteq> ''$or'' \<Longrightarrow> r_cond k v d = r_test v (field k d)"
  by (subst r_cond.simps; simp)+

lemma r_test_Doc [simp]:
  "r_test (Doc [(''$not'', p)]) x = (\<not> r_test p x)"
  "r_test (Doc [(''$elemMatch'', p)]) (Some (Arr xs)) = list_ex (r_matches p) xs"
  "op' \<noteq> ''$not'' \<Longrightarrow> op' \<noteq> ''$elemMatch'' \<Longrightarrow> r_test (Doc [(op', p)]) x = r_compare op' p x"
  by (subst r_test.simps; simp)+

lemma r_test_equal [simp]: "\<not> is_doc v \<Longrightarrow> r_test v x = r_equal v x"
  by (subst r_test.simps) (cases v; simp)

lemma r_equal_simps [simp]:
  "r_equal v None = (v = Null)"
  "r_equal v (Some Null) = (v = Null)"
  "r_equal v (Some (Arr vs)) = (v \<in> set vs)"
  "scalar y \<Longrightarrow> r_equal v (Some y) = (y = v)"
  by (auto, (cases y; auto)+)

declare r_equal.simps [simp del]

lemma scalar_cases: "scalar v \<Longrightarrow> \<not> is_doc v \<and> v \<noteq> Null \<and> (\<forall>vs. v \<noteq> Arr vs)"
  by (cases v) auto

lemma field_nameD: "field_name k \<Longrightarrow> k \<noteq> ''$and'' \<and> k \<noteq> ''$or'' \<and> CHR ''.'' \<notin> set k"
  by (auto simp: field_name_def)

section \<open>Updates and projections\<close>

text \<open>The condition a filter puts on the elements of an array field.\<close>

definition r_element_filter :: "bson \<Rightarrow> string \<Rightarrow> bson" where
  "r_element_filter f a = (case field a f of
     Some (Doc [(op', q)]) \<Rightarrow> if op' = ''$elemMatch'' then q else Null | _ \<Rightarrow> Null)"

definition r_set :: "bson \<Rightarrow> string \<Rightarrow> bson \<Rightarrow> bson \<Rightarrow> bson" where
  "r_set f k v d =
     (if CHR ''.'' \<notin> set k then doc_set k v d
      else let a = takeWhile (\<lambda>c. c \<noteq> CHR ''.'') k;
               b = drop (length a + 3) k
           in (case field a d of
                 Some (Arr xs) \<Rightarrow>
                   doc_set a (Arr (update_first (r_matches (r_element_filter f a)) (doc_set b v) xs)) d
               | _ \<Rightarrow> d))"

definition r_push :: "string \<Rightarrow> bson \<Rightarrow> bson \<Rightarrow> bson" where
  "r_push a v d = (case field a d of Some (Arr xs) \<Rightarrow> doc_set a (Arr (xs @ [v])) d | _ \<Rightarrow> d)"

definition r_apply :: "bson \<Rightarrow> bson \<Rightarrow> bson \<Rightarrow> bson" where
  "r_apply f u d = (case u of
     Doc [(op', Doc [(k, v)])] \<Rightarrow>
       if op' = ''$set'' then r_set f k v d else if op' = ''$push'' then r_push k v d else d
   | _ \<Rightarrow> d)"

definition r_projected :: "(string \<times> bson) list \<Rightarrow> bson \<Rightarrow> string \<Rightarrow> bson \<Rightarrow> bson" where
  "r_projected ps f k v =
     (if (k @ ''.$'', Int32 1) \<in> set ps then
        (case v of Arr xs \<Rightarrow>
           (case find (r_matches (r_element_filter f k)) xs of Some x \<Rightarrow> Arr [x] | None \<Rightarrow> Arr [])
         | _ \<Rightarrow> v)
      else v)"

definition r_project :: "bson \<Rightarrow> bson \<Rightarrow> bson \<Rightarrow> bson" where
  "r_project p f d = (case p of Doc ps \<Rightarrow> (case d of Doc fs \<Rightarrow>
       Doc (map (\<lambda>(k, v). (k, r_projected ps f k v))
         (filter (\<lambda>(k, v). k = ''_id'' \<or> (k, Int32 1) \<in> set ps \<or> (k @ ''.$'', Int32 1) \<in> set ps) fs))
     | _ \<Rightarrow> d) | _ \<Rightarrow> d)"

lemma map_of_filter_key: "map_of (filter (\<lambda>(k, v). P k) fs) k = (if P k then map_of fs k else None)"
  by (induction fs) auto

lemma map_of_map_key: "map_of (map (\<lambda>(k, v). (k, g k v)) fs) k = map_option (g k) (map_of fs k)"
  by (induction fs) auto

section \<open>The server\<close>

record ref_world =
  w_docs :: "string \<Rightarrow> bson list"
  w_indexes :: "string \<Rightarrow> index_model list"
  w_next :: nat

definition empty_world :: ref_world where
  "empty_world = \<lparr>w_docs = (\<lambda>_. []), w_indexes = (\<lambda>_. []), w_next = 0\<rparr>"

definition with_docs :: "string \<Rightarrow> bson list \<Rightarrow> ref_world \<Rightarrow> ref_world" where
  "with_docs c ds w = w\<lparr>w_docs := (w_docs w)(c := ds)\<rparr>"

definition r_update_one :: "string \<Rightarrow> bson \<Rightarrow> bson \<Rightarrow> ref_world \<Rightarrow>
    (mongo_error, update_result) result \<times> ref_world" where
  "r_update_one c f u w = (case List.extract (r_matches f) (w_docs w c) of
     None \<Rightarrow> (Ok \<lparr>matched_count = 0, modified_count = 0\<rparr>, w)
   | Some (xs, d, ys) \<Rightarrow>
       (Ok \<lparr>matched_count = 1, modified_count = (if r_apply f u d = d then 0 else 1)\<rparr>,
        with_docs c (xs @ r_apply f u d # ys) w))"

definition r_update_many :: "string \<Rightarrow> bson \<Rightarrow> bson \<Rightarrow> ref_world \<Rightarrow>
    (mongo_error, update_result) result \<times> ref_world" where
  "r_update_many c f u w =
     (let ds = w_docs w c; hits = filter (r_matches f) ds
      in (Ok \<lparr>matched_count = length hits,
              modified_count = length (filter (\<lambda>d. r_apply f u d \<noteq> d) hits)\<rparr>,
          with_docs c (map (\<lambda>d. if r_matches f d then r_apply f u d else d) ds) w))"

definition r_insert_one :: "string \<Rightarrow> (string \<times> bson) list \<Rightarrow> ref_world \<Rightarrow>
    (mongo_error, bson) result \<times> ref_world" where
  "r_insert_one c fs w =
     (let ds = w_docs w c; i = ObjectId (of_nat (w_next w))
      in if duplicate_key (w_indexes w c) ds (Doc fs) then (Err (Write (WriteError 11000)), w)
         else if \<exists>d \<in> set ds. field ''_id'' d = Some (Oid i) then (Err OtherKind, w)
         else (Ok (Oid i), (with_docs c (ds @ [Doc ((''_id'', Oid i) # fs)]) w)\<lparr>w_next := Suc (w_next w)\<rparr>))"

definition r_find_one :: "string \<Rightarrow> bson \<Rightarrow> bson option \<Rightarrow> ref_world \<Rightarrow>
    (mongo_error, bson option) result \<times> ref_world" where
  "r_find_one c f p w =
     (Ok (map_option (\<lambda>d. case p of None \<Rightarrow> d | Some p' \<Rightarrow> r_project p' f d)
       (find (r_matches f) (w_docs w c))), w)"

definition r_sort :: "(string \<times> i32) option \<Rightarrow> bson list \<Rightarrow> bson list" where
  "r_sort s ds = (case s of None \<Rightarrow> ds
   | Some (k, dir) \<Rightarrow> if dir = 1 then sort_key (date_at k) ds else sort_key (\<lambda>d. - date_at k d) ds)"

definition r_find_many :: "string \<Rightarrow> bson \<Rightarrow> find_options \<Rightarrow> ref_world \<Rightarrow>
    (mongo_error, bson list) result \<times> ref_world" where
  "r_find_many c f opts w =
     (Ok (map (r_project (projection opts) f)
       (page opts (r_sort (sort_by opts) (filter (r_matches f) (w_docs w c))))), w)"

definition r_create_index :: "string \<Rightarrow> index_model \<Rightarrow> ref_world \<Rightarrow>
    (mongo_error, unit) result \<times> ref_world" where
  "r_create_index c ix w = (Ok (), w\<lparr>w_indexes := (w_indexes w)(c := w_indexes w c @ [ix])\<rparr>)"

definition ref_server :: "ref_world mongo" where
  "ref_server =
    \<lparr> docs = (\<lambda>c w. w_docs w c), indexes = (\<lambda>c w. w_indexes w c),
      matches = r_matches, cond = r_cond, test = r_test,
      apply_update = r_apply, project = r_project,
      create_collection = (\<lambda>c w. (Ok (), w)),
      list_index_names = (\<lambda>c w. (Ok (map index_name (w_indexes w c)), w)),
      create_index = r_create_index, insert_one = r_insert_one,
      update_one = r_update_one, update_many = r_update_many,
      find_one = r_find_one, find_many = r_find_many \<rparr>"

lemma ref_server_simps [simp]:
  "docs ref_server c w = w_docs w c" "indexes ref_server c w = w_indexes w c"
  "matches ref_server = r_matches" "cond ref_server = r_cond" "test ref_server = r_test"
  "apply_update ref_server = r_apply" "project ref_server = r_project"
  "create_collection ref_server c w = (Ok (), w)"
  "list_index_names ref_server c w = (Ok (map index_name (w_indexes w c)), w)"
  "create_index ref_server = r_create_index" "insert_one ref_server = r_insert_one"
  "update_one ref_server = r_update_one" "update_many ref_server = r_update_many"
  "find_one ref_server = r_find_one" "find_many ref_server = r_find_many"
  by (simp_all add: ref_server_def)

section \<open>The documented behaviour holds of this server\<close>

interpretation ref_queries: mongo_queries ref_server
  by unfold_locales (auto dest: field_nameD scalar_cases)

lemma take_path: "CHR ''.'' \<notin> set a \<Longrightarrow> takeWhile (\<lambda>c. c \<noteq> CHR ''.'') (a @ ''.$.'' @ b) = a"
  by (subst takeWhile_append2) auto

lemma r_apply_positional:
  assumes a: "field_name a" and b: "field_name b" and q: "map_of qs a = Some (Doc [(''$elemMatch'', q)])"
    and xs: "map_of fs a = Some (Arr xs)"
  shows "r_apply (Doc qs) (Doc [(''$set'', Doc [(a @ ''.$.'' @ b, v)])]) (Doc fs) =
        Doc (set_field a (Arr (update_first (r_matches q) (doc_set b v) xs)) fs)"
proof -
  have "takeWhile (\<lambda>c. c \<noteq> CHR ''.'') (a @ ''.$.'' @ b) = a"
    by (rule take_path) (use field_nameD [OF a] in simp)
  then show ?thesis using q xs
    by (simp add: r_apply_def r_set_def r_element_filter_def Let_def)
qed

lemma r_project_lookup: "field k (r_project (Doc ps) f (Doc fs)) =
   (if k = ''_id'' \<or> (k, Int32 1) \<in> set ps \<or> (k @ ''.$'', Int32 1) \<in> set ps
    then map_option (r_projected ps f k) (map_of fs k) else None)"
  by (simp add: r_project_def map_of_map_key map_of_filter_key)

interpretation ref_updates: mongo_updates ref_server
proof (unfold_locales, goal_cases)
  case (1 k f v fs)
  then show ?case by (auto dest!: field_nameD simp: r_apply_def r_set_def)
next
  case 2
  then show ?case unfolding ref_server_simps by (intro r_apply_positional)
next
  case 3
  then show ?case by (simp add: r_apply_def r_push_def)
next
  case 4
  then show ?case by (simp add: r_project_lookup r_projected_def option.map_ident cong: option.map_cong)
next
  case 5
  then show ?case by (simp add: r_project_lookup r_projected_def r_element_filter_def)
next
  case 6
  then show ?case by (simp add: r_project_lookup)
qed

lemma r_insert_cases:
  assumes "r_insert_one c fs w = (r, w')"
  shows "(duplicate_key (w_indexes w c) (w_docs w c) (Doc fs) \<and> r = Err (Write (WriteError 11000)) \<and> w' = w) \<or>
    (\<not> duplicate_key (w_indexes w c) (w_docs w c) (Doc fs) \<and> r = Err OtherKind \<and> w' = w) \<or>
    (\<not> duplicate_key (w_indexes w c) (w_docs w c) (Doc fs) \<and>
      (\<exists>i. r = Ok (Oid i) \<and> inserted i fs (w_docs w c) (w_docs w' c)))"
  using assms by (auto simp: r_insert_one_def Let_def inserted_def with_docs_def split: if_splits)

lemma r_insert_frame:
  "c' \<noteq> c \<Longrightarrow> w_docs (snd (r_insert_one c fs w)) c' = w_docs w c'"
  "w_indexes (snd (r_insert_one c fs w)) = w_indexes w"
  by (simp_all add: r_insert_one_def Let_def with_docs_def)

lemma r_update_one_cases:
  assumes "r_update_one c f u w = (r, w')"
  shows "(\<not> list_ex (r_matches f) (w_docs w c) \<and> w' = w \<and> r = Ok \<lparr>matched_count = 0, modified_count = 0\<rparr>) \<or>
     (\<exists>xs d ys. w_docs w c = xs @ d # ys \<and> r_matches f d \<and> w' = with_docs c (xs @ r_apply f u d # ys) w \<and>
       r = Ok \<lparr>matched_count = 1, modified_count = (if r_apply f u d = d then 0 else 1)\<rparr>)"
proof (cases "List.extract (r_matches f) (w_docs w c)")
  case None
  with assms show ?thesis by (auto simp: r_update_one_def extract_None_iff list_ex_iff)
next
  case (Some t)
  then obtain xs d ys where t: "List.extract (r_matches f) (w_docs w c) = Some (xs, d, ys)"
    by (cases t) auto
  from extract_SomeE [OF t] have "w_docs w c = xs @ d # ys" and "r_matches f d" by auto
  with assms t show ?thesis
    by (intro disjI2 exI [of _ xs] exI [of _ d] exI [of _ ys]) (simp add: r_update_one_def)
qed

lemma r_sort_props: "mset (r_sort s ds) = mset ds" "sorted_wrt (in_order s) (r_sort s ds)"
proof -
  show "mset (r_sort s ds) = mset ds"
    by (auto simp: r_sort_def split: option.splits)
  show "sorted_wrt (in_order s) (r_sort s ds)"
  proof (cases s)
    case None
    then show ?thesis by (simp add: r_sort_def sorted_wrt_iff_nth_less)
  next
    case (Some p)
    obtain k dir where p: "p = (k, dir)" by (cases p)
    have "sorted (map (date_at k) (sort_key (date_at k) ds))"
      and "sorted (map (\<lambda>d. - date_at k d) (sort_key (\<lambda>d. - date_at k d) ds))"
      by (rule sorted_sort_key)+
    moreover have "in_order (Some (k, dir)) =
        (if dir = 1 then (\<lambda>d e. date_at k d \<le> date_at k e) else (\<lambda>d e. date_at k e \<le> date_at k d))"
      by (simp add: fun_eq_iff)
    ultimately show ?thesis using Some p
      by (auto simp: r_sort_def sorted_wrt_map)
  qed
qed

interpretation ref: mongo_server ref_server
proof (unfold_locales, goal_cases)
  case (1 c f u w r w')
  from r_update_one_cases [OF this [unfolded ref_server_simps]] show ?case
    unfolding ref_server_simps by (elim disjE exE conjE) (simp_all add: with_docs_def, blast)
next
  case 2
  then show ?case by (auto simp: r_update_many_def Let_def with_docs_def)
next
  case 3
  then show ?case by (auto dest!: r_update_one_cases)
next
  case 4
  then show ?case by (auto simp: r_update_many_def Let_def)
next
  case 5
  then show ?case by (auto dest!: r_insert_cases)
next
  case 6
  then show ?case by (auto dest!: r_insert_cases)
next
  case 7
  then show ?case by (auto dest!: r_insert_cases)
next
  case 8
  then show ?case by (auto simp: r_find_one_def find_None_iff list_ex_iff)
next
  case (9 c f p w d' w')
  then show ?case by (cases p) (auto simp: r_find_one_def dest: find_SomeD)
next
  case 10
  then show ?case by (simp add: r_find_one_def)
next
  case (11 c f opts w ds w')
  then show ?case
    by (intro exI [of _ "r_sort (sort_by opts) (filter (r_matches f) (w_docs w c))"])
       (auto simp: r_find_many_def r_sort_props)
next
  case 12
  then show ?case by (simp add: r_find_many_def)
next
  case 13
  then show ?case by (simp add: r_update_one_def with_docs_def split: option.splits prod.splits)
next
  case 14
  then show ?case by (simp add: r_update_many_def Let_def with_docs_def)
next
  case 15
  then show ?case by (simp add: r_insert_frame)
qed (auto simp: r_update_one_def r_update_many_def r_insert_frame r_find_one_def r_find_many_def
  r_create_index_def with_docs_def Let_def split: option.splits prod.splits)


end
