(* ===== verification/Notifications_Refinement.thy ===== *)
theory Notifications_Refinement
  imports Notifications_Contract Notifications_Encoding Mongo_Reference
begin

text \<open>
  \<open>NotificationsRepositoryImpl\<close> refines the abstract store: on every server with the documented
  behaviour (\<open>mongo_server\<close>), with \<open>stored\<close> as the abstraction relation, it keeps the contract
  \<open>notifications_repository\<close>; and its constructor leaves the collection with the index the
  contract relies on.
\<close>

section \<open>What a database stores\<close>

definition producer_index_only :: "index_model list \<Rightarrow> bool" where
  "producer_index_only ixs \<longleftrightarrow> list_all (\<lambda>ix.
     (unique ix \<longrightarrow> index_keys ix = index_keys unique_producer_notification_index) \<and>
     (index_name ix = INDEX_NAME_UNIQUE_PRODUCER_NOTIFICATION \<longrightarrow> ix = unique_producer_notification_index)) ixs"

definition stored :: "'w mongo \<Rightarrow> 'w \<Rightarrow> notification list \<Rightarrow> bool" where
  "stored m w ns \<longleftrightarrow> docs m NOTIFICATIONS w = map encode ns \<and> well_formed ns \<and>
     unique_producer_notification_index \<in> set (indexes m NOTIFICATIONS w) \<and>
     producer_index_only (indexes m NOTIFICATIONS w)"

lemma encode_inj: "encode n = encode n' \<longleftrightarrow> n = n'"
proof -
  have conf: "inj encode_confirmation"
    by (auto simp: inj_def encode_confirmation_def intro: confirmation.equality)
  have date: "opt_date a = opt_date b \<longleftrightarrow> a = b" for a b
    by (auto simp: opt_date_def split: option.splits)
  have uuids: "map UuidBin a = map UuidBin b \<longleftrightarrow> a = b" for a b
    by (simp add: inj_map_eq_map inj_def)
  show ?thesis
    by (auto simp: encode_def encode_fields_def date uuids inj_map_eq_map [OF conf] intro: notification.equality)
qed

lemma stored_unique: "stored m w ns \<Longrightarrow> stored m w ns' \<Longrightarrow> ns = ns'"
  by (auto simp: stored_def inj_map_eq_map inj_def encode_inj)

lemma new_notification_keys [simp]:
  "n_id (new_notification X i us c ia p pn ct content) = i"
  "producer_key (new_notification X i us c ia p pn ct content) = (p, pn)"
  "well_formed_notification (new_notification X i us c ia p pn ct content)"
  by (simp_all add: new_notification_def producer_key_def well_formed_notification_def)

lemma well_formed_insert:
  "well_formed ns \<Longrightarrow> fresh n ns \<Longrightarrow> well_formed_notification n \<Longrightarrow> well_formed (ns @ [n])"
  by (auto simp: well_formed_def fresh_def)

lemma delete_changes:
  assumes "well_formed_notification n"
  shows "confirmed u n \<and> mark_deleted u n \<noteq> n \<longleftrightarrow> confirmed_some u n"
proof (cases "confirmed u n")
  case False
  then show ?thesis
    by (auto simp: confirmed_def confirmed_some_def delivered_conf_def find_None_iff conf_filter_def list_ex_iff)
next
  case True
  then obtain xs c ys where cs: "n_confirmations n = xs @ c # ys" and c: "c_user_id c = u"
    by (auto simp: confirmed_def list_ex_iff in_set_conv_decomp)
  have "u \<notin> c_user_id ` set xs" and "u \<notin> c_user_id ` set ys"
    using assms cs c by (auto simp: well_formed_notification_def)
  then have xs: "\<forall>x \<in> set xs. c_user_id x \<noteq> u" and ys: "\<forall>x \<in> set ys. c_user_id x \<noteq> u"
    by auto
  have del: "mark_deleted u n = n\<lparr>n_confirmations := xs @ c\<lparr>c_deleted := True\<rparr> # ys\<rparr>"
    using xs c by (simp add: mark_deleted_def cs update_first_split)
  have "mark_deleted u n \<noteq> n \<longleftrightarrow> \<not> c_deleted c"
  proof
    show "\<not> c_deleted c \<Longrightarrow> mark_deleted u n \<noteq> n"
      using del cs by (metis append_same_eq confirmation.select_convs(4) confirmation.surjective
        confirmation.update_convs(4) list.inject notification.select_convs(9) notification.surjective
        notification.update_convs(9) same_append_eq)
    show "mark_deleted u n \<noteq> n \<Longrightarrow> \<not> c_deleted c"
      using del cs by auto
  qed
  moreover have "confirmed_some u n \<longleftrightarrow> \<not> c_deleted c"
    using cs xs ys c by (auto simp: confirmed_some_def delivered_conf_def find_None_iff conf_filter_def)
  ultimately show ?thesis using True by simp
qed

section \<open>The implementation keeps the contract\<close>

lemma partly_updated_encode:
  assumes "partly_updated m f u (map encode ns) ds"
    and mt: "\<And>n. matches m f (encode n) \<longleftrightarrow> p n"
    and ap: "\<And>n. p n \<Longrightarrow> apply_update m f u (encode n) = encode (g n)"
  shows "\<exists>ns'. ds = map encode ns' \<and> list_all2 (\<lambda>n n'. n' = n \<or> p n \<and> n' = g n) ns ns'"
  using assms(1) unfolding partly_updated_def
proof (induction ns arbitrary: ds)
  case Nil
  then show ?case by simp
next
  case (Cons n ns)
  then obtain d ds' where ds: "ds = d # ds'" and d: "d = encode n \<or> p n \<and> d = encode (g n)"
    and "list_all2 (\<lambda>d d'. d' = d \<or> matches m f d \<and> d' = apply_update m f u d) (map encode ns) ds'"
    by (auto simp: list_all2_Cons1 mt ap)
  from Cons.IH [OF this(3)] obtain ns' where "ds' = map encode ns'"
    and "list_all2 (\<lambda>n n'. n' = n \<or> p n \<and> n' = g n) ns ns'" by blast
  with ds d show ?case
    by (intro exI [of _ "(if d = encode n then n else g n) # ns'"]) auto
qed

lemma partly_updated_sublist:
  assumes "list_all2 (\<lambda>n n'. n' = n \<or> (n_id n \<in> A \<and> p n) \<and> n' = g n) ns ns'"
    and "distinct (map n_id ns)"
  shows "\<exists>js. set js \<subseteq> A \<inter> n_id ` set ns \<and> ns' = update_where (\<lambda>n. n_id n \<in> set js \<and> p n) g ns"
  using assms
proof (induction ns arbitrary: ns')
  case Nil
  then show ?case by (simp add: update_where_def)
next
  case (Cons n ns)
  from Cons.prems obtain n1 ms where ns': "ns' = n1 # ms"
    and n1: "n1 = n \<or> (n_id n \<in> A \<and> p n) \<and> n1 = g n"
    and ms: "list_all2 (\<lambda>n n'. n' = n \<or> (n_id n \<in> A \<and> p n) \<and> n' = g n) ns ms"
    and d: "n_id n \<notin> n_id ` set ns" "distinct (map n_id ns)"
    by (auto simp: list_all2_Cons1)
  from Cons.IH [OF ms d(2)] obtain js where js: "set js \<subseteq> A \<inter> n_id ` set ns"
    and ms': "ms = update_where (\<lambda>n. n_id n \<in> set js \<and> p n) g ns" by blast
  have nin: "n_id n \<notin> set js" using js d(1) by auto
  show ?case
  proof (cases "n1 = n")
    case True
    with js ms' nin show ?thesis
      by (intro exI [of _ js]) (auto simp: ns' update_where_def)
  next
    case False
    have ne: "n_id m \<noteq> n_id n" if "m \<in> set ns" for m
      using that d(1) by (metis image_eqI)
    have "map (\<lambda>m. if n_id m \<in> set js \<and> p m then g m else m) ns =
        map (\<lambda>m. if (n_id m = n_id n \<or> n_id m \<in> set js) \<and> p m then g m else m) ns"
      by (rule map_cong) (simp_all add: ne)
    with False n1 js ms' show ?thesis
      by (intro exI [of _ "n_id n # js"]) (auto simp: ns' update_where_def)
  qed
qed

abbreviation delivered_query :: "uuid \<Rightarrow> notification_filters \<Rightarrow> bson" where
  "delivered_query u fs \<equiv> Doc [(''confirmations'', Doc [(''$elemMatch'', Doc (confirmation_filter u (filter_seen fs)))])]"

abbreviation delivered_options :: "pagination \<Rightarrow> find_options" where
  "delivered_options pg \<equiv> \<lparr>projection = Doc delivered_projection, sort_by = Some (''created_at'', -1),
    skip = page_skip pg, limit = ucast (page_size pg)\<rparr>"

context mongo_server
begin

lemma update_one_stored_Ok:
  assumes st: "stored m w ns"
    and mt: "\<And>n. matches m f (encode n) \<longleftrightarrow> n_id n = i \<and> p n"
    and ap: "\<And>n. p n \<Longrightarrow> apply_update m f u (encode n) = encode (g n)"
    and keys: "\<And>n. n_id (g n) = n_id n" "\<And>n. producer_key (g n) = producer_key n"
    and wf: "\<And>n. p n \<Longrightarrow> well_formed_notification n \<Longrightarrow> well_formed_notification (g n)"
    and run: "update_one m NOTIFICATIONS f u w = (Ok r, w')"
  shows "(\<not> list_ex (id_of i p) ns \<and> stored m w' ns \<and> r = \<lparr>matched_count = 0, modified_count = 0\<rparr>) \<or>
    (\<exists>n \<in> set ns. id_of i p n \<and> stored m w' (update_where (id_of i p) g ns) \<and>
       r = \<lparr>matched_count = 1, modified_count = (if g n = n then 0 else 1)\<rparr>)"
proof -
  note st' = st [unfolded stored_def]
  have ix: "indexes m NOTIFICATIONS w' = indexes m NOTIFICATIONS w"
    using write_indexes(1) [of NOTIFICATIONS NOTIFICATIONS f u w] run by simp
  have mi: "matches m f (encode n) \<longleftrightarrow> id_of i p n" for n
    by (simp add: mt id_of_def)
  from update_one_Ok [OF run] show ?thesis
  proof (elim disjE exE conjE)
    assume "\<not> list_ex (matches m f) (docs m NOTIFICATIONS w)"
      and "docs m NOTIFICATIONS w' = docs m NOTIFICATIONS w" and "r = \<lparr>matched_count = 0, modified_count = 0\<rparr>"
    with st' ix mi show ?thesis by (simp add: stored_def list_ex_iff)
  next
    fix xs d ys
    assume split: "docs m NOTIFICATIONS w = xs @ d # ys" and d: "matches m f d"
      and new: "docs m NOTIFICATIONS w' = xs @ apply_update m f u d # ys"
      and r: "r = \<lparr>matched_count = 1, modified_count = (if apply_update m f u d = d then 0 else 1)\<rparr>"
    from split st' obtain as n bs where ns: "ns = as @ n # bs" and as: "xs = map encode as"
      and n: "d = encode n" and bs: "ys = map encode bs"
      by (auto simp: map_eq_append_conv map_eq_Cons_conv)
    from d mt n have p: "n_id n = i" "p n" by simp_all
    have "update_where (id_of i p) g ns = as @ g n # bs"
      using update_where_one [of ns as n bs i p g] st' ns p by (simp add: id_of_def [abs_def])
    moreover have "well_formed (update_where (id_of i p) g ns)"
      by (rule well_formed_update_where) (use st' keys wf in \<open>auto simp: id_of_def\<close>)
    ultimately have "stored m w' (update_where (id_of i p) g ns)"
      using st' ix new as bs n ap [OF p(2)] by (simp add: stored_def)
    with p ns r n ap [OF p(2)] show ?thesis
      by (intro disjI2 bexI [of _ n]) (auto simp: id_of_def encode_inj)
  qed
qed

lemma partly_updated_stored:
  assumes st: "stored m w ns"
    and mt: "\<And>n. matches m f (encode n) \<longleftrightarrow> n_id n \<in> A \<and> p n"
    and ap: "\<And>n. p n \<Longrightarrow> apply_update m f u (encode n) = encode (g n)"
    and keys: "\<And>n. n_id (g n) = n_id n" "\<And>n. producer_key (g n) = producer_key n"
    and wf: "\<And>n. p n \<Longrightarrow> well_formed_notification n \<Longrightarrow> well_formed_notification (g n)"
    and ix: "indexes m NOTIFICATIONS w' = indexes m NOTIFICATIONS w"
    and part: "partly_updated m f u (docs m NOTIFICATIONS w) (docs m NOTIFICATIONS w')"
  shows "\<exists>js. set js \<subseteq> A \<inter> n_id ` set ns \<and> stored m w' (update_where (\<lambda>n. n_id n \<in> set js \<and> p n) g ns)"
proof -
  note st' = st [unfolded stored_def]
  from st' part have "partly_updated m f u (map encode ns) (docs m NOTIFICATIONS w')" by simp
  then have "\<exists>ns'. docs m NOTIFICATIONS w' = map encode ns' \<and>
      list_all2 (\<lambda>n n'. n' = n \<or> (n_id n \<in> A \<and> p n) \<and> n' = g n) ns ns'"
    by (rule partly_updated_encode) (simp_all add: mt ap)
  then obtain ns' where "docs m NOTIFICATIONS w' = map encode ns'"
    and "list_all2 (\<lambda>n n'. n' = n \<or> (n_id n \<in> A \<and> p n) \<and> n' = g n) ns ns'" by blast
  moreover from this(2) st' obtain js where js: "set js \<subseteq> A \<inter> n_id ` set ns"
    and "ns' = update_where (\<lambda>n. n_id n \<in> set js \<and> p n) g ns"
    using partly_updated_sublist [of A p g ns ns'] by (auto simp: well_formed_def)
  moreover have "well_formed (update_where (\<lambda>n. n_id n \<in> set js \<and> p n) g ns)"
    by (rule well_formed_update_where) (use st' keys wf in auto)
  ultimately have "stored m w' (update_where (\<lambda>n. n_id n \<in> set js \<and> p n) g ns)"
    using st' ix by (simp add: stored_def)
  with js show ?thesis by blast
qed

lemma update_one_stored_Err:
  assumes st: "stored m w ns"
    and mt: "\<And>n. matches m f (encode n) \<longleftrightarrow> n_id n = i \<and> p n"
    and ap: "\<And>n. p n \<Longrightarrow> apply_update m f u (encode n) = encode (g n)"
    and keys: "\<And>n. n_id (g n) = n_id n" "\<And>n. producer_key (g n) = producer_key n"
    and wf: "\<And>n. p n \<Longrightarrow> well_formed_notification n \<Longrightarrow> well_formed_notification (g n)"
    and run: "update_one m NOTIFICATIONS f u w = (Err e, w')"
  shows "stored m w' ns \<or> stored m w' (update_where (id_of i p) g ns)"
proof -
  have ix: "indexes m NOTIFICATIONS w' = indexes m NOTIFICATIONS w"
    using write_indexes(1) [of NOTIFICATIONS NOTIFICATIONS f u w] run by simp
  have "\<exists>js. set js \<subseteq> {i} \<inter> n_id ` set ns \<and> stored m w' (update_where (\<lambda>n. n_id n \<in> set js \<and> p n) g ns)"
    by (rule partly_updated_stored [OF st _ ap keys wf ix update_one_Err [OF run]]) (simp_all add: mt)
  then obtain js where "set js \<subseteq> {i}"
    and js: "stored m w' (update_where (\<lambda>n. n_id n \<in> set js \<and> p n) g ns)" by blast
  from subset_singletonD [OF this(1)] show ?thesis
  proof
    assume "set js = {}"
    with js show ?thesis by (simp add: update_where_idle)
  next
    assume "set js = {i}"
    with js show ?thesis by (simp add: id_of_def [abs_def])
  qed
qed

lemma updated_outcome:
  assumes st: "stored m w ns"
    and run: "updated_if q (update_one m NOTIFICATIONS f u w) = (res, w')"
    and mt: "\<And>n. matches m f (encode n) \<longleftrightarrow> n_id n = i \<and> p n"
    and ap: "\<And>n. p n \<Longrightarrow> apply_update m f u (encode n) = encode (g n)"
    and keys: "\<And>n. n_id (g n) = n_id n" "\<And>n. producer_key (g n) = producer_key n"
    and wf: "\<And>n. p n \<Longrightarrow> well_formed_notification n \<Longrightarrow> well_formed_notification (g n)"
    and q0: "\<not> q \<lparr>matched_count = 0, modified_count = 0\<rparr>"
    and q1: "\<And>n. well_formed_notification n \<Longrightarrow>
      p' n \<longleftrightarrow> p n \<and> q \<lparr>matched_count = 1, modified_count = (if g n = n then 0 else 1)\<rparr>"
    and q2: "q \<lparr>matched_count = 1, modified_count = 1\<rparr>"
  shows "update_outcome (stored m) (id_of i p') g ns res w'"
proof -
  have wfn: "well_formed_notification n" if "n \<in> set ns" for n
    using st that by (auto simp: stored_def dest: well_formedD(3))
  have same: "update_where (id_of i p') g ns = update_where (id_of i p) g ns"
    unfolding update_where_def using q1 [OF wfn] q2 by (auto simp: id_of_def)
  show ?thesis
  proof (cases "update_one m NOTIFICATIONS f u w")
    case (Pair r w1)
    show ?thesis
    proof (cases r)
      case (Inl e)
      then have "stored m w1 ns \<or> stored m w1 (update_where (id_of i p) g ns)"
        using update_one_stored_Err [OF st mt ap keys wf] Pair by simp
      with run Pair Inl show ?thesis
        by (auto simp: updated_if_def update_outcome_def same)
    next
      case (Inr c)
      have "update_one m NOTIFICATIONS f u w = (Ok c, w1)" using Pair Inr by simp
      from update_one_stored_Ok [OF st mt ap keys wf this]
      consider (no) "\<not> list_ex (id_of i p) ns" "stored m w1 ns" "c = \<lparr>matched_count = 0, modified_count = 0\<rparr>"
        | (one) n where "n \<in> set ns" "id_of i p n" "stored m w1 (update_where (id_of i p) g ns)"
          "c = \<lparr>matched_count = 1, modified_count = (if g n = n then 0 else 1)\<rparr>" by blast
      then show ?thesis
      proof cases
        case no
        then have "\<not> list_ex (id_of i p') ns"
          using q1 [OF wfn] by (auto simp: id_of_def list_ex_iff)
        with no run Pair Inr q0 show ?thesis
          by (auto simp: updated_if_def update_outcome_def)
      next
        case one
        then have pn: "id_of i p' n \<longleftrightarrow> q c"
          using q1 [OF wfn [OF one(1)]] by (simp add: id_of_def)
        show ?thesis
        proof (cases "q c")
          case True
          with pn one run Pair Inr show ?thesis
            by (auto simp: updated_if_def update_outcome_def same list_ex_iff)
        next
          case False
          with one q2 have idle: "g n = n" by (auto split: if_splits)
          have uniq: "n' = n" if "n' \<in> set ns" "n_id n' = i" for n'
            using that one(1,2) st by (auto simp: id_of_def stored_def well_formed_def distinct_map inj_on_def)
          then have "update_where (id_of i p) g ns = ns"
            by (intro update_where_idle) (use idle in \<open>auto simp: id_of_def\<close>)
          moreover have "\<not> list_ex (id_of i p') ns"
            using uniq pn False by (auto simp: list_ex_iff id_of_def)
          ultimately show ?thesis
            using one False run Pair Inr by (auto simp: updated_if_def update_outcome_def)
        qed
      qed
    qed
  qed
qed

lemma inserted_stored:
  assumes st: "stored m w ns"
    and fs: "fs = insert_entity_fields \<lparr> ie_created_at = dt_from X c,
        ie_invalidate_at = map_option (dt_from X) ia, ie_user_ids = us, ie_producer_id = p,
        ie_producer_notification_id = pn, ie_content_type = ct, ie_content = content \<rparr>"
    and ins: "inserted i fs (docs m NOTIFICATIONS w) (docs m NOTIFICATIONS w')"
    and nd: "\<not> duplicate_key (indexes m NOTIFICATIONS w) (docs m NOTIFICATIONS w) (Doc fs)"
    and ix: "indexes m NOTIFICATIONS w' = indexes m NOTIFICATIONS w"
  shows "fresh (new_notification X i us c ia p pn ct content) ns \<and>
    stored m w' (ns @ [new_notification X i us c ia p pn ct content])"
proof -
  let ?n = "new_notification X i us c ia p pn ct content"
  note st' = st [unfolded stored_def]
  have doc: "Doc ((''_id'', Oid i) # fs) = encode ?n"
    by (simp add: encode_def encode_fields_def fs insert_entity_fields_def new_notification_def)
  from ins st' have ids: "n_id n \<noteq> i" if "n \<in> set ns" for n
    using that by (auto simp: inserted_def)
  from nd st' have "\<not> list_ex (\<lambda>e. same_key (index_keys unique_producer_notification_index) (Doc fs) e)
      (map encode ns)"
    by (auto simp: duplicate_key_def list_ex_iff unique_producer_notification_index_def)
  then have keys: "producer_key n \<noteq> (p, pn)" if "n \<in> set ns" for n
    using that by (auto simp: list_ex_iff same_key_def unique_producer_notification_index_def
        fs insert_entity_fields_def producer_key_def)
  have fresh: "fresh ?n ns" using ids keys by (force simp: fresh_def)
  moreover have "well_formed (ns @ [?n])" using st' fresh by (simp add: well_formed_insert)
  ultimately show ?thesis using st' ins doc ix by (simp add: stored_def inserted_def)
qed

lemma duplicate_stored:
  assumes st: "stored m w ns"
    and d: "duplicate_key (indexes m NOTIFICATIONS w) (docs m NOTIFICATIONS w)
      (Doc (insert_entity_fields e))"
  shows "(ie_producer_id e, ie_producer_notification_id e) \<in> producer_key ` set ns"
proof -
  from d st obtain n ix where "n \<in> set ns" and "unique ix" "ix \<in> set (indexes m NOTIFICATIONS w)"
    and same: "same_key (index_keys ix) (Doc (insert_entity_fields e)) (encode n)"
    by (auto simp: duplicate_key_def list_ex_iff stored_def)
  moreover from this st have "index_keys ix = index_keys unique_producer_notification_index"
    by (auto simp: stored_def producer_index_only_def list_all_iff)
  ultimately have "producer_key n = (ie_producer_id e, ie_producer_notification_id e)"
    by (auto simp: same_key_def unique_producer_notification_index_def insert_entity_fields_def producer_key_def)
  with \<open>n \<in> set ns\<close> show ?thesis by force
qed

lemma insert_error_simps [simp]:
  "insert_error e = InsertUniqueViolation \<longleftrightarrow> e = Write (WriteError 11000)"
  "insert_error e \<noteq> NoDocumentUpdated"
  by (cases e rule: insert_error.cases; auto)+

lemma impl_insert_Ok:
  assumes "stored m w ns" and "repo_insert X m us c ia p pn ct content w = (Ok ins, w')"
  shows "\<exists>i. ins = \<lparr>ins_id = i, ins_created_at = c, ins_invalidate_at = ia, ins_user_ids = us,
          ins_producer_id = p, ins_producer_notification_id = pn, ins_content_type = ct,
          ins_content = content\<rparr> \<and>
        fresh (new_notification X i us c ia p pn ct content) ns \<and>
        stored m w' (ns @ [new_notification X i us c ia p pn ct content])"
proof -
  let ?fs = "insert_entity_fields \<lparr> ie_created_at = dt_from X c,
        ie_invalidate_at = map_option (dt_from X) ia, ie_user_ids = us, ie_producer_id = p,
        ie_producer_notification_id = pn, ie_content_type = ct, ie_content = content \<rparr>"
  from assms(2) obtain v where v: "insert_one m NOTIFICATIONS ?fs w = (Ok v, w')"
    by (auto simp: repo_insert_def Let_def split: prod.splits sum.splits bson.splits)
  from insert_Ok [OF this] obtain i where i: "v = Oid i"
    and ins: "inserted i ?fs (docs m NOTIFICATIONS w) (docs m NOTIFICATIONS w')"
    and nd: "\<not> duplicate_key (indexes m NOTIFICATIONS w) (docs m NOTIFICATIONS w) (Doc ?fs)" by blast
  have ix: "indexes m NOTIFICATIONS w' = indexes m NOTIFICATIONS w"
    using write_indexes(3) [of NOTIFICATIONS NOTIFICATIONS ?fs w] v by simp
  from inserted_stored [OF assms(1) refl ins nd ix] assms(2) v i show ?thesis
    by (auto simp: repo_insert_def)
qed

lemma impl_insert_Err:
  assumes st: "stored m w ns" and run: "repo_insert X m us c ia p pn ct content w = (Err e, w')"
  shows "e \<noteq> NoDocumentUpdated \<and>
      (stored m w' ns \<or> (\<exists>i. fresh (new_notification X i us c ia p pn ct content) ns \<and>
        stored m w' (ns @ [new_notification X i us c ia p pn ct content])))"
    and "e = InsertUniqueViolation \<Longrightarrow> (p, pn) \<in> producer_key ` set ns \<and> stored m w' ns"
proof -
  let ?e = "\<lparr> ie_created_at = dt_from X c,
        ie_invalidate_at = map_option (dt_from X) ia, ie_user_ids = us, ie_producer_id = p,
        ie_producer_notification_id = pn, ie_content_type = ct, ie_content = content \<rparr>"
  let ?fs = "insert_entity_fields ?e"
  have "\<exists>err. insert_one m NOTIFICATIONS ?fs w = (Err err, w') \<and> e = insert_error err"
  proof (cases "insert_one m NOTIFICATIONS ?fs w")
    case (Pair rr w1)
    then show ?thesis
      using run insert_Ok [of NOTIFICATIONS ?fs w _ w1]
      by (cases rr) (auto simp: repo_insert_def Let_def)
  qed
  then obtain err where err: "insert_one m NOTIFICATIONS ?fs w = (Err err, w')" and e: "e = insert_error err"
    by blast
  have ix: "indexes m NOTIFICATIONS w' = indexes m NOTIFICATIONS w"
    using write_indexes(3) [of NOTIFICATIONS NOTIFICATIONS ?fs w] err by simp
  have same: "stored m w' ns" if "docs m NOTIFICATIONS w' = docs m NOTIFICATIONS w"
    using that st ix by (simp add: stored_def)
  from insert_Err [OF err] same inserted_stored [OF st refl _ _ ix, of _ X c ia us p pn ct content]
  show "e \<noteq> NoDocumentUpdated \<and>
      (stored m w' ns \<or> (\<exists>i. fresh (new_notification X i us c ia p pn ct content) ns \<and>
        stored m w' (ns @ [new_notification X i us c ia p pn ct content])))"
    unfolding e by auto
  assume "e = InsertUniqueViolation"
  with e have "insert_error err = InsertUniqueViolation" by simp
  with err have "insert_one m NOTIFICATIONS ?fs w = (Err (Write (WriteError 11000)), w')" by simp
  from insert_duplicate [OF this] same duplicate_stored [OF st, of ?e]
  show "(p, pn) \<in> producer_key ` set ns \<and> stored m w' ns" by auto
qed

lemma impl_update_invalidate_at:
  assumes "stored m w ns" and "repo_update_invalidate_at X m i p d w = (res, w')"
  shows "update_outcome (stored m) (id_of i (\<lambda>n. n_producer_id n = p))
    (reinvalidate (map_option (dt_from X) d)) ns res w'"
  by (rule updated_outcome [OF assms(1) assms(2) [unfolded repo_update_invalidate_at_def]])
     (simp_all add: matches_filters apply_set_invalidate_at well_formed_operations)

lemma confirm_changes: "confirm u t n \<noteq> n"
proof
  assume "confirm u t n = n"
  then have "n_confirmations (confirm u t n) = n_confirmations n" by simp
  then show False by (simp add: confirm_def)
qed

lemma impl_insert_confirmation:
  assumes "stored m w ns" and "repo_insert_confirmation X m i u now w = (res, w')"
  shows "update_outcome (stored m) (id_of i (undelivered u (dt_from X now))) (confirm u (dt_from X now)) ns res w'"
  by (rule updated_outcome [OF assms(1) assms(2) [unfolded repo_insert_confirmation_def]])
     (auto simp: matches_filters apply_push_confirmation confirm_changes undelivered_def
       intro: well_formed_operations)

lemma impl_update_confirmation_seen:
  assumes "stored m w ns" and "repo_update_confirmation_seen m i u b w = (res, w')"
  shows "update_outcome (stored m) (id_of i (confirmed_some u)) (mark_seen u b) ns res w'"
  by (rule updated_outcome [OF assms(1) assms(2) [unfolded repo_update_confirmation_seen_def]])
     (simp_all add: matches_delivered apply_set_seen well_formed_operations confirmed_some_def)

lemma impl_delete:
  assumes "stored m w ns" and "repo_delete m i u w = (res, w')"
  shows "update_outcome (stored m) (id_of i (confirmed_some u)) (mark_deleted u) ns res w'"
  by (rule updated_outcome [OF assms(1) assms(2) [unfolded repo_delete_def], where p = "confirmed u"])
     (auto simp: matches_delivered apply_set_deleted well_formed_operations simp flip: delete_changes)

lemma impl_insert_many_confirmations:
  assumes st: "stored m w ns" and run: "repo_insert_many_confirmations X m is u now w = (res, w')"
  shows "res = Ok () \<Longrightarrow> stored m w' (update_where (\<lambda>n. n_id n \<in> set is \<and> undelivered u (dt_from X now) n)
        (confirm u (dt_from X now)) ns)"
    and "\<exists>js. set js \<subseteq> set is \<and>
        stored m w' (update_where (\<lambda>n. n_id n \<in> set js \<and> undelivered u (dt_from X now) n)
          (confirm u (dt_from X now)) ns)"
proof -
  let ?f = "Doc ((''_id'', Doc [(''$in'', Arr (map Oid is))]) # undelivered_conditions u (dt_from X now))"
  let ?u = "push_confirmation u (dt_from X now)"
  obtain r where r: "update_many m NOTIFICATIONS ?f ?u w = (r, w')"
    and res: "r = Err e \<Longrightarrow> res = Err (Mongo e)" "r = Ok c \<Longrightarrow> res = Ok ()" for e c
    using run by (cases "update_many m NOTIFICATIONS ?f ?u w")
      (auto simp: repo_insert_many_confirmations_def updated_if_def split: sum.splits)
  have ix: "indexes m NOTIFICATIONS w' = indexes m NOTIFICATIONS w"
    using write_indexes(2) [of NOTIFICATIONS NOTIFICATIONS ?f ?u w] r by simp
  have wf: "undelivered u (dt_from X now) n \<Longrightarrow> well_formed_notification n \<Longrightarrow>
      well_formed_notification (confirm u (dt_from X now) n)" for n
    by (auto simp: undelivered_def intro: well_formed_operations)
  let ?p = "\<lambda>n. n_id n \<in> set is \<and> undelivered u (dt_from X now) n"
  have done': "stored m w' (update_where ?p (confirm u (dt_from X now)) ns)" if "r = Ok c" for c
  proof -
    have "docs m NOTIFICATIONS w' = map encode (update_where ?p (confirm u (dt_from X now)) ns)"
      using update_many_Ok r that st
      by (auto simp: stored_def matches_filters apply_push_confirmation update_where_def)
    moreover have "well_formed (update_where ?p (confirm u (dt_from X now)) ns)"
      by (rule well_formed_update_where) (use st wf in \<open>auto simp: stored_def\<close>)
    ultimately show ?thesis using st ix by (simp add: stored_def)
  qed
  then show "res = Ok () \<Longrightarrow> stored m w' (update_where ?p (confirm u (dt_from X now)) ns)"
    using res by (cases r) auto
  show "\<exists>js. set js \<subseteq> set is \<and>
        stored m w' (update_where (\<lambda>n. n_id n \<in> set js \<and> undelivered u (dt_from X now) n)
          (confirm u (dt_from X now)) ns)"
  proof (cases r)
    case (Inl e)
    have "\<exists>js. set js \<subseteq> set is \<inter> n_id ` set ns \<and>
        stored m w' (update_where (\<lambda>n. n_id n \<in> set js \<and> undelivered u (dt_from X now) n)
          (confirm u (dt_from X now)) ns)"
      by (rule partly_updated_stored [OF st _ _ _ _ _ ix update_many_Err [OF r [unfolded Inl]]])
         (simp_all add: matches_filters apply_push_confirmation wf)
    then show ?thesis by blast
  next
    case (Inr c)
    with done' show ?thesis by blast
  qed
qed

lemma impl_find_delivered:
  assumes st: "stored m w ns" and run: "repo_find_delivered X m i u w = (Ok x, w')"
  shows "x = map_option (delivered_view X u None) (find (id_of i (confirmed_some u)) ns)"
proof -
  let ?qs = "[(''_id'', Oid i), (''confirmations'', Doc [(''$elemMatch'', Doc
      [(''user_id'', UuidBin u), (''notification_deleted'', Bool False)])])]"
  have mt: "matches m (Doc ?qs) (encode n) \<longleftrightarrow> id_of i (confirmed_some u) n" for n
    by (simp add: matches_delivered id_of_def confirmed_some_def)
  obtain y w1 where y: "find_one m NOTIFICATIONS (Doc ?qs) (Some (Doc delivered_projection)) w = (Ok y, w1)"
    using run by (auto simp: repo_find_delivered_def split: prod.splits sum.splits)
  show ?thesis
  proof (cases y)
    case None
    with y find_one_None st have "find (id_of i (confirmed_some u)) ns = None"
      by (force simp: stored_def find_None_iff list_ex_iff mt)
    with None y run show ?thesis by (simp add: repo_find_delivered_def)
  next
    case (Some d')
    with y find_one_Some st obtain n where n: "n \<in> set ns" and p: "id_of i (confirmed_some u) n"
      and d': "d' = project m (Doc delivered_projection) (Doc ?qs) (encode n)"
      by (force simp: stored_def mt)
    from p obtain c where c: "delivered_conf u None n = Some c"
      by (auto simp: id_of_def confirmed_some_def)
    have "read_document X d' = Ok (view X (c_seen c) n)"
      unfolding d' by (rule read_delivered [OF _ matches_confirmation(2) c]) simp
    moreover have "find (id_of i (confirmed_some u)) ns = Some n"
    proof -
      obtain n' where n': "find (id_of i (confirmed_some u)) ns = Some n'"
        using n p by (cases "find (id_of i (confirmed_some u)) ns") (auto simp: find_None_iff)
      with find_SomeD [OF n'] n p st have "n' = n"
        by (auto simp: id_of_def stored_def well_formed_def distinct_map inj_on_def)
      with n' show ?thesis by simp
    qed
    ultimately show ?thesis
      using Some y run c by (simp add: repo_find_delivered_def delivered_view_def)
  qed
qed

lemma find_many_stored:
  assumes st: "stored m w ns"
    and run: "find_many m NOTIFICATIONS f opts w = (Ok ds, w')"
    and mt: "\<And>n. matches m f (encode n) \<longleftrightarrow> p n"
    and rd: "\<And>n. p n \<Longrightarrow> read_document X (project m (projection opts) f (encode n)) = Ok (v n)"
  shows "\<exists>ms. mset ms = mset (filter p ns) \<and> sorted_wrt (\<lambda>a b. in_order (sort_by opts) (encode a) (encode b)) ms \<and>
     try_map (read_document X) ds = Ok (map v (page opts ms))"
proof -
  from find_many_Ok [OF run] obtain es where es: "mset es = mset (filter (matches m f) (docs m NOTIFICATIONS w))"
    and srt: "sorted_wrt (in_order (sort_by opts)) es"
    and ds: "ds = map (project m (projection opts) f) (page opts es)" by blast
  have "filter (matches m f) (docs m NOTIFICATIONS w) = map encode (filter p ns)"
    using st by (auto simp: stored_def mt intro: filter_map_set)
  with es have "mset es = image_mset encode (mset (filter p ns))" by simp
  then obtain ms where ms: "mset ms = mset (filter p ns)" and es': "es = map encode ms"
    using mset_eq_image by blast
  have "page opts es = map encode (page opts ms)"
    by (simp add: es' page_def Let_def drop_map take_map)
  moreover have "p n" if "n \<in> set (page opts ms)" for n
  proof -
    from that have "n \<in> set ms" by (auto simp: page_def Let_def dest: in_set_takeD in_set_dropD split: if_splits)
    then show ?thesis using mset_eq_setD [OF ms] by auto
  qed
  ultimately have "try_map (read_document X) ds = Ok (map v (page opts ms))"
    by (simp add: ds try_map_map rd try_map_Ok comp_def)
  with ms srt es' show ?thesis by (auto simp: sorted_wrt_map)
qed

lemma page_page_of:
  "page \<lparr>projection = q, sort_by = s, skip = page_skip pg, limit = ucast (page_size pg)\<rparr> xs = page_of pg xs"
proof -
  have "sint (ucast (page_size pg) :: i64) = uint (page_size pg)"
  proof -
    have "uint (page_size pg) < 2 ^ 63" using uint_lt2p [of "page_size pg"] by simp
    then have "signed_take_bit 63 (uint (page_size pg)) = uint (page_size pg)"
      by (intro signed_take_bit_int_eq_self order_trans [OF _ uint_ge_0]) simp_all
    then show ?thesis by (simp add: signed_ucast_eq)
  qed
  moreover have "(ucast (page_size pg) :: i64) = 0 \<longleftrightarrow> page_size pg = 0"
  proof -
    have "uint (ucast (page_size pg) :: i64) = uint (page_size pg)"
      using uint_lt2p [of "page_size pg"] by (simp add: unsigned_ucast_eq take_bit_int_eq_self)
    then show ?thesis by (metis uint_0_iff)
  qed
  ultimately show ?thesis by (simp add: page_def page_of_def Let_def)
qed

text \<open>Every document the server returns is read.\<close>

lemma found_many_delivered:
  assumes st: "stored m w ns" and ds: "find_many m NOTIFICATIONS (delivered_query u fs) (delivered_options pg) w = (Ok ds, w')"
  shows "\<exists>ms. mset ms = mset (filter (\<lambda>n. delivered_conf u (filter_seen fs) n \<noteq> None) ns) \<and>
        sorted_wrt (\<lambda>a b. n_created_at b \<le> n_created_at a) ms \<and>
        repo_find_many_delivered X m u pg fs w = (Ok (map (delivered_view X u (filter_seen fs)) (page_of pg ms)), w')"
proof -
  let ?s = "filter_seen fs" and ?f = "delivered_query u fs"
  have "read_document X (project m (projection (delivered_options pg)) ?f (encode n)) = Ok (delivered_view X u ?s n)"
    if "delivered_conf u ?s n \<noteq> None" for n
  proof -
    from that obtain c where c: "delivered_conf u ?s n = Some c" by blast
    have "read_document X (project m (Doc delivered_projection) ?f (encode n)) = Ok (view X (c_seen c) n)"
      by (rule read_delivered [OF _ matches_confirmation(1) c]) simp
    with c show ?thesis by (simp add: delivered_view_def)
  qed
  from find_many_stored [OF st ds matches_delivered(1) this] ds
  show ?thesis by (auto simp: page_page_of date_at_def repo_find_many_delivered_def)
qed

lemma impl_find_many_delivered:
  assumes st: "stored m w ns" and run: "repo_find_many_delivered X m u pg fs w = (Ok xs, w')"
  shows "\<exists>ms. mset ms = mset (filter (\<lambda>n. delivered_conf u (filter_seen fs) n \<noteq> None) ns) \<and>
        sorted_wrt (\<lambda>a b. n_created_at b \<le> n_created_at a) ms \<and>
        xs = map (delivered_view X u (filter_seen fs)) (page_of pg ms)"
proof -
  obtain ds where "find_many m NOTIFICATIONS (delivered_query u fs) (delivered_options pg) w = (Ok ds, w')"
    using run by (auto simp: repo_find_many_delivered_def split: prod.splits sum.splits)
  from found_many_delivered [OF st this, of X] run show ?thesis by auto
qed

lemma impl_find_many_undelivered:
  assumes st: "stored m w ns" and run: "repo_find_many_undelivered X m u now w = (Ok xs, w')"
  shows "\<exists>ms. mset ms = mset (filter (undelivered u (dt_from X now)) ns) \<and>
        sorted_wrt (\<lambda>a b. n_created_at a \<le> n_created_at b) ms \<and> xs = map (view X False) ms"
proof -
  let ?f = "Doc (undelivered_filter u (dt_from X now))"
  let ?o = "\<lparr>projection = Doc undelivered_projection, sort_by = Some (''created_at'', 1), skip = 0, limit = 0\<rparr>"
  obtain ds where ds: "find_many m NOTIFICATIONS ?f ?o w = (Ok ds, w')"
    and xs: "try_map (read_document X) ds = Ok xs"
    using run by (auto simp: repo_find_many_undelivered_def split: prod.splits sum.splits)
  have "read_document X (project m (projection ?o) ?f (encode n)) = Ok (view X False n)" for n
    by (simp add: read_undelivered)
  from find_many_stored [OF st ds matches_undelivered(2) this] xs
  show ?thesis by (auto simp: page_def date_at_def)
qed

lemma impl_queries_keep:
  assumes "stored m w ns"
  shows "stored m (snd (repo_find_delivered X m i u w)) ns"
    and "stored m (snd (repo_find_many_delivered X m u pg fs w)) ns"
    and "stored m (snd (repo_find_many_undelivered X m u now w)) ns"
proof -
  have one: "stored m w' ns" if "find_one m NOTIFICATIONS f p w = (r, w')" for f p r w'
    using that assms find_one_docs [of NOTIFICATIONS NOTIFICATIONS f p w]
      write_indexes(4) [of NOTIFICATIONS NOTIFICATIONS f p w] by (simp add: stored_def)
  have many: "stored m w' ns" if "find_many m NOTIFICATIONS f p w = (r, w')" for f p r w'
    using that assms find_many_docs [of NOTIFICATIONS NOTIFICATIONS f p w]
      write_indexes(5) [of NOTIFICATIONS NOTIFICATIONS f p w] by (simp add: stored_def)
  show "stored m (snd (repo_find_delivered X m i u w)) ns"
    by (auto simp: repo_find_delivered_def split: prod.splits sum.splits option.splits intro: one)
  show "stored m (snd (repo_find_many_delivered X m u pg fs w)) ns"
    and "stored m (snd (repo_find_many_undelivered X m u now w)) ns"
    by (auto simp: repo_find_many_delivered_def repo_find_many_undelivered_def
        split: prod.splits sum.splits intro: many)
qed

lemma create_index_unless_Ok:
  assumes "create_index_unless m c names ix w = (Ok (), w')"
  shows "docs m c w' = docs m c w"
    and "index_name ix \<in> set names \<and> w' = w \<or> set (indexes m c w') = insert ix (set (indexes m c w))"
proof -
  from assms have "index_name ix \<in> set names \<and> w' = w \<or> create_index m c ix w = (Ok (), w')"
    by (auto simp: create_index_unless_def split: if_splits)
  then show "docs m c w' = docs m c w"
    and "index_name ix \<in> set names \<and> w' = w \<or> set (indexes m c w') = insert ix (set (indexes m c w))"
    using create_index_docs [of c c ix w] create_index_Ok [of c ix w w'] by auto
qed

lemma new_stored:
  assumes "docs m NOTIFICATIONS w = map encode ns" and "well_formed ns"
    and only: "producer_index_only (indexes m NOTIFICATIONS w)"
    and run: "notifications_repository_new m w = (Ok (), w')"
  shows "stored m w' ns"
proof -
  let ?c = NOTIFICATIONS
  from run obtain w1 names w2 w3
    where 1: "create_collection m ?c w = (Ok (), w1)" and 2: "list_index_names m ?c w1 = (Ok names, w2)"
      and 3: "create_index_unless m ?c names unique_producer_notification_index w2 = (Ok (), w3)"
      and 4: "create_index_unless m ?c names confirmations_user_id_index w3 = (Ok (), w')"
    by (auto simp: notifications_repository_new_def split: prod.splits sum.splits)
  have d2: "docs m ?c w2 = docs m ?c w" and i2: "indexes m ?c w2 = indexes m ?c w"
    using create_collection_keeps [of ?c ?c w] list_index_names_keeps [of ?c ?c w1] 1 2 by simp_all
  have names: "set names = index_name ` set (indexes m ?c w2)"
    using list_index_names_Ok [OF 2] list_index_names_keeps(2) [of ?c ?c w1] 2 by simp
  let ?u = unique_producer_notification_index and ?v = confirmations_user_id_index
  have named: "ix = ?u" if "ix \<in> set (indexes m ?c w)" "index_name ix = index_name ?u" for ix
    using only that by (simp add: producer_index_only_def list_all_iff unique_producer_notification_index_def)
  from create_index_unless_Ok(2) [OF 3] names named
  have i3: "?u \<in> set (indexes m ?c w3)" "set (indexes m ?c w3) \<subseteq> insert ?u (set (indexes m ?c w))"
    by (auto simp: i2) (metis imageE)
  from create_index_unless_Ok(2) [OF 4]
  have i4: "set (indexes m ?c w3) \<subseteq> set (indexes m ?c w')"
    "set (indexes m ?c w') \<subseteq> insert ?v (set (indexes m ?c w3))" by auto
  have "producer_index_only [?u]" and "producer_index_only [?v]"
    by (simp_all add: producer_index_only_def unique_producer_notification_index_def
      confirmations_user_id_index_def INDEX_NAME_UNIQUE_PRODUCER_NOTIFICATION_def
      INDEX_NAME_CONFIRMATION_USER_ID_def)
  with only i3(2) i4(2) have "producer_index_only (indexes m ?c w')"
    unfolding producer_index_only_def list_all_iff list.set by blast
  moreover have "docs m ?c w' = docs m ?c w"
    using create_index_unless_Ok(1) [OF 3] create_index_unless_Ok(1) [OF 4] d2 by simp
  ultimately show ?thesis using assms(1,2) i3(1) i4(1) by (auto simp: stored_def)
qed

end

lemma notifications_repository_impl_simps [simp]:
  "nr_insert (notifications_repository_impl X m) = repo_insert X m"
  "nr_update_invalidate_at (notifications_repository_impl X m) = repo_update_invalidate_at X m"
  "nr_insert_confirmation (notifications_repository_impl X m) = repo_insert_confirmation X m"
  "nr_insert_many_confirmations (notifications_repository_impl X m) = repo_insert_many_confirmations X m"
  "nr_update_confirmation_seen (notifications_repository_impl X m) = repo_update_confirmation_seen m"
  "nr_delete (notifications_repository_impl X m) = repo_delete m"
  "nr_find_delivered (notifications_repository_impl X m) = repo_find_delivered X m"
  "nr_find_many_delivered (notifications_repository_impl X m) = repo_find_many_delivered X m"
  "nr_find_many_undelivered (notifications_repository_impl X m) = repo_find_many_undelivered X m"
  by (simp_all add: notifications_repository_impl_def)

sublocale mongo_server \<subseteq> repo: notifications_repository "notifications_repository_impl X m" X "stored m" for X
  by (unfold_locales; unfold notifications_repository_impl_simps)
    (erule (1) impl_find_many_delivered impl_find_many_undelivered |
     simp add: impl_insert_Ok impl_insert_Err impl_update_invalidate_at impl_insert_confirmation
      impl_insert_many_confirmations impl_update_confirmation_seen impl_delete impl_find_delivered
      impl_queries_keep)+

context mongo_server
begin

lemma repository_contract: "notifications_repository (notifications_repository_impl X m) X (stored m)"
  by (rule repo.notifications_repository_axioms)

end

interpretation ref_repo: notifications_repository
  "notifications_repository_impl ref_ext ref_server" ref_ext "stored ref_server"
  by unfold_locales

end
