(* ===== verification/Protobuf.thy ===== *)
theory Protobuf
  imports Externals
begin

text \<open>
  The messages of \<open>shared/protobuf\<close>, which both programs exchange over RabbitMQ and which
  clients exchange over WebSocket. The Rust types are generated from the \<open>.proto\<close> files; how
  \<open>prost\<close> encodes and decodes them is not code of this repository: the codec is the record
  \<open>prost\<close>, a parameter of every definition that calls it, and \<open>prost_ok\<close> is what is relied on,
  that decoding an encoded message gives it back. A concrete codec shows that it can hold.
\<close>

section \<open>Messages\<close>

datatype notification_status = NEW | UPDATED | DELETED

fun notification_status_value :: "notification_status \<Rightarrow> i32" where
  "notification_status_value NEW = 0"
| "notification_status_value UPDATED = 1"
| "notification_status_value DELETED = 2"

datatype network_status = NetworkOk | NetworkError

fun network_status_value :: "network_status \<Rightarrow> i32" where
  "network_status_value NetworkOk = 0"
| "network_status_value NetworkError = 1"

record timestamp =
  seconds :: i64
  nanos :: i32

record notification_protobuf =
  np_id :: string
  np_status :: i32
  np_timestamp :: "timestamp option"
  np_created_by :: "string option"
  np_seen :: "bool option"
  np_content_type :: "string option"
  np_content :: "bytes option"

record rabbitmq_notification_protobuf =
  rnp_user_ids :: "string list"
  rnp_notification :: "notification_protobuf option"

record rabbitmq_confirmation_protobuf =
  rcp_user_id :: string
  rcp_id :: string

record websocket_notification_protobuf =
  wnp_message_id :: string
  wnp_message_timestamp :: "timestamp option"
  wnp_network_status :: i32
  wnp_notification :: "notification_protobuf option"

record websocket_confirmation_protobuf =
  wcp_message_id :: string

section \<open>The codec\<close>

text \<open>\<open>status\<close> is the accessor prost generates for the field \<open>NotificationProtobuf.status\<close>.\<close>

record prost =
  encode_notification :: "rabbitmq_notification_protobuf \<Rightarrow> bytes"
  decode_notification :: "bytes \<Rightarrow> rabbitmq_notification_protobuf option"
  encode_rabbitmq_confirmation :: "rabbitmq_confirmation_protobuf \<Rightarrow> bytes"
  decode_rabbitmq_confirmation :: "bytes \<Rightarrow> rabbitmq_confirmation_protobuf option"
  encode_websocket_notification :: "websocket_notification_protobuf \<Rightarrow> bytes"
  decode_websocket_notification :: "bytes \<Rightarrow> websocket_notification_protobuf option"
  encode_websocket_confirmation :: "websocket_confirmation_protobuf \<Rightarrow> bytes"
  decode_websocket_confirmation :: "bytes \<Rightarrow> websocket_confirmation_protobuf option"
  status :: "i32 \<Rightarrow> notification_status"

definition prost_ok :: "prost \<Rightarrow> bool" where
  "prost_ok P \<longleftrightarrow>
     (\<forall>a. decode_notification P (encode_notification P a) = Some a) \<and>
     (\<forall>a. decode_rabbitmq_confirmation P (encode_rabbitmq_confirmation P a) = Some a) \<and>
     (\<forall>a. decode_websocket_notification P (encode_websocket_notification P a) = Some a) \<and>
     (\<forall>a. decode_websocket_confirmation P (encode_websocket_confirmation P a) = Some a) \<and>
     (\<forall>s. status P (notification_status_value s) = s)"

lemma prost_okD:
  assumes "prost_ok P"
  shows "decode_notification P (encode_notification P a) = Some a"
    "decode_rabbitmq_confirmation P (encode_rabbitmq_confirmation P b) = Some b"
    "decode_websocket_notification P (encode_websocket_notification P c) = Some c"
    "decode_websocket_confirmation P (encode_websocket_confirmation P d) = Some d"
    "status P 0 = NEW" "status P 1 = UPDATED" "status P 2 = DELETED"
proof -
  show "decode_notification P (encode_notification P a) = Some a"
    "decode_rabbitmq_confirmation P (encode_rabbitmq_confirmation P b) = Some b"
    "decode_websocket_notification P (encode_websocket_notification P c) = Some c"
    "decode_websocket_confirmation P (encode_websocket_confirmation P d) = Some d"
    using assms by (simp_all add: prost_ok_def)
  have "status P (notification_status_value s) = s" for s
    using assms by (simp add: prost_ok_def)
  from this [of NEW] this [of UPDATED] this [of DELETED]
  show "status P 0 = NEW" "status P 1 = UPDATED" "status P 2 = DELETED" by simp_all
qed

section \<open>A concrete codec\<close>

text \<open>
  An encoder paired with a decoder of a prefix of the input. \<open>codec_ok\<close> is closed under the
  combinators, so the messages are encoded field by field.
\<close>

type_synonym 'a codec = "('a \<Rightarrow> bytes) \<times> (bytes \<Rightarrow> ('a \<times> bytes) option)"

definition codec_ok :: "'a codec \<Rightarrow> bool" where
  "codec_ok c \<longleftrightarrow> (\<forall>x rest. snd c (fst c x @ rest) = Some (x, rest))"

definition c_bool :: "bool codec" where
  "c_bool = (\<lambda>b. [if b then 1 else 0],
     \<lambda>bs. case bs of [] \<Rightarrow> None | b # rest \<Rightarrow> Some (b = 1, rest))"

definition c_char :: "char codec" where
  "c_char = (\<lambda>c. [word_of_nat (of_char c)],
     \<lambda>bs. case bs of [] \<Rightarrow> None | b # rest \<Rightarrow> Some (char_of (unat b), rest))"

definition c_byte :: "u8 codec" where
  "c_byte = (\<lambda>b. [b], \<lambda>bs. case bs of [] \<Rightarrow> None | b # rest \<Rightarrow> Some (b, rest))"

definition c_pair :: "'a codec \<Rightarrow> 'b codec \<Rightarrow> ('a \<times> 'b) codec" where
  "c_pair a b = (\<lambda>(x, y). fst a x @ fst b y,
     \<lambda>bs. case snd a bs of None \<Rightarrow> None | Some (x, bs') \<Rightarrow>
       (case snd b bs' of None \<Rightarrow> None | Some (y, rest) \<Rightarrow> Some ((x, y), rest)))"

definition c_map :: "('b \<Rightarrow> 'a) \<Rightarrow> ('a \<Rightarrow> 'b) \<Rightarrow> 'a codec \<Rightarrow> 'b codec" where
  "c_map f g a = (\<lambda>y. fst a (f y), \<lambda>bs. map_option (\<lambda>(x, rest). (g x, rest)) (snd a bs))"

fun enc_list :: "('a \<Rightarrow> bytes) \<Rightarrow> 'a list \<Rightarrow> bytes" where
  "enc_list e [] = [0]"
| "enc_list e (x # xs) = 1 # e x @ enc_list e xs"

fun dec_list :: "(bytes \<Rightarrow> ('a \<times> bytes) option) \<Rightarrow> nat \<Rightarrow> bytes \<Rightarrow> ('a list \<times> bytes) option" where
  "dec_list d n [] = None"
| "dec_list d 0 (b # bs) = (if b = 0 then Some ([], bs) else None)"
| "dec_list d (Suc n) (b # bs) = (if b = 0 then Some ([], bs) else
     (case d bs of None \<Rightarrow> None | Some (x, bs') \<Rightarrow>
        map_option (\<lambda>(xs, rest). (x # xs, rest)) (dec_list d n bs')))"

definition c_list :: "'a codec \<Rightarrow> 'a list codec" where
  "c_list a = (enc_list (fst a), \<lambda>bs. dec_list (snd a) (length bs) bs)"

definition c_option :: "'a codec \<Rightarrow> 'a option codec" where
  "c_option a = c_map (\<lambda>x. case x of None \<Rightarrow> [] | Some y \<Rightarrow> [y])
     (\<lambda>xs. case xs of [] \<Rightarrow> None | y # _ \<Rightarrow> Some y) (c_list a)"

definition c_word :: "'w::len word codec" where
  "c_word = c_map (\<lambda>w. map (bit w) [0..<LENGTH('w)]) (horner_sum of_bool 2) (c_list c_bool)"

lemma codec_okD: "codec_ok c \<Longrightarrow> snd c (fst c x @ rest) = Some (x, rest)"
  by (simp add: codec_ok_def)

lemma codec_ok_decode: "codec_ok c \<Longrightarrow> map_option fst (snd c (fst c x)) = Some x"
  using codec_okD [of c x "[]"] by simp

lemma ok_bool: "codec_ok c_bool"
  by (simp add: codec_ok_def c_bool_def)

lemma ok_char: "codec_ok c_char"
  by (simp add: codec_ok_def c_char_def unat_of_nat)

lemma ok_byte: "codec_ok c_byte"
  by (simp add: codec_ok_def c_byte_def)

lemma ok_pair: "codec_ok a \<Longrightarrow> codec_ok b \<Longrightarrow> codec_ok (c_pair a b)"
  by (simp add: codec_ok_def c_pair_def split_beta)

lemma ok_map: "codec_ok a \<Longrightarrow> (\<And>y. g (f y) = y) \<Longrightarrow> codec_ok (c_map f g a)"
  by (simp add: codec_ok_def c_map_def)

lemma dec_enc_list:
  "codec_ok (e, d) \<Longrightarrow> length xs \<le> n \<Longrightarrow> dec_list d n (enc_list e xs @ rest) = Some (xs, rest)"
proof (induction xs arbitrary: n)
  case Nil
  then show ?case by (cases n) simp_all
next
  case (Cons x xs)
  then obtain k where "n = Suc k" and "length xs \<le> k" by (cases n) auto
  with Cons show ?case by (simp add: codec_ok_def)
qed

lemma length_enc_list: "length xs < length (enc_list e xs)"
  by (induction xs) auto

lemma ok_list: "codec_ok a \<Longrightarrow> codec_ok (c_list a)"
  using dec_enc_list [of "fst a" "snd a"] length_enc_list [of _ "fst a"]
  by (simp add: codec_ok_def c_list_def trans_le_add1 less_imp_le_nat)

lemma ok_option: "codec_ok a \<Longrightarrow> codec_ok (c_option a)"
  unfolding c_option_def by (intro ok_map ok_list) (auto split: option.splits)

lemma ok_word: "codec_ok c_word"
  unfolding c_word_def by (intro ok_map ok_list ok_bool) (simp add: horner_sum_bits)

definition c_timestamp :: "timestamp codec" where
  "c_timestamp = c_map (\<lambda>t. (seconds t, nanos t)) (\<lambda>(s, n). \<lparr>seconds = s, nanos = n\<rparr>) (c_pair c_word c_word)"

definition c_notification :: "notification_protobuf codec" where
  "c_notification = c_map
     (\<lambda>n. (np_id n, np_status n, np_timestamp n, np_created_by n, np_seen n, np_content_type n, np_content n))
     (\<lambda>(i, s, t, b, n, ct, c). \<lparr>np_id = i, np_status = s, np_timestamp = t, np_created_by = b,
        np_seen = n, np_content_type = ct, np_content = c\<rparr>)
     (c_pair (c_list c_char) (c_pair c_word (c_pair (c_option c_timestamp) (c_pair (c_option (c_list c_char))
       (c_pair (c_option c_bool) (c_pair (c_option (c_list c_char)) (c_option (c_list c_byte))))))))"

definition c_rabbitmq_notification :: "rabbitmq_notification_protobuf codec" where
  "c_rabbitmq_notification = c_map (\<lambda>r. (rnp_user_ids r, rnp_notification r))
     (\<lambda>(u, n). \<lparr>rnp_user_ids = u, rnp_notification = n\<rparr>)
     (c_pair (c_list (c_list c_char)) (c_option c_notification))"

definition c_rabbitmq_confirmation :: "rabbitmq_confirmation_protobuf codec" where
  "c_rabbitmq_confirmation = c_map (\<lambda>r. (rcp_user_id r, rcp_id r))
     (\<lambda>(u, i). \<lparr>rcp_user_id = u, rcp_id = i\<rparr>) (c_pair (c_list c_char) (c_list c_char))"

definition c_websocket_notification :: "websocket_notification_protobuf codec" where
  "c_websocket_notification = c_map
     (\<lambda>r. (wnp_message_id r, wnp_message_timestamp r, wnp_network_status r, wnp_notification r))
     (\<lambda>(i, t, s, n). \<lparr>wnp_message_id = i, wnp_message_timestamp = t, wnp_network_status = s,
        wnp_notification = n\<rparr>)
     (c_pair (c_list c_char) (c_pair (c_option c_timestamp) (c_pair c_word (c_option c_notification))))"

definition c_websocket_confirmation :: "websocket_confirmation_protobuf codec" where
  "c_websocket_confirmation = c_map wcp_message_id (\<lambda>i. \<lparr>wcp_message_id = i\<rparr>) (c_list c_char)"

lemmas codec_oks = ok_bool ok_char ok_byte ok_word ok_pair ok_map ok_list ok_option

lemma ok_timestamp: "codec_ok c_timestamp"
  unfolding c_timestamp_def by (intro codec_oks) simp

lemma ok_notification: "codec_ok c_notification"
  unfolding c_notification_def by (intro codec_oks ok_timestamp) simp

lemma ok_messages: "codec_ok c_rabbitmq_notification" "codec_ok c_rabbitmq_confirmation"
    "codec_ok c_websocket_notification" "codec_ok c_websocket_confirmation"
  unfolding c_rabbitmq_notification_def c_rabbitmq_confirmation_def c_websocket_notification_def
    c_websocket_confirmation_def
  by (intro codec_oks ok_timestamp ok_notification; simp)+

definition ref_prost :: prost where
  "ref_prost =
    \<lparr> encode_notification = fst c_rabbitmq_notification,
      decode_notification = (\<lambda>bs. map_option fst (snd c_rabbitmq_notification bs)),
      encode_rabbitmq_confirmation = fst c_rabbitmq_confirmation,
      decode_rabbitmq_confirmation = (\<lambda>bs. map_option fst (snd c_rabbitmq_confirmation bs)),
      encode_websocket_notification = fst c_websocket_notification,
      decode_websocket_notification = (\<lambda>bs. map_option fst (snd c_websocket_notification bs)),
      encode_websocket_confirmation = fst c_websocket_confirmation,
      decode_websocket_confirmation = (\<lambda>bs. map_option fst (snd c_websocket_confirmation bs)),
      status = (\<lambda>v. if v = 1 then UPDATED else if v = 2 then DELETED else NEW) \<rparr>"

lemma ref_prost_ok: "prost_ok ref_prost"
proof -
  have "status ref_prost (notification_status_value s) = s" for s
    by (cases s) (simp_all add: ref_prost_def)
  then show ?thesis
    by (simp add: prost_ok_def ref_prost_def codec_ok_decode ok_messages)
qed

end
