(* ===== verification/Notifications_Producer_Service.thy ===== *)
theory Notifications_Producer_Service
  imports Core_Types Protobuf
begin

text \<open>
  \<open>tom-notifier-core/src/service/notifications_producer_service\<close>: the trait as a record of
  operations, its implementation, which builds one protobuf message per state change and hands
  it to the RabbitMQ producer, and the trait's contract as a locale: each operation announces
  its change. The state of the implementation is the sequence of messages handed to
  \<open>RabbitmqProducer::send\<close> so far.
\<close>

section \<open>Messages handed to the RabbitMQ producer\<close>

text \<open>Of \<open>amqprs::BasicProperties\<close> the source sets the delivery mode only.\<close>

record message =
  routing_key :: string
  persistent :: bool
  content :: bytes

section \<open>The trait and its implementation\<close>

record 's notifications_producer_service =
  ps_send_new :: "uuid list \<Rightarrow> object_id \<Rightarrow> offset_date_time \<Rightarrow> uuid \<Rightarrow> bool \<Rightarrow> string \<Rightarrow> bytes \<Rightarrow> 's \<Rightarrow> 's"
  ps_send_updated :: "uuid \<Rightarrow> object_id \<Rightarrow> bool \<Rightarrow> offset_date_time \<Rightarrow> 's \<Rightarrow> 's"
  ps_send_deleted :: "uuid \<Rightarrow> object_id \<Rightarrow> offset_date_time \<Rightarrow> 's \<Rightarrow> 's"

definition send :: "string \<Rightarrow> bytes \<Rightarrow> message list \<Rightarrow> message list" where
  "send key encoded_message out = out @ [\<lparr>routing_key = key, persistent = True, content = encoded_message\<rparr>]"

definition timestamp_of :: "ext \<Rightarrow> offset_date_time \<Rightarrow> timestamp" where
  "timestamp_of X t = \<lparr>seconds = unix_timestamp X t, nanos = nanosecond X t\<rparr>"

definition send_new :: "ext \<Rightarrow> prost \<Rightarrow> uuid list \<Rightarrow> object_id \<Rightarrow> offset_date_time \<Rightarrow> uuid \<Rightarrow> bool \<Rightarrow>
    string \<Rightarrow> bytes \<Rightarrow> message list \<Rightarrow> message list" where
  "send_new X P user_ids i ts created_by seen content_type cont =
     send ''NEW'' (encode_notification P
       \<lparr> rnp_user_ids = map (uuid_to_string X) user_ids,
         rnp_notification = Some \<lparr> np_id = oid_to_hex X i, np_status = notification_status_value NEW,
           np_timestamp = Some (timestamp_of X ts), np_created_by = Some (uuid_to_string X created_by),
           np_seen = Some seen, np_content_type = Some content_type, np_content = Some cont \<rparr> \<rparr>)"

definition send_updated :: "ext \<Rightarrow> prost \<Rightarrow> uuid \<Rightarrow> object_id \<Rightarrow> bool \<Rightarrow> offset_date_time \<Rightarrow>
    message list \<Rightarrow> message list" where
  "send_updated X P user_id i seen ts =
     send ''UPDATED'' (encode_notification P
       \<lparr> rnp_user_ids = [uuid_to_string X user_id],
         rnp_notification = Some \<lparr> np_id = oid_to_hex X i, np_status = notification_status_value UPDATED,
           np_timestamp = Some (timestamp_of X ts), np_created_by = None,
           np_seen = Some seen, np_content_type = None, np_content = None \<rparr> \<rparr>)"

definition send_deleted :: "ext \<Rightarrow> prost \<Rightarrow> uuid \<Rightarrow> object_id \<Rightarrow> offset_date_time \<Rightarrow>
    message list \<Rightarrow> message list" where
  "send_deleted X P user_id i ts =
     send ''DELETED'' (encode_notification P
       \<lparr> rnp_user_ids = [uuid_to_string X user_id],
         rnp_notification = Some \<lparr> np_id = oid_to_hex X i, np_status = notification_status_value DELETED,
           np_timestamp = Some (timestamp_of X ts), np_created_by = None,
           np_seen = None, np_content_type = None, np_content = None \<rparr> \<rparr>)"

definition notifications_producer_service_impl :: "ext \<Rightarrow> prost \<Rightarrow> message list notifications_producer_service" where
  "notifications_producer_service_impl X P =
    \<lparr> ps_send_new = send_new X P, ps_send_updated = send_updated X P, ps_send_deleted = send_deleted X P \<rparr>"

section \<open>The contract: every operation announces its change\<close>

datatype change = New uuid bool string bytes | Updated bool | Deleted

record announcement =
  an_user_ids :: "uuid list"
  an_id :: object_id
  an_timestamp :: timestamp
  an_change :: change

text \<open>
  What a consumer of the queue reads from a message, following the comment of
  \<open>notification.proto\<close>: all optional fields with NEW, only \<open>seen\<close> with UPDATED, none with
  DELETED; the routing key is the status.
\<close>

definition read_change :: "ext \<Rightarrow> notification_status \<Rightarrow> notification_protobuf \<Rightarrow> change option" where
  "read_change X s n =
    (case (s, map_option (uuid_from_str X) (np_created_by n), np_seen n, np_content_type n, np_content n) of
       (NEW, Some (Some u), Some b, Some ct, Some c) \<Rightarrow> Some (New u b ct c)
     | (UPDATED, None, Some b, None, None) \<Rightarrow> Some (Updated b)
     | (DELETED, None, None, None, None) \<Rightarrow> Some Deleted
     | _ \<Rightarrow> None)"

definition status_key :: "notification_status \<Rightarrow> string" where
  "status_key s = (case s of NEW \<Rightarrow> ''NEW'' | UPDATED \<Rightarrow> ''UPDATED'' | DELETED \<Rightarrow> ''DELETED'')"

definition read_announcement :: "ext \<Rightarrow> prost \<Rightarrow> message \<Rightarrow> announcement option" where
  "read_announcement X P m =
    (case decode_notification P (content m) of
       Some r \<Rightarrow> (case rnp_notification r of
         Some n \<Rightarrow>
           (case (oid_from_str X (np_id n), np_timestamp n, read_change X (status P (np_status n)) n) of
              (Some i, Some t, Some c) \<Rightarrow>
                if list_all (\<lambda>s. uuid_from_str X s \<noteq> None) (rnp_user_ids r) \<and>
                   routing_key m = status_key (status P (np_status n)) \<and> persistent m
                then Some \<lparr> an_user_ids = map (\<lambda>s. the (uuid_from_str X s)) (rnp_user_ids r), an_id = i,
                            an_timestamp = t, an_change = c \<rparr>
                else None
            | _ \<Rightarrow> None)
       | None \<Rightarrow> None)
     | None \<Rightarrow> None)"

locale announcements =
  fixes ps :: "'s notifications_producer_service" and X :: ext
    and log :: "'s \<Rightarrow> announcement option list"
  assumes announce_new: "log (ps_send_new ps us i t u b ct c s) = log s @
      [Some \<lparr>an_user_ids = us, an_id = i, an_timestamp = timestamp_of X t, an_change = New u b ct c\<rparr>]"
    and announce_updated: "log (ps_send_updated ps u i b t s) = log s @
      [Some \<lparr>an_user_ids = [u], an_id = i, an_timestamp = timestamp_of X t, an_change = Updated b\<rparr>]"
    and announce_deleted: "log (ps_send_deleted ps u i t s) = log s @
      [Some \<lparr>an_user_ids = [u], an_id = i, an_timestamp = timestamp_of X t, an_change = Deleted\<rparr>]"

text \<open>The named hypothesis on the identifiers' texts, for all of them.\<close>

definition identifiers_ok :: "ext \<Rightarrow> bool" where
  "identifiers_ok X \<longleftrightarrow> (\<forall>u. uuid_text_ok X u) \<and> (\<forall>i. oid_text_ok X i)"

lemma identifiers_okD:
  "identifiers_ok X \<Longrightarrow> uuid_from_str X (uuid_to_string X u) = Some u"
  "identifiers_ok X \<Longrightarrow> oid_from_str X (oid_to_hex X i) = Some i"
  by (simp_all add: identifiers_ok_def uuid_text_ok_def oid_text_ok_def)

lemma ref_identifiers_ok: "identifiers_ok ref_ext"
  by (simp add: identifiers_ok_def ref_uuid_text_ok ref_oid_text_ok)

lemma impl_announcements:
  assumes "identifiers_ok X" and "prost_ok P"
  shows "announcements (notifications_producer_service_impl X P) X (map (read_announcement X P))"
  by unfold_locales
    (simp_all add: notifications_producer_service_impl_def send_def send_new_def send_updated_def
      send_deleted_def read_announcement_def read_change_def status_key_def prost_okD [OF assms(2)]
      identifiers_okD [OF assms(1)] list_all_iff comp_def)

interpretation ref_announcements: announcements
  "notifications_producer_service_impl ref_ext ref_prost" ref_ext "map (read_announcement ref_ext ref_prost)"
  by (rule impl_announcements [OF ref_identifiers_ok ref_prost_ok])

end
