(* ===== verification/Notifications_Service.thy ===== *)
theory Notifications_Service
  imports Notifications_Refinement Notifications_Producer_Service
begin

text \<open>
  \<open>tom-notifier-core/src/service/notifications_service\<close>: the operations behind the HTTP routes,
  over any repository and any producer service. The state is the pair of the database's world and
  the producer service's state. Every reading of the clock is an argument of its own, in the
  order in which the source reads it (the repository's own reading included), because the clock
  moves between two readings.
\<close>

section \<open>The operations\<close>

record service_config =
  max_content_len :: nat

definition validate_invalidate_at_not_passed :: "offset_date_time option \<Rightarrow> offset_date_time \<Rightarrow>
    (core_error, unit) result" where
  "validate_invalidate_at_not_passed invalidate_at now =
    (case invalidate_at of
       Some ia \<Rightarrow> if ia \<le> now then Err (Validation ''invalidate_at already passed'') else Ok ()
     | None \<Rightarrow> Ok ())"

definition validate_content_not_too_long :: "service_config \<Rightarrow> bytes \<Rightarrow> (core_error, unit) result" where
  "validate_content_not_too_long cfg cont =
    (if length cont > max_content_len cfg
     then Err (ValidationNotificationTooLarge (length cont) (max_content_len cfg)) else Ok ())"

definition validate_save_notification :: "service_config \<Rightarrow> input_notification \<Rightarrow> offset_date_time \<Rightarrow>
    (core_error, unit) result" where
  "validate_save_notification cfg n now =
    and_then (validate_invalidate_at_not_passed (in_invalidate_at n) now)
      (\<lambda>_. validate_content_not_too_long cfg (in_content n))"

fun save_error :: "repo_error \<Rightarrow> core_error" where
  "save_error InsertUniqueViolation = NotificationAlreadySaved"
| "save_error err = Database err"

fun update_error :: "repo_error \<Rightarrow> core_error" where
  "update_error NoDocumentUpdated = NotificationNotExist"
| "update_error err = Database err"

definition save_notification :: "ext \<Rightarrow> service_config \<Rightarrow> 'w notifications_repository \<Rightarrow>
    's notifications_producer_service \<Rightarrow> uuid \<Rightarrow> input_notification \<Rightarrow> offset_date_time \<Rightarrow>
    offset_date_time \<Rightarrow> 'w \<times> 's \<Rightarrow> (core_error, notification_id) result \<times> 'w \<times> 's" where
  "save_notification X cfg r ps producer_id n now_validation now_creation st =
    (case st of (w, s) \<Rightarrow>
     (case validate_save_notification cfg n now_validation of
        Err e \<Rightarrow> (Err e, w, s)
      | Ok _ \<Rightarrow>
          (case nr_insert r (in_user_ids n) now_creation (in_invalidate_at n) producer_id
              (in_producer_notification_id n) (in_content_type n) (in_content n) w of
             (Err e, w') \<Rightarrow> (Err (save_error e), w', s)
           | (Ok ins, w') \<Rightarrow>
               (Ok \<lparr>nid = oid_to_hex X (ins_id ins)\<rparr>, w',
                ps_send_new ps (ins_user_ids ins) (ins_id ins) (ins_created_at ins) (ins_producer_id ins)
                  False (ins_content_type ins) (ins_content ins) s))))"

definition find_undelivered_notifications :: "ext \<Rightarrow> 'w notifications_repository \<Rightarrow> uuid \<Rightarrow>
    offset_date_time \<Rightarrow> offset_date_time \<Rightarrow> 'w \<times> 's \<Rightarrow>
    (core_error, output_notification list) result \<times> 'w \<times> 's" where
  "find_undelivered_notifications X r user_id now_find now_confirm st =
    (case st of (w, s) \<Rightarrow>
     (case nr_find_many_undelivered r user_id now_find w of
        (Err e, w') \<Rightarrow> (Err (Database e), w', s)
      | (Ok ns, w') \<Rightarrow>
          (if ns = [] then (Ok (map (output_of_repo X) ns), w', s)
           else (case nr_insert_many_confirmations r (map rn_id ns) user_id now_confirm w' of
                   (Err e, w'') \<Rightarrow> (Err (Database e), w'', s)
                 | (Ok _, w'') \<Rightarrow> (Ok (map (output_of_repo X) ns), w'', s)))))"

text \<open>A poll is two calls of the repository, between which other requests may run: its two halves.\<close>

definition find_undelivered_begin :: "'w notifications_repository \<Rightarrow> uuid \<Rightarrow> offset_date_time \<Rightarrow> 'w \<Rightarrow>
    (core_error, repo_notification list) result \<times> 'w" where
  "find_undelivered_begin r user_id now w =
    (case nr_find_many_undelivered r user_id now w of (res, w') \<Rightarrow> (map_err Database res, w'))"

definition find_undelivered_end :: "ext \<Rightarrow> 'w notifications_repository \<Rightarrow> uuid \<Rightarrow> offset_date_time \<Rightarrow>
    repo_notification list \<Rightarrow> 'w \<Rightarrow> (core_error, output_notification list) result \<times> 'w" where
  "find_undelivered_end X r user_id now ns w =
    (if ns = [] then (Ok (map (output_of_repo X) ns), w)
     else (case nr_insert_many_confirmations r (map rn_id ns) user_id now w of
             (Err e, w') \<Rightarrow> (Err (Database e), w')
           | (Ok _, w') \<Rightarrow> (Ok (map (output_of_repo X) ns), w')))"

lemma find_undelivered_halves:
  "find_undelivered_notifications X r u now_find now_confirm (w, s) =
    (case find_undelivered_begin r u now_find w of
       (Err e, w') \<Rightarrow> (Err e, w', s)
     | (Ok ns, w') \<Rightarrow> (case find_undelivered_end X r u now_confirm ns w' of (res, w'') \<Rightarrow> (res, w'', s)))"
  by (auto simp: find_undelivered_notifications_def find_undelivered_begin_def find_undelivered_end_def
      split: sum.splits prod.splits)

definition find_delivered_notifications :: "ext \<Rightarrow> 'w notifications_repository \<Rightarrow> uuid \<Rightarrow> pagination \<Rightarrow>
    notification_filters \<Rightarrow> 'w \<times> 's \<Rightarrow> (core_error, output_notification list) result \<times> 'w \<times> 's" where
  "find_delivered_notifications X r user_id pg filters st =
    (case st of (w, s) \<Rightarrow>
     (case nr_find_many_delivered r user_id pg filters w of
        (Err e, w') \<Rightarrow> (Err (Database e), w', s)
      | (Ok ns, w') \<Rightarrow> (Ok (map (output_of_repo X) ns), w', s)))"

definition find_delivered_notification :: "ext \<Rightarrow> 'w notifications_repository \<Rightarrow> object_id \<Rightarrow> uuid \<Rightarrow>
    'w \<times> 's \<Rightarrow> (core_error, output_notification) result \<times> 'w \<times> 's" where
  "find_delivered_notification X r i user_id st =
    (case st of (w, s) \<Rightarrow>
     (case nr_find_delivered r i user_id w of
        (Err e, w') \<Rightarrow> (Err (Database e), w', s)
      | (Ok n, w') \<Rightarrow>
          (and_then (ok_or NotificationNotExist n) (\<lambda>n. Ok (output_of_repo X n)), w', s)))"

definition delete_notification :: "'w notifications_repository \<Rightarrow> 's notifications_producer_service \<Rightarrow>
    object_id \<Rightarrow> uuid \<Rightarrow> offset_date_time \<Rightarrow> 'w \<times> 's \<Rightarrow> (core_error, unit) result \<times> 'w \<times> 's" where
  "delete_notification r ps i user_id now st =
    (case st of (w, s) \<Rightarrow>
     (case nr_delete r i user_id w of
        (Err e, w') \<Rightarrow> (Err (update_error e), w', s)
      | (Ok _, w') \<Rightarrow> (Ok (), w', ps_send_deleted ps user_id i now s)))"

definition update_notification_invalidate_at :: "'w notifications_repository \<Rightarrow> object_id \<Rightarrow> uuid \<Rightarrow>
    notification_invalidate_at \<Rightarrow> offset_date_time \<Rightarrow> 'w \<times> 's \<Rightarrow> (core_error, unit) result \<times> 'w \<times> 's" where
  "update_notification_invalidate_at r i producer_id ia now st =
    (case st of (w, s) \<Rightarrow>
     (case validate_invalidate_at_not_passed (new_invalidate_at ia) now of
        Err e \<Rightarrow> (Err e, w, s)
      | Ok _ \<Rightarrow>
          (case nr_update_invalidate_at r i producer_id (new_invalidate_at ia) w of
             (Ok _, w') \<Rightarrow> (Ok (), w', s)
           | (Err e, w') \<Rightarrow> (Err (update_error e), w', s))))"

definition update_notification_seen :: "'w notifications_repository \<Rightarrow> 's notifications_producer_service \<Rightarrow>
    object_id \<Rightarrow> uuid \<Rightarrow> notification_seen \<Rightarrow> offset_date_time \<Rightarrow> 'w \<times> 's \<Rightarrow>
    (core_error, unit) result \<times> 'w \<times> 's" where
  "update_notification_seen r ps i user_id seen now st =
    (case st of (w, s) \<Rightarrow>
     (case nr_update_confirmation_seen r i user_id (new_seen seen) w of
        (Err e, w') \<Rightarrow> (Err (update_error e), w', s)
      | (Ok _, w') \<Rightarrow> (Ok (), w', ps_send_updated ps user_id i (new_seen seen) now s)))"

section \<open>What the operations do\<close>

lemma save_error_simps [simp]:
  "save_error e = NotificationAlreadySaved \<longleftrightarrow> e = InsertUniqueViolation"
  "save_error e \<noteq> Validation t" "save_error e \<noteq> ValidationNotificationTooLarge a b"
  by (cases e; simp)+

lemma update_error_simps [simp]:
  "update_error e = NotificationNotExist \<longleftrightarrow> e = NoDocumentUpdated"
  "update_error e \<noteq> Validation t"
  by (cases e; simp)+

lemma validate_save_notification_Err:
  "validate_save_notification cfg n now = Err e \<longleftrightarrow>
     (\<exists>ia. in_invalidate_at n = Some ia \<and> ia \<le> now) \<and> e = Validation ''invalidate_at already passed'' \<or>
     \<not> (\<exists>ia. in_invalidate_at n = Some ia \<and> ia \<le> now) \<and> length (in_content n) > max_content_len cfg \<and>
       e = ValidationNotificationTooLarge (length (in_content n)) (max_content_len cfg)"
  by (auto simp: validate_save_notification_def validate_invalidate_at_not_passed_def
      validate_content_not_too_long_def split: option.splits)

text \<open>A notification still undelivered later was undelivered before.\<close>

lemma undelivered_earlier: "undelivered u t n \<Longrightarrow> s \<le> t \<Longrightarrow> undelivered u s n"
  by (auto simp: undelivered_def valid_at_def split: option.splits)

lemma update_where_cong:
  "(\<And>x. x \<in> set xs \<Longrightarrow> p x \<longleftrightarrow> q x) \<Longrightarrow> update_where p f xs = update_where q f xs"
  by (simp add: update_where_def)

lemma confirm_all_none_undelivered:
  assumes "t \<le> t'"
  shows "filter (undelivered u t') (update_where (undelivered u t) (confirm u t) ns) = []"
proof -
  have "\<not> undelivered u t' (if undelivered u t n then confirm u t n else n)" for n
    using undelivered_earlier [OF _ assms, of u n] by (auto simp: undelivered_def)
  then show ?thesis by (simp add: update_where_def filter_map comp_def)
qed

text \<open>The operations that announce nothing rest on the repository's contract alone.\<close>

context notifications_repository
begin

text \<open>
  One poll returns every undelivered notification, oldest first, and confirms those that are
  still valid when the confirmations are written.
\<close>

lemma find_undelivered_Ok:
  assumes h: "holds w ns" and mono: "dt_mono X" and now: "nf \<le> nc"
    and run: "find_undelivered_notifications X r u nf nc (w, s) = (Ok outs, w', s')"
  shows "s' = s \<and> holds w' (update_where (undelivered u (dt_from X nc)) (confirm u (dt_from X nc)) ns) \<and>
    (\<exists>ms. mset ms = mset (filter (undelivered u (dt_from X nf)) ns) \<and>
      sorted_wrt (\<lambda>a b. n_created_at a \<le> n_created_at b) ms \<and>
      outs = map (\<lambda>n. output_of_repo X (view X False n)) ms)"
proof -
  obtain rs w1 where find: "nr_find_many_undelivered r u nf w = (Ok rs, w1)"
    using run by (auto simp: find_undelivered_notifications_def split: sum.splits prod.splits)
  from find_many_undelivered [OF h find] obtain ms
    where ms: "mset ms = mset (filter (undelivered u (dt_from X nf)) ns)"
      "sorted_wrt (\<lambda>a b. n_created_at a \<le> n_created_at b) ms" and rs: "rs = map (view X False) ms" by blast
  have set: "set ms = {n \<in> set ns. undelivered u (dt_from X nf) n}"
    using mset_eq_setD [OF ms(1)] by auto
  have h1: "holds w1 ns" using queries_keep(3) [OF h, of u nf] find by simp
  let ?is = "map rn_id rs"
  have ids: "n_id n \<in> set ?is" if "n \<in> set ns" "undelivered u (dt_from X nc) n" for n
    using that undelivered_earlier [OF that(2) dt_monoD [OF mono now]]
    by (auto simp: rs view_def set image_image intro!: imageI)
  have "outs = map (output_of_repo X) rs \<and> s' = s \<and>
      holds w' (update_where (\<lambda>n. n_id n \<in> set ?is \<and> undelivered u (dt_from X nc) n)
        (confirm u (dt_from X nc)) ns)"
  proof (cases "rs = []")
    case True
    have "update_where (\<lambda>n. n_id n \<in> set ?is \<and> undelivered u (dt_from X nc) n)
        (confirm u (dt_from X nc)) ns = ns"
      by (rule update_where_idle) (simp add: True)
    with True run find h1 show ?thesis by (simp add: find_undelivered_notifications_def)
  next
    case False
    with run find obtain w2 where "nr_insert_many_confirmations r ?is u nc w1 = (Ok (), w2)"
      and "w' = w2" "s' = s" "outs = map (output_of_repo X) rs"
      by (auto simp: find_undelivered_notifications_def split: sum.splits prod.splits)
    with insert_many_confirmations_Ok [OF h1] show ?thesis by blast
  qed
  moreover have "update_where (\<lambda>n. n_id n \<in> set ?is \<and> undelivered u (dt_from X nc) n)
      (confirm u (dt_from X nc)) ns = update_where (undelivered u (dt_from X nc)) (confirm u (dt_from X nc)) ns"
    by (rule update_where_cong) (use ids in blast)
  ultimately show ?thesis using ms by (auto simp: rs)
qed

text \<open>A later poll with nothing new in between returns nothing: delivery by polling is once.\<close>

lemma find_undelivered_twice:
  assumes h: "holds w ns" and mono: "dt_mono X" and now: "nf \<le> nc" "nc \<le> nf'" "nf' \<le> nc'"
    and run: "find_undelivered_notifications X r u nf nc (w, s) = (Ok outs, w', s')"
    and run': "find_undelivered_notifications X r u nf' nc' (w', s') = (Ok outs', w'', s'')"
  shows "outs' = []"
proof -
  let ?ns = "update_where (undelivered u (dt_from X nc)) (confirm u (dt_from X nc)) ns"
  have h': "holds w' ?ns" using find_undelivered_Ok [OF h mono now(1) run] by blast
  from find_undelivered_Ok [OF h' mono now(3) run']
  obtain ms where "mset ms = mset (filter (undelivered u (dt_from X nf')) ?ns)"
    and "outs' = map (\<lambda>n. output_of_repo X (view X False n)) ms" by blast
  with confirm_all_none_undelivered [OF dt_monoD [OF mono now(2)]] show ?thesis by simp
qed

lemma find_undelivered_log: "snd (snd (find_undelivered_notifications X r u nf nc (w, s))) = s"
  by (simp add: find_undelivered_notifications_def split: sum.splits prod.splits)

lemma find_delivered_notifications_Ok:
  assumes "holds w ns" and "find_delivered_notifications X r u pg fs (w, s) = (Ok outs, w', s')"
  shows "s' = s \<and> holds w' ns \<and>
    (\<exists>ms. mset ms = mset (filter (\<lambda>n. delivered_conf u (filter_seen fs) n \<noteq> None) ns) \<and>
      sorted_wrt (\<lambda>a b. n_created_at b \<le> n_created_at a) ms \<and>
      outs = map (\<lambda>n. output_of_repo X (delivered_view X u (filter_seen fs) n)) (page_of pg ms))"
proof -
  obtain res w1 where run: "nr_find_many_delivered r u pg fs w = (res, w1)" by fastforce
  with assms(2) obtain xs where res: "res = Ok xs" and out: "outs = map (output_of_repo X) xs" "w' = w1" "s' = s"
    by (cases res) (auto simp: find_delivered_notifications_def)
  obtain ms where "mset ms = mset (filter (\<lambda>n. delivered_conf u (filter_seen fs) n \<noteq> None) ns)"
    "sorted_wrt (\<lambda>a b. n_created_at b \<le> n_created_at a) ms"
    "xs = map (delivered_view X u (filter_seen fs)) (page_of pg ms)"
    using find_many_delivered [OF assms(1) run [unfolded res]] by blast
  with out queries_keep(2) [OF assms(1), of u pg fs] run show ?thesis
    by (intro conjI exI [of _ ms]) simp_all
qed

lemma update_notification_invalidate_at_outcome:
  assumes "holds w ns"
  shows "case update_notification_invalidate_at r i p ia now (w, s) of
      (Inr _, w', s') \<Rightarrow> s' = s \<and> list_ex (id_of i (\<lambda>n. n_producer_id n = p)) ns \<and>
        (\<forall>t. new_invalidate_at ia = Some t \<longrightarrow> now < t) \<and>
        holds w' (update_where (id_of i (\<lambda>n. n_producer_id n = p))
          (reinvalidate (map_option (dt_from X) (new_invalidate_at ia))) ns)
    | (Inl e, w', s') \<Rightarrow> s' = s \<and>
        (e = NotificationNotExist \<longrightarrow> \<not> list_ex (id_of i (\<lambda>n. n_producer_id n = p)) ns \<and> holds w' ns) \<and>
        ((\<exists>t. new_invalidate_at ia = Some t \<and> t \<le> now) \<longrightarrow>
          e = Validation ''invalidate_at already passed'' \<and> w' = w)"
proof -
  obtain res w1 where run: "nr_update_invalidate_at r i p (new_invalidate_at ia) w = (res, w1)" by fastforce
  from update_invalidate_at [OF assms run] run show ?thesis
    by (auto simp: update_notification_invalidate_at_def validate_invalidate_at_not_passed_def update_outcome_def
        split: option.splits sum.splits repo_error.splits)
qed

lemma find_delivered_notification_result:
  assumes h: "holds w ns" and run: "find_delivered_notification X r i u (w, s) = (res, w', s')"
  shows "res = Ok n \<Longrightarrow> \<exists>k. find (id_of i (confirmed_some u)) ns = Some k \<and>
      n = output_of_repo X (delivered_view X u None k)"
    and "res = Err NotificationNotExist \<Longrightarrow> \<not> list_ex (id_of i (confirmed_some u)) ns"
    and "holds w' ns" "s' = s"
  using run find_delivered [OF h, of i u] queries_keep(1) [OF h, of i u]
  by (auto simp: find_delivered_notification_def ok_or_def and_then_def find_None_iff list_ex_iff
      split: sum.splits prod.splits option.splits)

end

text \<open>A service's two interfaces together: the repository's contract and the announcements.\<close>

locale notifications_service = notifications_repository r X holds + announcements ps X log
  for r :: "'w notifications_repository" and X :: ext and holds :: "'w \<Rightarrow> notification list \<Rightarrow> bool"
    and ps :: "'s notifications_producer_service" and log :: "'s \<Rightarrow> announcement option list"
begin

text \<open>A notification is announced exactly when it is stored, and as it is stored.\<close>

lemma save_notification_Ok:
  assumes "holds w ns"
    and "save_notification X cfg r ps p n nv nc (w, s) = (Ok out, w', s')"
  shows "\<exists>i. out = \<lparr>nid = oid_to_hex X i\<rparr> \<and>
    (let new = new_notification X i (in_user_ids n) nc (in_invalidate_at n) p
           (in_producer_notification_id n) (in_content_type n) (in_content n)
     in fresh new ns \<and> holds w' (ns @ [new])) \<and>
    log s' = log s @ [Some \<lparr>an_user_ids = in_user_ids n, an_id = i, an_timestamp = timestamp_of X nc,
      an_change = New p False (in_content_type n) (in_content n)\<rparr>] \<and>
    validate_save_notification cfg n nv = Ok ()"
  using assms(2) insert_Ok [OF assms(1)]
  by (fastforce simp: save_notification_def announce_new split: sum.splits prod.splits)

lemma save_notification_Err:
  assumes "holds w ns"
    and "save_notification X cfg r ps p n nv nc (w, s) = (Err e, w', s')"
  shows "s' = s" "e = NotificationAlreadySaved \<Longrightarrow>
      (p, in_producer_notification_id n) \<in> producer_key ` set ns \<and> holds w' ns"
    "validate_save_notification cfg n nv = Err e' \<Longrightarrow> e = e' \<and> w' = w"
proof -
  show "s' = s" "e = NotificationAlreadySaved \<Longrightarrow>
      (p, in_producer_notification_id n) \<in> producer_key ` set ns \<and> holds w' ns"
    using assms(2) insert_duplicate [OF assms(1)]
    by (auto simp: save_notification_def validate_save_notification_Err split: sum.splits prod.splits)
  show "validate_save_notification cfg n nv = Err e' \<Longrightarrow> e = e' \<and> w' = w"
    using assms(2) by (simp add: save_notification_def)
qed

text \<open>Deletion and the seen flag: the change is announced exactly when it is stored.\<close>

lemma delete_notification_outcome:
  assumes h: "holds w ns" and run: "delete_notification r ps i u now (w, s) = (res, w', s')"
  shows "res = Ok () \<Longrightarrow> list_ex (id_of i (confirmed_some u)) ns \<and>
      holds w' (update_where (id_of i (confirmed_some u)) (mark_deleted u) ns) \<and>
      log s' = log s @ [Some \<lparr>an_user_ids = [u], an_id = i, an_timestamp = timestamp_of X now, an_change = Deleted\<rparr>]"
    and "res = Err e \<Longrightarrow> s' = s"
    and "res = Err NotificationNotExist \<Longrightarrow> \<not> list_ex (id_of i (confirmed_some u)) ns \<and> holds w' ns"
  using run delete [OF h, of i u]
  by (auto simp: delete_notification_def update_outcome_def announce_deleted split: sum.splits prod.splits)

lemma update_notification_seen_outcome:
  assumes h: "holds w ns" and run: "update_notification_seen r ps i u b now (w, s) = (res, w', s')"
  shows "res = Ok () \<Longrightarrow> list_ex (id_of i (confirmed_some u)) ns \<and>
      holds w' (update_where (id_of i (confirmed_some u)) (mark_seen u (new_seen b)) ns) \<and>
      log s' = log s @ [Some \<lparr>an_user_ids = [u], an_id = i, an_timestamp = timestamp_of X now,
        an_change = Updated (new_seen b)\<rparr>]"
    and "res = Err e \<Longrightarrow> s' = s"
    and "res = Err NotificationNotExist \<Longrightarrow> \<not> list_ex (id_of i (confirmed_some u)) ns \<and> holds w' ns"
  using run update_confirmation_seen [OF h, of i u "new_seen b"]
  by (auto simp: update_notification_seen_def update_outcome_def announce_updated split: sum.splits prod.splits)

end

lemma notifications_service_impl:
  assumes "mongo_server m" and "identifiers_ok X" and "prost_ok P"
  shows "notifications_service (notifications_repository_impl X m) X (stored m)
    (notifications_producer_service_impl X P) (map (read_announcement X P))"
  by (intro notifications_service.intro mongo_server.repository_contract impl_announcements assms)

interpretation ref_service: notifications_service
  "notifications_repository_impl ref_ext ref_server" ref_ext "stored ref_server"
  "notifications_producer_service_impl ref_ext ref_prost" "map (read_announcement ref_ext ref_prost)"
  by unfold_locales

end
