(* ===== verification/Retry.thy ===== *)
theory Retry
  imports Prelude
begin

text \<open>
  \<open>shared/rabbitmq_client/src/retry.rs\<close>: repeat an operation until it returns \<open>Ok\<close>. The outcomes
  of the successive calls are the argument \<open>f\<close>; the loop may run forever, so it is a
  \<open>partial_function\<close> whose value \<open>None\<close> is not returning. The \<open>u32\<close> attempt counter wraps around.
\<close>

partial_function (option) retry_loop ::
  "(nat \<Rightarrow> ('e, 'a) result) \<Rightarrow> nat \<Rightarrow> u32 \<Rightarrow> ('a \<times> u32) option" where
  "retry_loop f calls attempt =
    (case f calls of
       Ok output \<Rightarrow> Some (output, attempt + 1)
     | Err _ \<Rightarrow> retry_loop f (Suc calls) (attempt + 1))"

declare retry_loop.simps [code]

definition retry :: "(nat \<Rightarrow> ('e, 'a) result) \<Rightarrow> 'a option" where
  "retry f = map_option fst (retry_loop f 0 0)"

text \<open>It returns the first success, on the attempt of that number.\<close>

lemma retry_loop_first:
  assumes "f (k + n) = Ok x" and "\<And>i. i < n \<Longrightarrow> \<exists>e. f (k + i) = Err e"
  shows "retry_loop f k a = Some (x, a + of_nat n + 1)"
  using assms
proof (induction n arbitrary: k a)
  case 0
  then show ?case by (subst retry_loop.simps) simp
next
  case (Suc n)
  from Suc.prems(2) [of 0] obtain e where "f k = Err e" by auto
  then have "retry_loop f k a = retry_loop f (Suc k) (a + 1)" by (subst retry_loop.simps) simp
  also have "\<dots> = Some (x, (a + 1) + of_nat n + 1)"
    by (rule Suc.IH) (use Suc.prems in \<open>auto dest: spec [where x = "Suc _"] simp flip: add_Suc_right\<close>)
  finally show ?case by (simp add: algebra_simps)
qed

lemma retry_loop_Some_result:
  assumes "retry_loop f k a = Some r"
  shows "\<exists>n. f (k + n) = Ok (fst r) \<and> (\<forall>i < n. \<exists>e. f (k + i) = Err e)"
  using assms
proof (rule retry_loop.raw_induct [rotated, where P = "\<lambda>f k a r. \<exists>n. f (k + n) = Ok (fst r) \<and>
    (\<forall>i < n. \<exists>e. f (k + i) = Err e)"])
  fix loop f k a r
  assume IH: "\<And>f k a r. loop f k a = Some r \<Longrightarrow> \<exists>n. f (k + n) = Ok (fst r) \<and> (\<forall>i < n. \<exists>e. f (k + i) = Err e)"
    and step: "(case f k of Inl _ \<Rightarrow> loop f (Suc k) (a + 1) | Inr output \<Rightarrow> Some (output, a + 1)) = Some r"
  show "\<exists>n. f (k + n) = Ok (fst r) \<and> (\<forall>i < n. \<exists>e. f (k + i) = Err e)"
  proof (cases "f k")
    case (Inl e)
    with step have "loop f (Suc k) (a + 1) = Some r" by simp
    from IH [OF this] obtain n where n: "f (Suc k + n) = Ok (fst r)" "\<forall>i < n. \<exists>e. f (Suc k + i) = Err e" by blast
    have "\<exists>e. f (k + i) = Err e" if "i < Suc n" for i
      using that n(2) Inl by (cases i) auto
    with n(1) show ?thesis by (intro exI [of _ "Suc n"]) simp
  next
    case (Inr z)
    with step show ?thesis by (intro exI [of _ 0]) auto
  qed
qed

lemma retry_loop_Some:
  "retry_loop f k a = Some (x, b) \<Longrightarrow> \<exists>n. f (k + n) = Ok x \<and> (\<forall>i < n. \<exists>e. f (k + i) = Err e)"
  using retry_loop_Some_result [of f k a "(x, b)"] by simp

lemma retry_Some_iff:
  "retry f = Some x \<longleftrightarrow> (\<exists>n. f n = Ok x \<and> (\<forall>i < n. \<exists>e. f i = Err e))"
  using retry_loop_first [of f 0 _ x 0] retry_loop_Some [of f 0 0 x]
  by (fastforce simp: retry_def)

text \<open>It returns exactly when some attempt succeeds.\<close>

lemma retry_terminates_iff: "retry f \<noteq> None \<longleftrightarrow> (\<exists>n x. f n = Ok x)"
proof
  assume "retry f \<noteq> None"
  then show "\<exists>n x. f n = Ok x" using retry_Some_iff [of f] by blast
next
  assume "\<exists>n x. f n = Ok x"
  then obtain n where n: "\<exists>x. f n = Ok x" and least: "\<And>i. i < n \<Longrightarrow> \<not> (\<exists>x. f i = Ok x)"
    using exists_least_iff [of "\<lambda>n. \<exists>x. f n = Ok x"] by blast
  then have "\<forall>i < n. \<exists>e. f i = Err e" by (metis sum.exhaust)
  with n retry_Some_iff [of f] show "retry f \<noteq> None" by blast
qed

end
