(* ===== verification/Channels.thy ===== *)
theory Channels
  imports Prelude
begin

text \<open>
  \<open>tokio::sync::mpsc\<close> unbounded channels, which the state machines own. They are not code of this
  repository: a channel type is the record \<open>mpsc\<close>, a parameter, and its documented behaviour, a
  first-in first-out queue that never refuses a value, is the locale \<open>unbounded_channel\<close>.
\<close>

record ('a, 'q) mpsc =
  ch_send :: "'a \<Rightarrow> 'q \<Rightarrow> 'q"
  ch_recv :: "'q \<Rightarrow> ('a \<times> 'q) option"
  ch_is_empty :: "'q \<Rightarrow> bool"
  ch_items :: "'q \<Rightarrow> 'a list"

locale unbounded_channel =
  fixes ch :: "('a, 'q) mpsc"
  assumes send_items [simp]: "ch_items ch (ch_send ch x q) = ch_items ch q @ [x]"
    and recv_None: "ch_recv ch q = None \<longleftrightarrow> ch_items ch q = []"
    and recv_Some: "ch_recv ch q = Some (x, q') \<Longrightarrow> ch_items ch q = x # ch_items ch q'"
    and is_empty [simp]: "ch_is_empty ch q \<longleftrightarrow> ch_items ch q = []"
begin

lemma recv_cases:
  assumes "ch_items ch q = x # xs"
  obtains q' where "ch_recv ch q = Some (x, q')" "ch_items ch q' = xs"
proof (cases "ch_recv ch q")
  case None
  with assms show ?thesis by (simp add: recv_None)
next
  case (Some p)
  then obtain y q' where p: "ch_recv ch q = Some (y, q')" by (cases p) auto
  from recv_Some [OF p] assms p that show ?thesis by simp
qed

lemma fold_send_items: "ch_items ch (fold (ch_send ch) xs q) = ch_items ch q @ xs"
  by (induction xs arbitrary: q) simp_all

end

definition list_channel :: "('a, 'a list) mpsc" where
  "list_channel =
    \<lparr> ch_send = (\<lambda>x q. q @ [x]),
      ch_recv = (\<lambda>q. case q of [] \<Rightarrow> None | x # q' \<Rightarrow> Some (x, q')),
      ch_is_empty = (\<lambda>q. q = []), ch_items = (\<lambda>q. q) \<rparr>"

interpretation list_channel: unbounded_channel list_channel
  by unfold_locales (auto simp: list_channel_def split: list.splits)

end
