(* ===== verification/Rabbit_Consumer.thy ===== *)
theory Rabbit_Consumer
  imports Retry Channels
begin

text \<open>
  \<open>shared/rabbitmq_client/src/consumer\<close>: the task that keeps a consumer alive, as a state machine
  whose states are those of \<open>state_machine.rs\<close>, and the processing of deliveries, where every
  delivery is processed by a task of its own and the responses are sent by one response task.
  What \<open>amqprs\<close> and the server do is an input. The calls of the status callback are recorded, in
  order, in \<open>km_statuses\<close>.
\<close>

section \<open>The state machine\<close>

record consume_error =
  requeue :: bool

datatype consumer_status = Consuming | Recovering

datatype consumer_state = ConsumerOk | ConsumerWaitingForConnection | ConsumerRecreatingChannel
  | RestoringConsumer

record 'c consumer_machine =
  km_connection :: "'c option"
  km_in_ok :: bool \<comment> \<open>inside the \<open>select!\<close> of \<open>ok_state\<close>\<close>
  km_statuses :: "consumer_status list"
  km_state :: consumer_state

text \<open>The queue bindings, one after the other, up to the first failure.\<close>

fun bind_all :: "('e, unit) result list \<Rightarrow> ('e, unit) result" where
  "bind_all [] = Ok ()"
| "bind_all (b # bs) = and_then b (\<lambda>_. bind_all bs)"

definition consumer_new :: "'e \<Rightarrow> 'c option \<Rightarrow> ('e, unit) result \<Rightarrow> ('e, unit) result \<Rightarrow> ('e, unit) result \<Rightarrow>
    ('e, unit) result \<Rightarrow> ('e, unit) result list \<Rightarrow> ('e, unit) result \<Rightarrow> ('e, 'c consumer_machine) result" where
  "consumer_new no_connection connection opened registered exchange queue binds consumed =
    and_then (ok_or no_connection connection) (\<lambda>c.
    and_then opened (\<lambda>_. and_then registered (\<lambda>_. and_then exchange (\<lambda>_. and_then queue (\<lambda>_.
    and_then (bind_all binds) (\<lambda>_. and_then consumed (\<lambda>_. Ok
      \<lparr>km_connection = Some c, km_in_ok = False, km_statuses = [], km_state = ConsumerOk\<rparr>)))))))"

definition consumer_ok_enter :: "'c consumer_machine \<Rightarrow> 'c consumer_machine" where
  "consumer_ok_enter k = k\<lparr>km_in_ok := True, km_statuses := km_statuses k @ [Consuming]\<rparr>"

datatype consumer_branch = ConsumerConnectionChanged | ConsumerCancelled

definition consumer_ok_leave :: "consumer_branch \<Rightarrow> 'c consumer_machine \<Rightarrow> 'c consumer_machine" where
  "consumer_ok_leave branch k =
    k\<lparr>km_in_ok := False, km_statuses := km_statuses k @ [Recovering],
      km_state := (case branch of ConsumerConnectionChanged \<Rightarrow> ConsumerWaitingForConnection
                   | ConsumerCancelled \<Rightarrow> RestoringConsumer)\<rparr>"

text \<open>
  The channel's callbacks: the server's cancellation of the consumer leaves a permit in
  \<open>consumer_cancelled\<close> (a \<open>Notify\<close>), everything else is at most logged. \<open>ok_state\<close> waits for a
  changed connection or for the permit, the connection first (\<open>biased\<close>).
\<close>

datatype consumer_channel_event = CloseReceived | CancelReceived | FlowReceived bool | AckReceived | NackReceived
  | ReturnReceived

fun consumer_callback :: "consumer_channel_event \<Rightarrow> bool \<Rightarrow> bool" where
  "consumer_callback CloseReceived permit = permit"
| "consumer_callback CancelReceived permit = True"
| "consumer_callback (FlowReceived active) permit = permit"
| "consumer_callback AckReceived permit = permit"
| "consumer_callback NackReceived permit = permit"
| "consumer_callback ReturnReceived permit = permit"

definition consumer_ok_select :: "bool \<Rightarrow> bool \<Rightarrow> consumer_branch option" where
  "consumer_ok_select connection_changed permit =
    (if connection_changed then Some ConsumerConnectionChanged else if permit then Some ConsumerCancelled else None)"

lemma consumer_callbacks_permit: "fold consumer_callback evs permit \<longleftrightarrow> permit \<or> CancelReceived \<in> set evs"
proof (induction evs arbitrary: permit)
  case (Cons ev evs)
  then show ?case by (cases ev) auto
qed simp

text \<open>
  Only a new connection or a cancellation ends \<open>ok_state\<close>: a channel that the server closes on a
  connection that stays open goes unnoticed, and the consumer is reported \<open>Consuming\<close> for ever.
\<close>

lemma closed_channel_goes_unnoticed:
  "consumer_ok_select connection_changed (fold consumer_callback evs False) = None \<longleftrightarrow>
     \<not> connection_changed \<and> CancelReceived \<notin> set evs"
  "consumer_ok_select False (fold consumer_callback [CloseReceived] False) = None"
  by (simp_all add: consumer_ok_select_def consumer_callbacks_permit)

partial_function (option) consumer_waiting_for_connection :: "(nat \<Rightarrow> 'c option) \<Rightarrow> nat \<Rightarrow>
    'c consumer_machine \<Rightarrow> 'c consumer_machine option" where
  "consumer_waiting_for_connection reads i k =
    (case reads i of
       Some c \<Rightarrow> Some (k\<lparr>km_connection := Some c, km_state := ConsumerRecreatingChannel\<rparr>)
     | None \<Rightarrow> consumer_waiting_for_connection reads (Suc i) (k\<lparr>km_connection := None\<rparr>))"

text \<open>With no connection, \<open>self.connection.as_ref().unwrap()\<close> panics.\<close>

datatype 'e channel_branch = ChannelConnectionChanged
  | RecreateChannel "nat \<Rightarrow> ('e, unit) result" "nat \<Rightarrow> ('e, unit) result"

definition consumer_recreating_channel :: "'e channel_branch \<Rightarrow> 'c consumer_machine \<Rightarrow>
    (unit, 'c consumer_machine) result option" where
  "consumer_recreating_channel branch k =
    (case branch of
       ChannelConnectionChanged \<Rightarrow> Some (Ok (k\<lparr>km_state := ConsumerWaitingForConnection\<rparr>))
     | RecreateChannel opens registers \<Rightarrow>
         (case km_connection k of
            None \<Rightarrow> Some (Err ())
          | Some _ \<Rightarrow>
              (case retry opens of
                 None \<Rightarrow> None
               | Some _ \<Rightarrow> map_option (\<lambda>_. Ok (k\<lparr>km_state := RestoringConsumer\<rparr>)) (retry registers))))"

definition try_restore_consumer :: "('e, unit) result \<Rightarrow> ('e, unit) result \<Rightarrow> ('e, unit) result list \<Rightarrow>
    ('e, unit) result \<Rightarrow> (string, unit) result" where
  "try_restore_consumer exchange queue binds consumed =
    and_then (map_err (\<lambda>_. ''failed to recreate exchange'') exchange) (\<lambda>_.
    and_then (map_err (\<lambda>_. ''failed to recreate queue'') queue) (\<lambda>_.
    and_then (map_err (\<lambda>_. ''failed to bind queue'') (bind_all binds)) (\<lambda>_.
    map_err (\<lambda>_. ''failed to consume'') consumed)))"

datatype 'e consumer_restore_branch = ConsumerRestoreConnectionChanged
  | RestoreConsumer "('e, unit) result" "('e, unit) result" "('e, unit) result list" "('e, unit) result"

definition consumer_restoring :: "'e consumer_restore_branch \<Rightarrow> 'c consumer_machine \<Rightarrow> 'c consumer_machine" where
  "consumer_restoring branch k =
    (case branch of
       ConsumerRestoreConnectionChanged \<Rightarrow> k\<lparr>km_state := ConsumerWaitingForConnection\<rparr>
     | RestoreConsumer exchange queue binds consumed \<Rightarrow>
         (case try_restore_consumer exchange queue binds consumed of
            Ok _ \<Rightarrow> k\<lparr>km_state := ConsumerOk\<rparr>
          | Err _ \<Rightarrow> k\<lparr>km_state := ConsumerRecreatingChannel\<rparr>))"

text \<open>Errors of \<open>amqprs\<close> are only logged: their texts.\<close>

type_synonym amqp_error = string

inductive consumer_step :: "'c consumer_machine \<Rightarrow> 'c consumer_machine \<Rightarrow> bool" where
  enter: "km_state k = ConsumerOk \<Longrightarrow> \<not> km_in_ok k \<Longrightarrow> consumer_step k (consumer_ok_enter k)"
| leave: "km_state k = ConsumerOk \<Longrightarrow> km_in_ok k \<Longrightarrow> consumer_step k (consumer_ok_leave b k)"
| wait: "km_state k = ConsumerWaitingForConnection \<Longrightarrow>
    consumer_waiting_for_connection reads 0 k = Some k' \<Longrightarrow> consumer_step k k'"
| recreate: "km_state k = ConsumerRecreatingChannel \<Longrightarrow>
    consumer_recreating_channel (cb :: amqp_error channel_branch) k = Some (Ok k') \<Longrightarrow> consumer_step k k'"
| restore: "km_state k = RestoringConsumer \<Longrightarrow>
    consumer_step k (consumer_restoring (rb :: amqp_error consumer_restore_branch) k)"

inductive_cases consumer_stepE: "consumer_step k k'"

lemma consumer_waiting_Some:
  assumes "consumer_waiting_for_connection reads i k = Some k'"
  shows "\<exists>c. k' = k\<lparr>km_connection := Some c, km_state := ConsumerRecreatingChannel\<rparr>"
  using assms
proof (rule consumer_waiting_for_connection.raw_induct [rotated, where P = "\<lambda>reads i k k'.
    \<exists>c. k' = k\<lparr>km_connection := Some c, km_state := ConsumerRecreatingChannel\<rparr>"])
  fix loop reads i k k'
  assume IH: "\<And>reads i k k'. loop reads i k = Some k' \<Longrightarrow>
      \<exists>c. k' = k\<lparr>km_connection := Some c, km_state := ConsumerRecreatingChannel\<rparr>"
    and step: "(case reads i of
        None \<Rightarrow> loop reads (Suc i) (k\<lparr>km_connection := None\<rparr>)
      | Some c \<Rightarrow> Some (k\<lparr>km_connection := Some c, km_state := ConsumerRecreatingChannel\<rparr>)) = Some k'"
  show "\<exists>c. k' = k\<lparr>km_connection := Some c, km_state := ConsumerRecreatingChannel\<rparr>"
    using step IH [of reads "Suc i" "k\<lparr>km_connection := None\<rparr>"] by (cases "reads i") auto
qed

text \<open>
  The callback is told the truth: the statuses alternate, beginning with \<open>Consuming\<close>, and the
  last one is \<open>Consuming\<close> exactly while the machine waits in its working state.
\<close>

fun alternating :: "consumer_status list \<Rightarrow> bool" where
  "alternating [] \<longleftrightarrow> True"
| "alternating [s] \<longleftrightarrow> True"
| "alternating (s # t # ss) \<longleftrightarrow> s \<noteq> t \<and> alternating (t # ss)"

definition consumer_wf :: "'c consumer_machine \<Rightarrow> bool" where
  "consumer_wf k \<longleftrightarrow> km_connection k \<noteq> None \<and> alternating (km_statuses k) \<and>
     (km_statuses k \<noteq> [] \<longrightarrow> hd (km_statuses k) = Consuming) \<and>
     (km_in_ok k \<longrightarrow> km_state k = ConsumerOk) \<and>
     (if km_statuses k = [] then \<not> km_in_ok k else (last (km_statuses k) = Consuming \<longleftrightarrow> km_in_ok k))"

lemma alternating_snoc: "alternating (ss @ [s]) \<longleftrightarrow> alternating ss \<and> (ss \<noteq> [] \<longrightarrow> last ss \<noteq> s)"
  by (induction ss rule: alternating.induct) auto

lemma consumer_new_wf:
  "consumer_new e c opened registered exchange queue binds consumed = Ok k \<Longrightarrow> consumer_wf k"
  by (auto simp: consumer_new_def and_then_Ok_iff consumer_wf_def)

lemma consumer_status_cases: "s = Consuming \<or> s = Recovering" for s
  by (cases s) auto

lemma consumer_step_wf: "consumer_step k k' \<Longrightarrow> consumer_wf k \<Longrightarrow> consumer_wf k'"
proof (erule consumer_stepE)
  assume "k' = consumer_ok_enter k" "\<not> km_in_ok k" "km_state k = ConsumerOk" "consumer_wf k"
  then show ?thesis
    by (auto simp: consumer_ok_enter_def consumer_wf_def alternating_snoc hd_append split: if_splits)
next
  fix b assume "k' = consumer_ok_leave b k" "km_in_ok k" "consumer_wf k"
  then show ?thesis
    by (auto simp: consumer_ok_leave_def consumer_wf_def alternating_snoc hd_append split: if_splits)
next
  fix reads assume "consumer_waiting_for_connection reads 0 k = Some k'"
    "km_state k = ConsumerWaitingForConnection" "consumer_wf k"
  then show ?thesis using consumer_waiting_Some [of reads 0 k k'] by (auto simp: consumer_wf_def)
next
  fix cb assume "consumer_recreating_channel cb k = Some (Ok k')" "km_state k = ConsumerRecreatingChannel"
    "consumer_wf k"
  then show ?thesis
    by (auto simp: consumer_recreating_channel_def consumer_wf_def
        split: channel_branch.splits option.splits)
next
  fix rb assume "k' = consumer_restoring rb k" "km_state k = RestoringConsumer" "consumer_wf k"
  then show ?thesis
    by (auto simp: consumer_restoring_def consumer_wf_def
        split: consumer_restore_branch.splits sum.splits)
qed

lemma consumer_run_wf: "consumer_step\<^sup>*\<^sup>* k k' \<Longrightarrow> consumer_wf k \<Longrightarrow> consumer_wf k'"
  by (induction rule: rtranclp_induct) (auto intro: consumer_step_wf)

lemma consumer_never_panics: "consumer_wf k \<Longrightarrow> consumer_recreating_channel b k \<noteq> Some (Err ())"
  by (auto simp: consumer_wf_def consumer_recreating_channel_def split: channel_branch.splits option.splits)

text \<open>A lost connection or a cancelled consumer is repaired when every call succeeds at some attempt.\<close>

lemma consumer_recovers:
  fixes opens registers :: "nat \<Rightarrow> (amqp_error, unit) result" and reads :: "nat \<Rightarrow> 'c option"
  assumes "consumer_wf k" and "km_in_ok k" and "reads 0 = Some c" and "opens i = Ok ()" and "registers j = Ok ()"
  shows "\<exists>k'. consumer_step\<^sup>*\<^sup>* k k' \<and> km_in_ok k' \<and> km_connection k' = Some c \<and>
    km_statuses k' = km_statuses k @ [Recovering, Consuming]"
proof -
  have u: "retry opens = Some ()" "retry registers = Some ()"
    using assms(4,5) retry_terminates_iff [of opens] retry_terminates_iff [of registers] by auto
  let ?k1 = "consumer_ok_leave ConsumerConnectionChanged k"
  let ?k2 = "?k1\<lparr>km_connection := Some c, km_state := ConsumerRecreatingChannel\<rparr>"
  let ?k3 = "?k2\<lparr>km_state := RestoringConsumer\<rparr>"
  let ?k4 = "consumer_restoring (RestoreConsumer (Ok ()) (Ok ()) [] (Ok ()) :: amqp_error consumer_restore_branch) ?k3"
  have "consumer_step k ?k1"
    using assms(1,2) by (intro consumer_step.leave) (auto simp: consumer_wf_def)
  moreover have "consumer_step ?k1 ?k2"
    by (rule consumer_step.wait [of _ reads])
      (simp_all add: consumer_ok_leave_def consumer_waiting_for_connection.simps assms(3))
  moreover have "consumer_step ?k2 ?k3"
    by (rule consumer_step.recreate [of _ "RecreateChannel opens registers"])
      (simp_all add: consumer_recreating_channel_def u)
  moreover have "consumer_step ?k3 ?k4"
    by (rule consumer_step.restore) simp
  moreover have "consumer_step ?k4 (consumer_ok_enter ?k4)"
    by (rule consumer_step.enter)
      (simp_all add: consumer_restoring_def try_restore_consumer_def consumer_ok_leave_def)
  ultimately have "consumer_step\<^sup>*\<^sup>* k (consumer_ok_enter ?k4)"
    by (meson converse_rtranclp_into_rtranclp rtranclp.rtrancl_refl)
  then show ?thesis
    by (intro exI [of _ "consumer_ok_enter ?k4"])
      (simp add: consumer_ok_enter_def consumer_restoring_def try_restore_consumer_def consumer_ok_leave_def)
qed

section \<open>Deliveries\<close>

datatype delivery_response = AckDelivery u64 | NackDelivery u64 bool

text \<open>\<open>ProcessingTask::run\<close>: the callback on the content, its result as the response.\<close>

definition processing_task_run :: "(bytes \<Rightarrow> 's \<Rightarrow> (consume_error, unit) result \<times> 's) \<Rightarrow> u64 \<Rightarrow> bytes \<Rightarrow>
    's \<Rightarrow> delivery_response \<times> 's" where
  "processing_task_run callback tag cont s =
    (case callback cont s of
       (Ok _, s') \<Rightarrow> (AckDelivery tag, s')
     | (Err e, s') \<Rightarrow> (NackDelivery tag (requeue e), s'))"

text \<open>
  The consumer on one channel: the tasks spawned and not finished, the response queue, whether the
  consumer still holds the sender of it (a task upgrades its weak sender), the responses sent to
  the server, and the world of the callback.
\<close>

record ('s, 'q) deliveries =
  d_tasks :: "(u64 \<times> bytes) list"
  d_responses :: 'q
  d_alive :: bool
  d_sent :: "delivery_response list"
  d_world :: 's

definition consume :: "u64 \<Rightarrow> bytes \<Rightarrow> ('s, 'q) deliveries \<Rightarrow> ('s, 'q) deliveries" where
  "consume tag cont d = d\<lparr>d_tasks := d_tasks d @ [(tag, cont)]\<rparr>"

text \<open>The scheduler picks any unfinished task.\<close>

definition finish_task :: "(delivery_response, 'q) mpsc \<Rightarrow> (bytes \<Rightarrow> 's \<Rightarrow> (consume_error, unit) result \<times> 's) \<Rightarrow>
    nat \<Rightarrow> ('s, 'q) deliveries \<Rightarrow> ('s, 'q) deliveries option" where
  "finish_task ch callback i d =
    (case remove_at i (d_tasks d) of
       None \<Rightarrow> None
     | Some ((tag, cont), tasks) \<Rightarrow>
         (case processing_task_run callback tag cont (d_world d) of
            (response, s') \<Rightarrow>
              Some (d\<lparr>d_tasks := tasks, d_world := s',
                d_responses := (if d_alive d then ch_send ch response (d_responses d) else d_responses d)\<rparr>)))"

definition respond :: "(delivery_response, 'q) mpsc \<Rightarrow> ('s, 'q) deliveries \<Rightarrow> ('s, 'q) deliveries option" where
  "respond ch d =
    (case ch_recv ch (d_responses d) of
       None \<Rightarrow> None
     | Some (response, q) \<Rightarrow> Some (d\<lparr>d_responses := q, d_sent := d_sent d @ [response]\<rparr>))"

text \<open>The consumer is dropped, and the sender of the response queue with it.\<close>

definition drop_consumer :: "('s, 'q) deliveries \<Rightarrow> ('s, 'q) deliveries" where
  "drop_consumer d = d\<lparr>d_alive := False\<rparr>"

fun response_tag :: "delivery_response \<Rightarrow> u64" where
  "response_tag (AckDelivery t) = t"
| "response_tag (NackDelivery t _) = t"

inductive delivery_run :: "(delivery_response, 'q) mpsc \<Rightarrow> (bytes \<Rightarrow> 's \<Rightarrow> (consume_error, unit) result \<times> 's) \<Rightarrow>
    ('s, 'q) deliveries \<Rightarrow> u64 list \<Rightarrow> ('s, 'q) deliveries \<Rightarrow> bool"
  for ch callback d0 where
  start: "delivery_run ch callback d0 [] d0"
| consume: "delivery_run ch callback d0 ts d \<Longrightarrow> delivery_run ch callback d0 (ts @ [t]) (consume t cont d)"
| finish: "delivery_run ch callback d0 ts d \<Longrightarrow> finish_task ch callback i d = Some d' \<Longrightarrow>
    delivery_run ch callback d0 ts d'"
| respond: "delivery_run ch callback d0 ts d \<Longrightarrow> respond ch d = Some d' \<Longrightarrow> delivery_run ch callback d0 ts d'"
| dropped: "delivery_run ch callback d0 ts d \<Longrightarrow> delivery_run ch callback d0 ts (drop_consumer d)"

lemma remove_at_Some_mset:
  "remove_at i xs = Some (x, ys) \<Longrightarrow> mset xs = add_mset x (mset ys)"
  by (induction i xs arbitrary: ys rule: remove_at.induct) (auto split: prod.splits)

lemma finish_task_alive: "finish_task ch callback i d = Some d' \<Longrightarrow> d_alive d' = d_alive d"
  by (auto simp: finish_task_def split: option.splits prod.splits)

lemma processing_task_tag: "response_tag (fst (processing_task_run callback tag cont s)) = tag"
  by (simp add: processing_task_run_def split: prod.splits sum.splits)

definition delivery_tags :: "(delivery_response, 'q) mpsc \<Rightarrow> ('s, 'q) deliveries \<Rightarrow> u64 multiset" where
  "delivery_tags ch d = mset (map fst (d_tasks d)) + mset (map response_tag (ch_items ch (d_responses d))) +
     mset (map response_tag (d_sent d))"

text \<open>
  While the consumer lives, every delivery is in processing, waiting for its response, or answered,
  once; a consumer that is dropped may leave deliveries unanswered, but answers none twice.
\<close>

lemma finish_task_tags:
  assumes "unbounded_channel ch" and "finish_task ch callback i d = Some d'"
  shows "delivery_tags ch d' \<subseteq># delivery_tags ch d \<and> (d_alive d \<longrightarrow> delivery_tags ch d' = delivery_tags ch d)"
proof -
  from assms(2) obtain tag cont tasks where rem: "remove_at i (d_tasks d) = Some ((tag, cont), tasks)"
    by (auto simp: finish_task_def split: option.splits)
  obtain response s' where p: "processing_task_run callback tag cont (d_world d) = (response, s')" by fastforce
  have tag: "response_tag response = tag" using processing_task_tag [of callback tag cont "d_world d"] p by simp
  have d': "d' = d\<lparr>d_tasks := tasks, d_world := s',
      d_responses := (if d_alive d then ch_send ch response (d_responses d) else d_responses d)\<rparr>"
    using assms(2) rem p by (simp add: finish_task_def)
  have "mset (map fst (d_tasks d)) = add_mset tag (mset (map fst tasks))"
    using remove_at_Some_mset [OF rem] by simp
  with d' tag show ?thesis
    by (simp add: delivery_tags_def unbounded_channel.send_items [OF assms(1)] subset_mset.add_increasing)
qed

lemma respond_tags:
  assumes "unbounded_channel ch" and "respond ch d = Some d'"
  shows "delivery_tags ch d' = delivery_tags ch d \<and> d_alive d' = d_alive d"
proof -
  from assms(2) obtain response q where r: "ch_recv ch (d_responses d) = Some (response, q)"
    and d': "d' = d\<lparr>d_responses := q, d_sent := d_sent d @ [response]\<rparr>"
    by (auto simp: respond_def split: option.splits)
  then show ?thesis
    by (simp add: delivery_tags_def unbounded_channel.recv_Some [OF assms(1) r])
qed

lemma delivery_run_conserves:
  assumes "unbounded_channel ch" and "delivery_run ch callback d0 ts d"
  shows "delivery_tags ch d \<subseteq># delivery_tags ch d0 + mset ts \<and>
    (d_alive d \<longrightarrow> delivery_tags ch d = delivery_tags ch d0 + mset ts)"
  using assms(2)
proof (induction rule: delivery_run.induct)
  case start
  then show ?case by simp
next
  case (consume ts d t cont)
  have "delivery_tags ch (Rabbit_Consumer.consume t cont d) = add_mset t (delivery_tags ch d)"
    by (simp add: consume_def delivery_tags_def)
  with consume show ?case by (simp add: consume_def)
next
  case (finish ts d i d')
  with finish_task_tags [OF assms(1) finish.hyps(2)] finish_task_alive [OF finish.hyps(2)]
  show ?case by (auto intro: subset_mset.order_trans)
next
  case (respond ts d d')
  with respond_tags [OF assms(1) respond.hyps(2)] show ?case by simp
next
  case (dropped ts d)
  then show ?case by (simp add: drop_consumer_def delivery_tags_def)
qed

end
