(* ===== verification/Jwt_Auth.thy ===== *)
theory Jwt_Auth
  imports Core_Types
begin

text \<open>
  \<open>shared/jwt_auth\<close>: the authenticated user, the role check, the middleware that turns the
  \<open>Authorization\<close> header into a user or answers 401, and the parsing of the configured
  algorithms and key. Header text conversion (\<open>http\<close>), token validation and key construction
  (\<open>jsonwebtoken\<close>) are third-party: they are the fields of the record \<open>jwt\<close>.
\<close>

section \<open>Users and roles\<close>

record user =
  user_id :: uuid
  roles :: "string list"

record claims =
  sub :: uuid
  realm_roles :: "string list"

fun require_all_roles :: "user \<Rightarrow> string list \<Rightarrow> (missing_role_error, unit) result" where
  "require_all_roles u [] = Ok ()"
| "require_all_roles u (role # rs) =
     (if list_ex (\<lambda>user_role. user_role = role) (roles u) then require_all_roles u rs
      else Err \<lparr>missing_role = role\<rparr>)"

lemma require_all_roles_Ok_iff: "require_all_roles u rs = Ok () \<longleftrightarrow> set rs \<subseteq> set (roles u)"
  by (induction rs) (auto simp: list_ex_iff)

text \<open>The reported role is the first of the required ones that the user lacks.\<close>

lemma require_all_roles_find:
  "require_all_roles u rs = (case find (\<lambda>r. r \<notin> set (roles u)) rs of
     None \<Rightarrow> Ok () | Some r \<Rightarrow> Err \<lparr>missing_role = r\<rparr>)"
  by (induction rs) (auto simp: list_ex_iff)

section \<open>The middleware\<close>

datatype algorithm = HS256 | HS384 | HS512 | ES256 | ES384 | RS256 | RS384 | RS512 | PS256 | PS384 | PS512 | EdDSA

record 'k jwt =
  header_to_str :: "bytes \<Rightarrow> string option"
  decode_claims :: "string \<Rightarrow> 'k \<Rightarrow> algorithm list \<Rightarrow> claims option"
  algorithm_from_str :: "string \<Rightarrow> algorithm option"
  from_secret :: "string \<Rightarrow> 'k"
  from_ec_pem :: "string \<Rightarrow> 'k option"
  from_rsa_pem :: "string \<Rightarrow> 'k option"

datatype auth_error = MissingHeader | IllegalCharacter | UnsupportedType | InvalidJwt

definition starts_with :: "string \<Rightarrow> string \<Rightarrow> bool" where
  "starts_with s prefix \<longleftrightarrow> take (length prefix) s = prefix"

text \<open>\<open>str::get(n..)\<close> on a header value, whose characters are visible ASCII.\<close>

definition get_from :: "nat \<Rightarrow> string \<Rightarrow> string option" where
  "get_from n s = (if n \<le> length s then Some (drop n s) else None)"

definition parse_authorization_header :: "'k jwt \<Rightarrow> 'k \<Rightarrow> algorithm list \<Rightarrow> bytes option \<Rightarrow>
    (auth_error, user) result" where
  "parse_authorization_header J key algorithms authorization_header =
    (case authorization_header of
       None \<Rightarrow> Err MissingHeader
     | Some h \<Rightarrow>
         (case header_to_str J h of
            None \<Rightarrow> Err IllegalCharacter
          | Some v \<Rightarrow>
              (if \<not> starts_with v ''Bearer'' then Err UnsupportedType
               else (case get_from (length ''Bearer '') v of
                  None \<Rightarrow> Err InvalidJwt
                | Some token \<Rightarrow>
                    (case decode_claims J token key algorithms of
                       None \<Rightarrow> Err InvalidJwt
                     | Some c \<Rightarrow> Ok \<lparr>user_id = sub c, roles = realm_roles c\<rparr>)))))"

record 'b request =
  authorization :: "bytes option"
  extension :: "user option"
  body :: 'b

record 'b response =
  response_status :: status_code
  response_body :: "'b option"

datatype 'f jwt_auth_future = Authorized 'f | Unauthorized

text \<open>\<open>Service::call\<close>: the inner service is only called with the user put into the extensions.\<close>

definition call :: "'k jwt \<Rightarrow> 'k \<Rightarrow> algorithm list \<Rightarrow> ('b request \<Rightarrow> 'f) \<Rightarrow> 'b request \<Rightarrow> 'f jwt_auth_future" where
  "call J key algorithms inner req =
    (case parse_authorization_header J key algorithms (authorization req) of
       Ok u \<Rightarrow> Authorized (inner (req\<lparr>extension := Some u\<rparr>))
     | Err _ \<Rightarrow> Unauthorized)"

text \<open>\<open>Future::poll\<close>: \<open>None\<close> is \<open>Poll::Pending\<close>.\<close>

definition poll :: "('f \<Rightarrow> 'f \<times> ('e, 'b response) result option) \<Rightarrow> 'f jwt_auth_future \<Rightarrow>
    'f jwt_auth_future \<times> ('e, 'b response) result option" where
  "poll inner_poll fut =
    (case fut of
       Authorized inner \<Rightarrow> (case inner_poll inner of (inner', r) \<Rightarrow> (Authorized inner', r))
     | Unauthorized \<Rightarrow>
         (Unauthorized, Some (Ok \<lparr>response_status = UNAUTHORIZED, response_body = None\<rparr>)))"

lemma parse_authorization_header_Ok_iff:
  "parse_authorization_header J key algs h = Ok u \<longleftrightarrow>
     (\<exists>b v c. h = Some b \<and> header_to_str J b = Some v \<and> starts_with v ''Bearer'' \<and> 7 \<le> length v \<and>
       decode_claims J (drop 7 v) key algs = Some c \<and> u = \<lparr>user_id = sub c, roles = realm_roles c\<rparr>)"
  by (auto simp: parse_authorization_header_def get_from_def numeral_eq_Suc split: option.splits)

section \<open>Configuration\<close>

text \<open>\<open>str::split(',')\<close>: the pieces between the commas, one more than there are commas.\<close>

fun split_on :: "char \<Rightarrow> string \<Rightarrow> string list" where
  "split_on c [] = [[]]"
| "split_on c (x # xs) =
     (if x = c then [] # split_on c xs
      else (case split_on c xs of [] \<Rightarrow> [[x]] | w # ws \<Rightarrow> (x # w) # ws))"

fun parse_algorithms_loop :: "'k jwt \<Rightarrow> string list \<Rightarrow> algorithm list \<Rightarrow> (string, algorithm list) result" where
  "parse_algorithms_loop J [] algorithms = Ok algorithms"
| "parse_algorithms_loop J (s # ss) algorithms =
     (case algorithm_from_str J s of
        None \<Rightarrow> Err ''invalid algorithm''
      | Some a \<Rightarrow> parse_algorithms_loop J ss (algorithms @ [a]))"

definition parse_jwt_algorithms :: "'k jwt \<Rightarrow> string \<Rightarrow> (string, algorithm list) result" where
  "parse_jwt_algorithms J s = parse_algorithms_loop J (split_on (CHR '','') s) []"

definition parse_jwt_key :: "'k jwt \<Rightarrow> algorithm \<Rightarrow> string \<Rightarrow> (string, 'k) result" where
  "parse_jwt_key J a key =
    (if a \<in> {HS256, HS384, HS512} then Ok (from_secret J key)
     else if a \<in> {ES256, ES384} then ok_or ''invalid ec pem key'' (from_ec_pem J key)
     else if a \<in> {RS256, RS384, RS512} then ok_or ''invalid rsa pem key'' (from_rsa_pem J key)
     else if a \<in> {PS256, PS384, PS512} then ok_or ''invalid rsa pem key'' (from_rsa_pem J key)
     else ok_or ''invalid ec pem key'' (from_ec_pem J key))"

lemma split_on_not_Nil: "split_on c s \<noteq> []"
  by (induction s) (auto split: list.splits)

lemma parse_algorithms_loop_Ok:
  "parse_algorithms_loop J ss algs = Ok as \<longleftrightarrow>
     (\<exists>bs. as = algs @ bs \<and> list_all2 (\<lambda>s a. algorithm_from_str J s = Some a) ss bs)"
proof (induction ss arbitrary: algs)
  case Nil
  then show ?case by auto
next
  case (Cons s ss)
  then show ?case
    by (cases "algorithm_from_str J s") (auto simp: list_all2_Cons1)
qed

lemma parse_jwt_algorithms_Ok:
  assumes "parse_jwt_algorithms J s = Ok as"
  shows "as \<noteq> []" "list_all2 (\<lambda>t a. algorithm_from_str J t = Some a) (split_on (CHR '','') s) as"
  using assms split_on_not_Nil [of "CHR '',''" s]
  by (auto simp: parse_jwt_algorithms_def parse_algorithms_loop_Ok)

end
