(* ===== verification/Core_Server.thy ===== *)
theory Core_Server
  imports Notifications_Service Rabbit_Consumer Jwt_Auth
begin

text \<open>
  The whole of \<open>tom-notifier-core\<close>: the consumer of confirmations, the HTTP handlers of
  \<open>routing.rs\<close> with their role checks and status codes, the application behind the authentication
  layer, and its runs: requests and confirmations in any order, from any user.
\<close>

section \<open>The confirmations consumer\<close>

record confirmation_dto =
  cd_user_id :: uuid
  cd_id :: object_id

definition confirmation_try_from :: "ext \<Rightarrow> rabbitmq_confirmation_protobuf \<Rightarrow> (string, confirmation_dto) result" where
  "confirmation_try_from X value' =
     and_then (ok_or ''invalid user_id'' (uuid_from_str X (rcp_user_id value'))) (\<lambda>u.
     and_then (ok_or ''invalid id'' (oid_from_str X (rcp_id value'))) (\<lambda>i.
     Ok \<lparr>cd_user_id = u, cd_id = i\<rparr>))"

definition confirmation_callback :: "ext \<Rightarrow> prost \<Rightarrow> 'w notifications_repository \<Rightarrow> offset_date_time \<Rightarrow>
    bytes \<Rightarrow> 'w \<Rightarrow> (consume_error, unit) result \<times> 'w" where
  "confirmation_callback X P r now cont w =
    (case decode_rabbitmq_confirmation P cont of
       None \<Rightarrow> (Err \<lparr>requeue = False\<rparr>, w)
     | Some message \<Rightarrow>
         (case confirmation_try_from X message of
            Err _ \<Rightarrow> (Err \<lparr>requeue = False\<rparr>, w)
          | Ok c \<Rightarrow>
              (case nr_insert_confirmation r (cd_id c) (cd_user_id c) now w of
                 (Ok _, w') \<Rightarrow> (Ok (), w')
               | (Err NoDocumentUpdated, w') \<Rightarrow> (Ok (), w')
               | (Err _, w') \<Rightarrow> (Err \<lparr>requeue = True\<rparr>, w'))))"

section \<open>The HTTP handlers\<close>

definition ProduceNotifications :: string where
  "ProduceNotifications = ''tom_notifier_produce_notifications''"

text \<open>A request that axum's extractors accepted: one constructor per route of \<open>routing()\<close>.\<close>

datatype core_request =
    PostUndelivered input_notification
  | GetUndelivered
  | PutInvalidateAt object_id notification_invalidate_at
  | GetDelivered pagination notification_filters
  | GetDeliveredOne object_id
  | DeleteDelivered object_id
  | PutSeen object_id notification_seen

datatype core_body =
    IdBody notification_id
  | NotificationsBody "output_notification list"
  | NotificationBody output_notification

type_synonym core_response = "core_body response"

definition error_response :: "core_error \<Rightarrow> core_response" where
  "error_response e = \<lparr>response_status = core_error_status e, response_body = None\<rparr>"

definition into_response :: "(core_error, core_response) result \<Rightarrow> core_response" where
  "into_response r = (case r of Ok resp \<Rightarrow> resp | Err e \<Rightarrow> error_response e)"

text \<open>The two clock readings a request may need, in order.\<close>

record clock =
  first_now :: offset_date_time
  second_now :: offset_date_time

record ('w, 's) core_app =
  app_ext :: ext
  app_config :: service_config
  app_repository :: "'w notifications_repository"
  app_producer :: "'s notifications_producer_service"

type_synonym ('w, 's) handler = "clock \<Rightarrow> 'w \<times> 's \<Rightarrow> (core_error, core_response) result \<times> 'w \<times> 's"

definition respond_with :: "('a \<Rightarrow> core_response) \<Rightarrow> (core_error, 'a) result \<times> 'st \<Rightarrow>
    (core_error, core_response) result \<times> 'st" where
  "respond_with f rs = (case rs of (r, st) \<Rightarrow> (and_then r (\<lambda>x. Ok (f x)), st))"

definition ok_json :: "core_body \<Rightarrow> core_response" where
  "ok_json b = \<lparr>response_status = OK, response_body = Some b\<rparr>"

definition no_content :: core_response where
  "no_content = \<lparr>response_status = NO_CONTENT, response_body = None\<rparr>"

definition post_notifications_undelivered :: "('w, 's) core_app \<Rightarrow> user \<Rightarrow> input_notification \<Rightarrow> ('w, 's) handler" where
  "post_notifications_undelivered A u n c st =
    (case require_all_roles u [ProduceNotifications] of
       Err e \<Rightarrow> (Err (Auth e), st)
     | Ok _ \<Rightarrow> respond_with (\<lambda>i. ok_json (IdBody i))
         (save_notification (app_ext A) (app_config A) (app_repository A) (app_producer A) (user_id u) n
            (first_now c) (second_now c) st))"

definition get_notifications_undelivered :: "('w, 's) core_app \<Rightarrow> user \<Rightarrow> ('w, 's) handler" where
  "get_notifications_undelivered A u c st =
     respond_with (\<lambda>ns. ok_json (NotificationsBody ns))
       (find_undelivered_notifications (app_ext A) (app_repository A) (user_id u) (first_now c) (second_now c) st)"

definition put_notifications_undelivered_invalidate_at :: "('w, 's) core_app \<Rightarrow> user \<Rightarrow> object_id \<Rightarrow>
    notification_invalidate_at \<Rightarrow> ('w, 's) handler" where
  "put_notifications_undelivered_invalidate_at A u i ia c st =
    (case require_all_roles u [ProduceNotifications] of
       Err e \<Rightarrow> (Err (Auth e), st)
     | Ok _ \<Rightarrow> respond_with (\<lambda>_. no_content)
         (update_notification_invalidate_at (app_repository A) i (user_id u) ia (first_now c) st))"

definition get_notifications_delivered :: "('w, 's) core_app \<Rightarrow> user \<Rightarrow> pagination \<Rightarrow> notification_filters \<Rightarrow>
    ('w, 's) handler" where
  "get_notifications_delivered A u pg fs c st =
     respond_with (\<lambda>ns. ok_json (NotificationsBody ns))
       (find_delivered_notifications (app_ext A) (app_repository A) (user_id u) pg fs st)"

definition get_notification_delivered :: "('w, 's) core_app \<Rightarrow> user \<Rightarrow> object_id \<Rightarrow> ('w, 's) handler" where
  "get_notification_delivered A u i c st =
     respond_with (\<lambda>n. ok_json (NotificationBody n))
       (find_delivered_notification (app_ext A) (app_repository A) i (user_id u) st)"

definition delete_notification_delivered :: "('w, 's) core_app \<Rightarrow> user \<Rightarrow> object_id \<Rightarrow> ('w, 's) handler" where
  "delete_notification_delivered A u i c st =
     respond_with (\<lambda>_. no_content)
       (delete_notification (app_repository A) (app_producer A) i (user_id u) (first_now c) st)"

definition put_notification_delivered_seen :: "('w, 's) core_app \<Rightarrow> user \<Rightarrow> object_id \<Rightarrow> notification_seen \<Rightarrow>
    ('w, 's) handler" where
  "put_notification_delivered_seen A u i b c st =
     respond_with (\<lambda>_. no_content)
       (update_notification_seen (app_repository A) (app_producer A) i (user_id u) b (first_now c) st)"

fun core_handler :: "('w, 's) core_app \<Rightarrow> user \<Rightarrow> core_request \<Rightarrow> ('w, 's) handler" where
  "core_handler A u (PostUndelivered n) = post_notifications_undelivered A u n"
| "core_handler A u GetUndelivered = get_notifications_undelivered A u"
| "core_handler A u (PutInvalidateAt i ia) = put_notifications_undelivered_invalidate_at A u i ia"
| "core_handler A u (GetDelivered pg fs) = get_notifications_delivered A u pg fs"
| "core_handler A u (GetDeliveredOne i) = get_notification_delivered A u i"
| "core_handler A u (DeleteDelivered i) = delete_notification_delivered A u i"
| "core_handler A u (PutSeen i b) = put_notification_delivered_seen A u i b"

section \<open>The application\<close>

text \<open>
  \<open>create_application\<close>: the routes behind the authentication layer. The handlers take the user
  from the request's extensions; without one, axum's extractor answers 500.
\<close>

definition core_route :: "('w, 's) core_app \<Rightarrow> clock \<Rightarrow> core_request request \<Rightarrow> 'w \<times> 's \<Rightarrow> core_response \<times> 'w \<times> 's" where
  "core_route A c req st =
    (case extension req of
       None \<Rightarrow> (\<lparr>response_status = INTERNAL_SERVER_ERROR, response_body = None\<rparr>, st)
     | Some u \<Rightarrow> (case core_handler A u (body req) c st of (r, st') \<Rightarrow> (into_response r, st')))"

definition core_serve :: "('w, 's) core_app \<Rightarrow> 'k jwt \<Rightarrow> 'k \<Rightarrow> algorithm list \<Rightarrow> clock \<Rightarrow>
    core_request request \<Rightarrow> 'w \<times> 's \<Rightarrow> core_response \<times> 'w \<times> 's" where
  "core_serve A J key algs c req st =
    (case call J key algs (core_route A c) req of
       Authorized inner \<Rightarrow> inner st
     | Unauthorized \<Rightarrow> (\<lparr>response_status = UNAUTHORIZED, response_body = None\<rparr>, st))"

text \<open>
  Runs: served requests and consumed confirmations, by one or several instances on one database. A
  request makes one call of the repository, but for the poll, which makes two: its halves are steps
  of their own, so that anything may happen between them.
\<close>

inductive core_run :: "('w, 's) core_app \<Rightarrow> prost \<Rightarrow> 'k jwt \<Rightarrow> 'k \<Rightarrow> algorithm list \<Rightarrow> 'w \<times> 's \<Rightarrow>
    'w \<times> 's \<Rightarrow> bool"
  for A P J key algs st0 where
  start: "core_run A P J key algs st0 st0"
| serve: "core_run A P J key algs st0 st \<Longrightarrow> core_serve A J key algs c req st = (resp, st') \<Longrightarrow>
    core_run A P J key algs st0 st'"
| confirm: "core_run A P J key algs st0 (w, s) \<Longrightarrow>
    confirmation_callback (app_ext A) P (app_repository A) now cont w = (res, w') \<Longrightarrow>
    core_run A P J key algs st0 (w', s)"
| poll_begin: "core_run A P J key algs st0 (w, s) \<Longrightarrow>
    find_undelivered_begin (app_repository A) u now w = (res, w') \<Longrightarrow> core_run A P J key algs st0 (w', s)"
| poll_end: "core_run A P J key algs st0 (w, s) \<Longrightarrow>
    find_undelivered_end (app_ext A) (app_repository A) u now ns w = (res, w') \<Longrightarrow>
    core_run A P J key algs st0 (w', s)"

end
