(* ===== verification/Websocket_Connection.thy ===== *)
theory Websocket_Connection
  imports Protobuf
begin

text \<open>
  One WebSocket connection of \<open>tom-notifier-ws-delivery\<close> (\<open>websocket_connection.rs\<close>) and the
  confirmation callback its messages carry (\<open>websocket_confirmation_callback.rs\<close>). One iteration
  of the connection's \<open>select!\<close> loop is a function of the branch that completes, the clock and
  the outcome of the sink's \<open>send\<close>; it returns the result, the connection and the frames sent.
  A message is shared by all connections it is sent to, so the callback's \<open>AtomicBool\<close> lives in
  a store, by reference.
\<close>

section \<open>Messages and their callback\<close>

record websocket_confirmation_callback =
  cb_was_called :: nat \<comment> \<open>reference to the shared \<open>AtomicBool\<close>\<close>
  cb_id :: string

record websocket_message =
  message_id :: uuid
  payload :: bytes
  delivered_callback :: "websocket_confirmation_callback option"

record callback_world =
  was_called :: "nat \<Rightarrow> bool"
  confirmations :: "rabbitmq_confirmation_protobuf list"

text \<open>\<open>swap(true)\<close>, then the confirmation unless it was \<open>true\<close> before.\<close>

definition callback_execute :: "ext \<Rightarrow> uuid \<Rightarrow> websocket_confirmation_callback \<Rightarrow> callback_world \<Rightarrow> callback_world" where
  "callback_execute X user cb k =
    (let k' = k\<lparr>was_called := (was_called k)(cb_was_called cb := True)\<rparr>
     in if was_called k (cb_was_called cb) then k'
        else k'\<lparr>confirmations := confirmations k @
          [\<lparr>rcp_user_id = uuid_to_string X user, rcp_id = cb_id cb\<rparr>]\<rparr>)"

section \<open>The connection\<close>

type_synonym instant = nat

record websockets_service_config =
  ping_interval :: nat
  retry_max_count :: u8
  retry_interval :: nat
  connection_buffer_size :: u8

record websocket_unconfirmed_message =
  retry_at :: instant
  retries_remaining :: u8
  um_message :: websocket_message

datatype ws_connection_error = Close string | Anyhow string

datatype frame = Text string | Binary bytes | Ping bytes | Pong bytes | CloseFrame

record websocket_connection =
  wc_user_id :: uuid
  wc_unconfirmed :: "websocket_unconfirmed_message list"
  wc_ping_time :: instant
  wc_ping_message :: u32
  wc_pings_sent :: u8

definition websocket_connection_new :: "websockets_service_config \<Rightarrow> uuid \<Rightarrow> instant \<Rightarrow> websocket_connection" where
  "websocket_connection_new cfg user now =
    \<lparr> wc_user_id = user, wc_unconfirmed = [], wc_ping_time = now + ping_interval cfg,
      wc_ping_message = 0, wc_pings_sent = 0 \<rparr>"

text \<open>\<open>u32::to_be_bytes\<close> and \<open>u32::from_be_bytes\<close>.\<close>

definition to_be_bytes :: "u32 \<Rightarrow> bytes" where
  "to_be_bytes w = [ucast (drop_bit 24 w), ucast (drop_bit 16 w), ucast (drop_bit 8 w), ucast w]"

definition from_be_bytes :: "u8 \<Rightarrow> u8 \<Rightarrow> u8 \<Rightarrow> u8 \<Rightarrow> u32" where
  "from_be_bytes a b c d =
     or (push_bit 24 (ucast a)) (or (push_bit 16 (ucast b)) (or (push_bit 8 (ucast c)) (ucast d)))"

text \<open>What a step returns: its result, the connection, the callbacks' world, the frames sent.\<close>

type_synonym ws_step = "(ws_connection_error, unit) result \<times> websocket_connection \<times> callback_world \<times> frame list"

definition process_ping :: "websockets_service_config \<Rightarrow> instant \<Rightarrow> (string, unit) result \<Rightarrow>
    websocket_connection \<Rightarrow> callback_world \<Rightarrow> ws_step" where
  "process_ping cfg now sent c k =
    (if wc_pings_sent c > 1 then (Err (Anyhow ''user unresponsive''), c, k, [])
     else
       let c1 = (if wc_pings_sent c = 0 then c\<lparr>wc_ping_message := wc_ping_message c + 1\<rparr> else c);
           frames = [Ping (to_be_bytes (wc_ping_message c1))]
       in case sent of
            Err e \<Rightarrow> (Err (Anyhow (''failed to send ping: '' @ e)), c1, k, frames)
          | Ok _ \<Rightarrow> (Ok (), c1\<lparr>wc_pings_sent := wc_pings_sent c1 + 1,
                              wc_ping_time := now + ping_interval cfg\<rparr>, k, frames))"

definition process_incomming_binary_message :: "ext \<Rightarrow> prost \<Rightarrow> websockets_service_config \<Rightarrow> instant \<Rightarrow>
    bytes \<Rightarrow> websocket_connection \<Rightarrow> callback_world \<Rightarrow> ws_step" where
  "process_incomming_binary_message X P cfg now pl c k =
    (case decode_websocket_confirmation P pl of
       None \<Rightarrow> (Err (Anyhow ''failed to decode confirmation''), c, k, [])
     | Some confirmation \<Rightarrow>
         (case uuid_from_str X (wcp_message_id confirmation) of
            None \<Rightarrow> (Err (Anyhow ''failed to decode confirmation: invalid message_id''), c, k, [])
          | Some mid \<Rightarrow>
              (case position (\<lambda>queued. message_id (um_message queued) = mid) (wc_unconfirmed c) of
                 None \<Rightarrow> (Ok (), c, k, [])
               | Some idx \<Rightarrow>
                   (case remove_at idx (wc_unconfirmed c) of
                      None \<Rightarrow> (Ok (), c, k, [])
                    | Some (queued, rest) \<Rightarrow>
                        (Ok (), c\<lparr>wc_ping_time := now + ping_interval cfg, wc_pings_sent := 0,
                                  wc_unconfirmed := rest\<rparr>,
                         case delivered_callback (um_message queued) of
                           None \<Rightarrow> k
                         | Some cb \<Rightarrow> callback_execute X (wc_user_id c) cb k, [])))))"

definition process_incomming_pong_message :: "websockets_service_config \<Rightarrow> instant \<Rightarrow> bytes \<Rightarrow>
    websocket_connection \<Rightarrow> callback_world \<Rightarrow> ws_step" where
  "process_incomming_pong_message cfg now pl c k =
    (case pl of
       [a, b, d, e] \<Rightarrow>
         (let pong_message = from_be_bytes a b d e
          in if wc_pings_sent c = 0 then (Ok (), c, k, [])
             else if pong_message \<noteq> wc_ping_message c then (Ok (), c, k, [])
             else (Ok (), c\<lparr>wc_ping_time := now + ping_interval cfg, wc_pings_sent := 0\<rparr>, k, []))
     | _ \<Rightarrow> (Err (Anyhow ''pong payload length invalid''), c, k, []))"

text \<open>What the stream of incoming frames yields: \<open>None\<close> is its end.\<close>

definition process_incomming_message :: "ext \<Rightarrow> prost \<Rightarrow> websockets_service_config \<Rightarrow> instant \<Rightarrow>
    (string, frame) result option \<Rightarrow> websocket_connection \<Rightarrow> callback_world \<Rightarrow> ws_step" where
  "process_incomming_message X P cfg now message c k =
    (case message of
       Some (Inr (Binary pl)) \<Rightarrow> process_incomming_binary_message X P cfg now pl c k
     | Some (Inr (Text _)) \<Rightarrow> (Err (Anyhow ''received text message''), c, k, [])
     | Some (Inr (Ping _)) \<Rightarrow> (Ok (), c, k, [])
     | Some (Inr (Pong pl)) \<Rightarrow> process_incomming_pong_message cfg now pl c k
     | Some (Inr CloseFrame) \<Rightarrow> (Err (Close ''received close message''), c, k, [])
     | Some (Inl e) \<Rightarrow> (Err (Anyhow (''failed to read incomming message: '' @ e)), c, k, [])
     | None \<Rightarrow> (Err (Anyhow ''incomming messages stream closed''), c, k, []))"

datatype recv_error = Lagged nat | Closed

definition process_message :: "websockets_service_config \<Rightarrow> instant \<Rightarrow> (string, unit) result \<Rightarrow>
    (recv_error, websocket_message) result \<Rightarrow> websocket_connection \<Rightarrow> callback_world \<Rightarrow> ws_step" where
  "process_message cfg now sent message c k =
    (case message of
       Err (Lagged _) \<Rightarrow> (Err (Anyhow ''connection lagged''), c, k, [])
     | Err Closed \<Rightarrow> (Err (Close ''connection forcefully closed''), c, k, [])
     | Ok m \<Rightarrow>
         (case sent of
            Err e \<Rightarrow> (Err (Anyhow (''sending message failed: '' @ e)), c, k, [Binary (payload m)])
          | Ok _ \<Rightarrow>
              (Ok (), c\<lparr>wc_unconfirmed := wc_unconfirmed c @
                 [\<lparr>retry_at = now + retry_interval cfg, retries_remaining = retry_max_count cfg, um_message = m\<rparr>]\<rparr>,
               k, [Binary (payload m)])))"

definition process_unconfirmed_message :: "websockets_service_config \<Rightarrow> instant \<Rightarrow> (string, unit) result \<Rightarrow>
    websocket_unconfirmed_message \<Rightarrow> websocket_connection \<Rightarrow> callback_world \<Rightarrow> ws_step" where
  "process_unconfirmed_message cfg now sent u c k =
    (if retries_remaining u = 0 then (Err (Anyhow ''user unresponsive: message not confirmed in time''), c, k, [])
     else
       let u' = u\<lparr>retry_at := now + retry_interval cfg, retries_remaining := retries_remaining u - 1\<rparr>;
           frames = [Binary (payload (um_message u))]
       in case sent of
            Err e \<Rightarrow> (Err (Anyhow (''failed to resend message: '' @ e)), c, k, frames)
          | Ok _ \<Rightarrow> (Ok (), c\<lparr>wc_unconfirmed := wc_unconfirmed c @ [u']\<rparr>, k, frames))"

text \<open>
  One iteration of the loop in \<open>try_run\<close>. A timer branch completes only when its time has come,
  the retry branch only when the queue is not empty; \<open>None\<close>: the branch is not enabled.
\<close>

datatype ws_branch = PingTime | Incoming "(string, frame) result option"
  | NewMessage "(recv_error, websocket_message) result" | RetryTime

definition try_run_iteration :: "ext \<Rightarrow> prost \<Rightarrow> websockets_service_config \<Rightarrow> instant \<Rightarrow> (string, unit) result \<Rightarrow>
    ws_branch \<Rightarrow> websocket_connection \<Rightarrow> callback_world \<Rightarrow> ws_step option" where
  "try_run_iteration X P cfg now sent branch c k =
    (case branch of
       PingTime \<Rightarrow> if wc_ping_time c \<le> now then Some (process_ping cfg now sent c k) else None
     | Incoming message \<Rightarrow> Some (process_incomming_message X P cfg now message c k)
     | NewMessage message \<Rightarrow> Some (process_message cfg now sent message c k)
     | RetryTime \<Rightarrow>
         (case wc_unconfirmed c of
            [] \<Rightarrow> None
          | queued # rest \<Rightarrow>
              if retry_at queued \<le> now
              then Some (process_unconfirmed_message cfg now sent queued (c\<lparr>wc_unconfirmed := rest\<rparr>) k)
              else None))"

section \<open>Byte order\<close>

lemma from_to_be_bytes:
  "from_be_bytes (ucast (drop_bit 24 w)) (ucast (drop_bit 16 w)) (ucast (drop_bit 8 w)) (ucast w) = w"
proof (rule bit_word_eqI)
  fix n assume n: "n < LENGTH(32)"
  consider "n < 8" | "8 \<le> n" "n < 16" | "16 \<le> n" "n < 24" | "24 \<le> n" "n < 32"
    using n by fastforce
  then show "bit (from_be_bytes (ucast (drop_bit 24 w)) (ucast (drop_bit 16 w)) (ucast (drop_bit 8 w)) (ucast w)) n
      = bit w n"
    by cases (auto simp: from_be_bytes_def bit_simps)
qed

lemma pong_of_ping:
  "process_incomming_pong_message cfg now (to_be_bytes w) c k =
    (if wc_pings_sent c = 0 \<or> w \<noteq> wc_ping_message c then (Ok (), c, k, [])
     else (Ok (), c\<lparr>wc_ping_time := now + ping_interval cfg, wc_pings_sent := 0\<rparr>, k, []))"
  by (simp add: process_incomming_pong_message_def to_be_bytes_def from_to_be_bytes)

section \<open>A confirmation\<close>

lemma find_split:
  "find p (xs @ u # ys) = Some u" if "p u" "\<forall>x \<in> set xs. \<not> p x"
  using that by (induction xs) auto

text \<open>The confirmation of a queued message takes its first occurrence out and runs its callback.\<close>

lemma confirmation_of_queued:
  assumes "prost_ok P" and "uuid_text_ok X mid"
  shows "process_incomming_message X P cfg now
      (Some (Ok (Binary (encode_websocket_confirmation P \<lparr>wcp_message_id = uuid_to_string X mid\<rparr>)))) c k =
    (case find (\<lambda>u. message_id (um_message u) = mid) (wc_unconfirmed c) of
       None \<Rightarrow> (Ok (), c, k, [])
     | Some u \<Rightarrow> (Ok (), c\<lparr>wc_ping_time := now + ping_interval cfg, wc_pings_sent := 0,
           wc_unconfirmed := remove1 u (wc_unconfirmed c)\<rparr>,
         (case delivered_callback (um_message u) of None \<Rightarrow> k | Some cb \<Rightarrow> callback_execute X (wc_user_id c) cb k), []))"
proof -
  let ?p = "\<lambda>u. message_id (um_message u) = mid"
  have dec: "decode_websocket_confirmation P (encode_websocket_confirmation P \<lparr>wcp_message_id = uuid_to_string X mid\<rparr>) =
      Some \<lparr>wcp_message_id = uuid_to_string X mid\<rparr>" by (rule prost_okD(4) [OF assms(1)])
  show ?thesis
  proof (cases "position ?p (wc_unconfirmed c)")
    case None
    then have "find ?p (wc_unconfirmed c) = None" by (simp add: position_None_iff find_None_iff)
    with None dec show ?thesis
      by (simp add: process_incomming_message_def process_incomming_binary_message_def assms(2) [unfolded uuid_text_ok_def])
  next
    case (Some i)
    from remove_at_position [OF this] obtain xs u ys where us: "wc_unconfirmed c = xs @ u # ys"
      and u: "?p u" and xs: "\<forall>x \<in> set xs. \<not> ?p x" and rem: "remove_at i (wc_unconfirmed c) = Some (u, xs @ ys)"
      by blast
    have "find ?p (xs @ u # ys) = Some u" by (rule find_split [OF u xs])
    moreover have "remove1 u (xs @ u # ys) = xs @ ys" using xs u by (induction xs) auto
    ultimately show ?thesis using Some dec us rem
      by (simp add: process_incomming_message_def process_incomming_binary_message_def assms(2) [unfolded uuid_text_ok_def])
  qed
qed

section \<open>The invariant of a connection\<close>

definition connection_wf :: "websockets_service_config \<Rightarrow> instant \<Rightarrow> websocket_connection \<Rightarrow> bool" where
  "connection_wf cfg now c \<longleftrightarrow> wc_pings_sent c \<le> 2 \<and> sorted (map retry_at (wc_unconfirmed c)) \<and>
     (\<forall>u \<in> set (wc_unconfirmed c). retry_at u \<le> now + retry_interval cfg \<and>
        retries_remaining u \<le> retry_max_count cfg)"

lemma connection_new_wf: "connection_wf cfg now (websocket_connection_new cfg user now)"
  by (simp add: connection_wf_def websocket_connection_new_def)

lemma connection_wf_later: "connection_wf cfg now c \<Longrightarrow> now \<le> now' \<Longrightarrow> connection_wf cfg now' c"
  by (force simp: connection_wf_def)

lemma word_decr: "w \<noteq> 0 \<Longrightarrow> unat (w - 1) = unat w - 1" for w :: "'a::len word"
  by (rule unat_minus_one)

text \<open>Appending at the end keeps the queue sorted by retry time, since the clock does not go back.\<close>

lemma connection_wf_push:
  assumes "connection_wf cfg now c" and "retries_remaining u \<le> retry_max_count cfg"
    and "retry_at u = now + retry_interval cfg"
  shows "connection_wf cfg now (c\<lparr>wc_unconfirmed := wc_unconfirmed c @ [u]\<rparr>)"
  using assms by (auto simp: connection_wf_def sorted_append)

lemma process_ping_wf:
  assumes "connection_wf cfg now c" and "process_ping cfg now sent c k = (Ok (), c', k', fs)"
  shows "connection_wf cfg now c'"
proof -
  have "wc_pings_sent c + 1 \<le> 2" if "\<not> wc_pings_sent c > 1"
    using that by unat_arith
  then show ?thesis
    using assms by (auto simp: process_ping_def connection_wf_def Let_def split: if_splits sum.splits)
qed

lemma process_binary_cases:
  assumes "process_incomming_binary_message X P cfg now pl c k = (Ok (), c', k', fs)"
  obtains (ignored) "c' = c" "k' = k" "fs = []"
  | (confirmed) conf mid xs u ys where "decode_websocket_confirmation P pl = Some conf"
    "uuid_from_str X (wcp_message_id conf) = Some mid" "wc_unconfirmed c = xs @ u # ys"
    "message_id (um_message u) = mid" "\<forall>x \<in> set xs. message_id (um_message x) \<noteq> mid"
    "c' = c\<lparr>wc_ping_time := now + ping_interval cfg, wc_pings_sent := 0, wc_unconfirmed := xs @ ys\<rparr>"
    "k' = (case delivered_callback (um_message u) of None \<Rightarrow> k
       | Some cb \<Rightarrow> callback_execute X (wc_user_id c) cb k)" "fs = []"
proof -
  from assms obtain conf where conf: "decode_websocket_confirmation P pl = Some conf"
    by (auto simp: process_incomming_binary_message_def split: option.splits)
  with assms obtain mid where mid: "uuid_from_str X (wcp_message_id conf) = Some mid"
    by (auto simp: process_incomming_binary_message_def split: option.splits)
  show ?thesis
  proof (cases "position (\<lambda>q. message_id (um_message q) = mid) (wc_unconfirmed c)")
    case None
    with assms conf mid ignored show ?thesis by (simp add: process_incomming_binary_message_def)
  next
    case (Some i)
    from remove_at_position [OF this] obtain xs u ys where "wc_unconfirmed c = xs @ u # ys"
      "message_id (um_message u) = mid" "\<forall>x \<in> set xs. message_id (um_message x) \<noteq> mid"
      "remove_at i (wc_unconfirmed c) = Some (u, xs @ ys)" by blast
    with Some assms conf mid confirmed show ?thesis by (simp add: process_incomming_binary_message_def)
  qed
qed

lemma process_pong_cases:
  assumes "process_incomming_pong_message cfg now pl c k = (Ok (), c', k', fs)"
  shows "k' = k \<and> fs = [] \<and> (c' = c \<or> c' = c\<lparr>wc_ping_time := now + ping_interval cfg, wc_pings_sent := 0\<rparr>)"
  using assms by (auto simp: process_incomming_pong_message_def Let_def split: list.splits if_splits)

lemma process_incomming_cases:
  assumes "process_incomming_message X P cfg now msg c k = (Ok (), c', k', fs)"
  shows "fs = [] \<and> wc_pings_sent c' \<in> {wc_pings_sent c, 0} \<and>
    (wc_unconfirmed c' = wc_unconfirmed c \<or>
     (\<exists>xs u ys. wc_unconfirmed c = xs @ u # ys \<and> wc_unconfirmed c' = xs @ ys))"
proof (cases msg)
  case None
  with assms show ?thesis by (simp add: process_incomming_message_def)
next
  case (Some r)
  show ?thesis
  proof (cases r)
    case (Inl e)
    with Some assms show ?thesis by (simp add: process_incomming_message_def)
  next
    case (Inr f)
    show ?thesis
    proof (cases f)
      case (Binary pl)
      with Some Inr assms have "process_incomming_binary_message X P cfg now pl c k = (Ok (), c', k', fs)"
        by (simp add: process_incomming_message_def)
      then show ?thesis by (cases rule: process_binary_cases) auto
    next
      case (Pong pl)
      with Some Inr assms have "process_incomming_pong_message cfg now pl c k = (Ok (), c', k', fs)"
        by (simp add: process_incomming_message_def)
      from process_pong_cases [OF this] show ?thesis by auto
    qed (use Some Inr assms in \<open>auto simp: process_incomming_message_def\<close>)
  qed
qed

lemma process_incomming_wf:
  assumes "connection_wf cfg now c" and "process_incomming_message X P cfg now msg c k = (Ok (), c', k', fs)"
  shows "connection_wf cfg now c'"
  using process_incomming_cases [OF assms(2)] assms(1)
  by (auto simp: connection_wf_def sorted_append)

lemma try_run_iteration_wf:
  assumes wf: "connection_wf cfg now c" and now: "now \<le> now'"
    and run: "try_run_iteration X P cfg now' sent b c k = Some (Ok (), c', k', fs)"
  shows "connection_wf cfg now' c'"
proof -
  note wf' = connection_wf_later [OF wf now]
  show ?thesis
  proof (cases b)
    case PingTime
    with run process_ping_wf [OF wf'] show ?thesis by (auto simp: try_run_iteration_def split: if_splits)
  next
    case (Incoming m)
    with run process_incomming_wf [OF wf'] show ?thesis by (auto simp: try_run_iteration_def)
  next
    case (NewMessage m)
    with run connection_wf_push [OF wf'] show ?thesis
      by (auto simp: try_run_iteration_def process_message_def split: sum.splits recv_error.splits)
  next
    case RetryTime
    with run obtain u us where us: "wc_unconfirmed c = u # us"
      and pu: "process_unconfirmed_message cfg now' sent u (c\<lparr>wc_unconfirmed := us\<rparr>) k = (Ok (), c', k', fs)"
      by (auto simp: try_run_iteration_def split: list.splits if_splits)
    from wf' us have tl: "connection_wf cfg now' (c\<lparr>wc_unconfirmed := us\<rparr>)"
      and r: "retries_remaining u \<le> retry_max_count cfg" by (auto simp: connection_wf_def)
    have "retries_remaining u \<noteq> 0 \<Longrightarrow> retries_remaining u - 1 \<le> retry_max_count cfg"
      using r by (simp add: word_le_nat_alt word_decr)
    with pu connection_wf_push [OF tl] show ?thesis
      by (auto simp: process_unconfirmed_message_def Let_def split: if_splits sum.splits)
  qed
qed

section \<open>Bounded retransmission\<close>

text \<open>The messages a step puts on the wire, and the message it takes from the broadcast channel.\<close>

definition transmitted :: "ws_branch \<Rightarrow> websocket_connection \<Rightarrow> websocket_message list" where
  "transmitted b c = (case b of
     NewMessage (Inr m) \<Rightarrow> [m]
   | RetryTime \<Rightarrow> (case wc_unconfirmed c of [] \<Rightarrow> [] | u # _ \<Rightarrow>
       if retries_remaining u = 0 then [] else [um_message u])
   | _ \<Rightarrow> [])"

definition received :: "ws_branch \<Rightarrow> websocket_message list" where
  "received b = (case b of NewMessage (Inr m) \<Rightarrow> [m] | _ \<Rightarrow> [])"

text \<open>The queued message that a frame of the client confirms.\<close>

definition confirmed_message :: "ext \<Rightarrow> prost \<Rightarrow> ws_branch \<Rightarrow> websocket_connection \<Rightarrow> websocket_message list" where
  "confirmed_message X P b c = (case b of
     Incoming (Some (Inr (Binary pl))) \<Rightarrow>
       (case decode_websocket_confirmation P pl of
          None \<Rightarrow> []
        | Some confirmation \<Rightarrow>
            (case uuid_from_str X (wcp_message_id confirmation) of
               None \<Rightarrow> []
             | Some mid \<Rightarrow>
                 (case find (\<lambda>u. message_id (um_message u) = mid) (wc_unconfirmed c) of
                    None \<Rightarrow> [] | Some u \<Rightarrow> [um_message u])))
   | _ \<Rightarrow> [])"

definition binary_payloads :: "frame list \<Rightarrow> bytes list" where
  "binary_payloads fs = List.map_filter (\<lambda>f. case f of Binary pl \<Rightarrow> Some pl | _ \<Rightarrow> None) fs"

lemma transmitted_frames:
  assumes "try_run_iteration X P cfg now sent b c k = Some (r, c', k', fs)"
  shows "binary_payloads fs = map payload (transmitted b c)"
proof (cases b)
  case PingTime
  with assms show ?thesis
    by (auto simp: try_run_iteration_def process_ping_def transmitted_def binary_payloads_def
        Let_def map_filter_def split: if_splits sum.splits)
next
  case (Incoming m)
  with assms have "fs = []"
    by (auto simp: try_run_iteration_def process_incomming_message_def process_incomming_binary_message_def
        process_incomming_pong_message_def Let_def
        split: option.splits sum.splits frame.splits list.splits if_splits)
  with Incoming show ?thesis by (simp add: transmitted_def binary_payloads_def)
next
  case (NewMessage m)
  with assms show ?thesis
    by (auto simp: try_run_iteration_def process_message_def transmitted_def binary_payloads_def
        map_filter_def split: sum.splits recv_error.splits)
next
  case RetryTime
  with assms show ?thesis
    by (auto simp: try_run_iteration_def process_unconfirmed_message_def transmitted_def
        binary_payloads_def Let_def map_filter_def split: list.splits if_splits sum.splits)
qed

definition retry_budget :: "websocket_message \<Rightarrow> websocket_connection \<Rightarrow> nat" where
  "retry_budget m c = sum_list (map (\<lambda>u. if um_message u = m then unat (retries_remaining u) else 0)
     (wc_unconfirmed c))"

lemma iteration_budget:
  assumes "try_run_iteration X P cfg now sent b c k = Some (r, c', k', fs)"
  shows "count_list (transmitted b c) m + (if r = Ok () then retry_budget m c' else 0) \<le>
    retry_budget m c + (1 + unat (retry_max_count cfg)) * count_list (received b) m"
proof (cases b)
  case PingTime
  with assms show ?thesis
    by (auto simp: try_run_iteration_def process_ping_def transmitted_def retry_budget_def
        Let_def split: if_splits sum.splits)
next
  case (Incoming msg)
  with assms have "process_incomming_message X P cfg now msg c k = (r, c', k', fs)"
    by (simp add: try_run_iteration_def)
  with process_incomming_cases [of X P cfg now msg c k c' k' fs] Incoming show ?thesis
    by (auto simp: transmitted_def retry_budget_def)
next
  case (NewMessage msg)
  with assms show ?thesis
    by (auto simp: try_run_iteration_def process_message_def transmitted_def received_def retry_budget_def
        split: sum.splits recv_error.splits)
next
  case RetryTime
  with assms obtain u us where us: "wc_unconfirmed c = u # us"
    and pu: "process_unconfirmed_message cfg now sent u (c\<lparr>wc_unconfirmed := us\<rparr>) k = (r, c', k', fs)"
    by (auto simp: try_run_iteration_def split: list.splits if_splits)
  have "retries_remaining u \<noteq> 0 \<Longrightarrow> unat (retries_remaining u) = Suc (unat (retries_remaining u - 1))"
    by (simp add: word_decr unat_gt_0)
  with RetryTime us pu show ?thesis
    by (auto simp: process_unconfirmed_message_def transmitted_def retry_budget_def Let_def
        split: if_splits sum.splits)
qed

text \<open>
  A run of the loop: the times do not go back; after an error the loop ends. The run records the
  frames sent, the messages transmitted, those received from the broadcast channel and those the
  client confirmed. The callbacks' world is shared: other connections change it in between.
\<close>

record ws_log =
  log_frames :: "frame list"
  log_transmitted :: "websocket_message list"
  log_received :: "websocket_message list"
  log_confirmed :: "websocket_message list"

definition empty_log :: ws_log where
  "empty_log = \<lparr>log_frames = [], log_transmitted = [], log_received = [], log_confirmed = []\<rparr>"

inductive ws_run :: "ext \<Rightarrow> prost \<Rightarrow> websockets_service_config \<Rightarrow> websocket_connection \<Rightarrow> callback_world \<Rightarrow>
    instant \<Rightarrow> instant \<Rightarrow> (ws_connection_error, unit) result \<Rightarrow> websocket_connection \<Rightarrow> callback_world \<Rightarrow> ws_log \<Rightarrow> bool"
  for X P cfg c0 k0 t0 where
  start: "ws_run X P cfg c0 k0 t0 t0 (Ok ()) c0 k0 empty_log"
| step: "ws_run X P cfg c0 k0 t0 t (Ok ()) c k l \<Longrightarrow> t \<le> t' \<Longrightarrow>
    try_run_iteration X P cfg t' sent b c k = Some (r, c', k', fs) \<Longrightarrow>
    ws_run X P cfg c0 k0 t0 t' r c' k'
      \<lparr>log_frames = log_frames l @ fs, log_transmitted = log_transmitted l @ transmitted b c,
       log_received = log_received l @ received b, log_confirmed = log_confirmed l @ confirmed_message X P b c\<rparr>"
| others: "ws_run X P cfg c0 k0 t0 t (Ok ()) c k l \<Longrightarrow> ws_run X P cfg c0 k0 t0 t (Ok ()) c k' l"

lemma binary_payloads_append: "binary_payloads (fs @ gs) = binary_payloads fs @ binary_payloads gs"
  by (simp add: binary_payloads_def map_filter_def)

lemma ws_run_invariant:
  assumes "ws_run X P cfg c0 k0 t0 t r c k l" and "connection_wf cfg t0 c0" and "wc_unconfirmed c0 = []"
  shows "(r = Ok () \<longrightarrow> connection_wf cfg t c) \<and>
    binary_payloads (log_frames l) = map payload (log_transmitted l) \<and>
    count_list (log_transmitted l) m + (if r = Ok () then retry_budget m c else 0) \<le>
      (1 + unat (retry_max_count cfg)) * count_list (log_received l) m"
  using assms
proof (induction rule: ws_run.induct)
  case start
  then show ?case by (simp add: empty_log_def binary_payloads_def retry_budget_def map_filter_def)
next
  case (others t c k l k')
  then show ?case by simp
next
  case (step t c k l t' sent b r c' k' fs)
  have "r = Ok () \<longrightarrow> connection_wf cfg t' c'"
    using try_run_iteration_wf [of cfg t c t' X P sent b k c' k' fs] step by simp
  moreover have "binary_payloads (log_frames l @ fs) = map payload (log_transmitted l @ transmitted b c)"
    using transmitted_frames [OF step.hyps(3)] step by (simp add: binary_payloads_append)
  moreover have "count_list (log_transmitted l @ transmitted b c) m + (if r = Ok () then retry_budget m c' else 0)
      \<le> (1 + unat (retry_max_count cfg)) * count_list (log_received l @ received b) m"
    using iteration_budget [OF step.hyps(3), of m] step by (simp add: algebra_simps)
  ultimately show ?case by simp
qed

section \<open>No message is forgotten\<close>

text \<open>
  What has been received from the channel has been put on the wire, and is either confirmed by the
  client or queued to be sent again, as long as the connection lives.
\<close>

lemma iteration_conserves:
  assumes "try_run_iteration X P cfg now sent b c k = Some (Ok (), c', k', fs)"
  shows "mset (map um_message (wc_unconfirmed c)) + mset (received b) =
    mset (map um_message (wc_unconfirmed c')) + mset (confirmed_message X P b c)"
proof (cases b)
  case PingTime
  with assms show ?thesis
    by (auto simp: try_run_iteration_def process_ping_def received_def confirmed_message_def Let_def
        split: if_splits sum.splits)
next
  case (Incoming msg)
  with assms have run: "process_incomming_message X P cfg now msg c k = (Ok (), c', k', fs)"
    by (simp add: try_run_iteration_def)
  show ?thesis
  proof (cases "\<exists>pl. msg = Some (Inr (Binary pl))")
    case True
    then obtain pl where msg: "msg = Some (Inr (Binary pl))" by blast
    with run have bin: "process_incomming_binary_message X P cfg now pl c k = (Ok (), c', k', fs)"
      by (simp add: process_incomming_message_def)
    then obtain conf where conf: "decode_websocket_confirmation P pl = Some conf"
      by (auto simp: process_incomming_binary_message_def split: option.splits)
    with bin obtain mid where mid: "uuid_from_str X (wcp_message_id conf) = Some mid"
      by (auto simp: process_incomming_binary_message_def split: option.splits)
    let ?p = "\<lambda>q. message_id (um_message q) = mid"
    show ?thesis
    proof (cases "position ?p (wc_unconfirmed c)")
      case None
      then have "find ?p (wc_unconfirmed c) = None" by (simp add: position_None_iff find_None_iff)
      with None bin conf mid msg Incoming show ?thesis
        by (simp add: process_incomming_binary_message_def received_def confirmed_message_def)
    next
      case (Some i)
      from remove_at_position [OF this] obtain xs u ys where us: "wc_unconfirmed c = xs @ u # ys"
        and u: "?p u" "\<forall>x \<in> set xs. \<not> ?p x" and rem: "remove_at i (wc_unconfirmed c) = Some (u, xs @ ys)"
        by blast
      from find_split [where p = ?p, OF u] Some bin conf mid msg Incoming us rem show ?thesis
        by (auto simp: process_incomming_binary_message_def received_def confirmed_message_def)
    qed
  next
    case False
    with run have "wc_unconfirmed c' = wc_unconfirmed c"
      by (auto simp: process_incomming_message_def process_incomming_pong_message_def Let_def
          split: option.splits sum.splits frame.splits list.splits if_splits)
    moreover have "confirmed_message X P b c = []"
      using False Incoming by (auto simp: confirmed_message_def split: option.splits sum.splits frame.splits)
    ultimately show ?thesis using Incoming by (simp add: received_def)
  qed
next
  case (NewMessage msg)
  with assms show ?thesis
    by (auto simp: try_run_iteration_def process_message_def received_def confirmed_message_def
        split: sum.splits recv_error.splits)
next
  case RetryTime
  with assms show ?thesis
    by (auto simp: try_run_iteration_def process_unconfirmed_message_def received_def confirmed_message_def
        Let_def split: list.splits if_splits sum.splits)
qed

lemma ws_run_conserves:
  assumes "ws_run X P cfg c0 k0 t0 t r c k l" and "wc_unconfirmed c0 = []"
  shows "r = Ok () \<longrightarrow>
      mset (log_received l) = mset (log_confirmed l) + mset (map um_message (wc_unconfirmed c))"
    and "set (log_received l) \<subseteq> set (log_transmitted l)"
  using assms
proof (induction rule: ws_run.induct)
  case start
  { case 1 then show ?case by (simp add: empty_log_def) }
  { case 2 then show ?case by (simp add: empty_log_def) }
next
  case (step t c k l t' sent b r c' k' fs)
  {
    case 1
    with step iteration_conserves [of X P cfg t' sent b c k c' k' fs] show ?case by (auto simp: ac_simps)
  next
    case 2
    have "set (received b) \<subseteq> set (transmitted b c)"
      by (auto simp: received_def transmitted_def split: ws_branch.splits sum.splits)
    with 2 step show ?case by auto
  }
next
  case (others t c k l k')
  { case 1 with others show ?case by simp }
  { case 2 with others show ?case by simp }
qed

section \<open>Heartbeat\<close>

text \<open>
  An unresponsive user: two pings with the same, new payload, then the connection ends.
\<close>

lemma unresponsive_user:
  assumes "wc_pings_sent c = 0" and "wc_ping_time c \<le> t1"
    and "t1 + ping_interval cfg \<le> t2" and "t2 + ping_interval cfg \<le> t3"
  shows "\<exists>c1 c2 c3. try_run_iteration X P cfg t1 (Ok ()) PingTime c k =
      Some (Ok (), c1, k, [Ping (to_be_bytes (wc_ping_message c + 1))]) \<and>
    try_run_iteration X P cfg t2 (Ok ()) PingTime c1 k =
      Some (Ok (), c2, k, [Ping (to_be_bytes (wc_ping_message c + 1))]) \<and>
    try_run_iteration X P cfg t3 s PingTime c2 k = Some (Err (Anyhow ''user unresponsive''), c3, k, [])"
  using assms by (simp add: try_run_iteration_def process_ping_def)

subsection \<open>Silence\<close>

text \<open>
  A message that is never confirmed: when nothing else happens it is resent at every retry time as
  often as configured, and at the next one the connection ends.
\<close>

lemma unconfirmed_retries:
  assumes "wc_unconfirmed c = [u]" and "t0 \<le> retry_at u" and "j \<le> unat (retries_remaining u)"
  shows "\<exists>c' u' l t. ws_run X P cfg c k t0 t (Ok ()) c' k l \<and> wc_unconfirmed c' = [u'] \<and>
    um_message u' = um_message u \<and> t \<le> retry_at u' \<and> retry_at u' = retry_at u + j * retry_interval cfg \<and>
    unat (retries_remaining u') = unat (retries_remaining u) - j \<and>
    log_frames l = replicate j (Binary (payload (um_message u)))"
  using assms(3)
proof (induction j)
  case 0
  from ws_run.start [of X P cfg c k t0] assms(1,2) show ?case by (fastforce simp: empty_log_def)
next
  case (Suc j)
  then obtain c' u' l t where run: "ws_run X P cfg c k t0 t (Ok ()) c' k l" and u': "wc_unconfirmed c' = [u']"
    "um_message u' = um_message u" "t \<le> retry_at u'" "retry_at u' = retry_at u + j * retry_interval cfg"
    "unat (retries_remaining u') = unat (retries_remaining u) - j"
    and l: "log_frames l = replicate j (Binary (payload (um_message u)))" by auto
  define u2 where "u2 = u'\<lparr>retry_at := retry_at u' + retry_interval cfg, retries_remaining := retries_remaining u' - 1\<rparr>"
  have pos: "retries_remaining u' \<noteq> 0" using u'(5) Suc.prems by (auto simp: unat_eq_0 [symmetric])
  have "try_run_iteration X P cfg (retry_at u') (Ok ()) RetryTime c' k =
      Some (Ok (), c'\<lparr>wc_unconfirmed := [u2]\<rparr>, k, [Binary (payload (um_message u))])"
    using u'(1,2) pos by (simp add: try_run_iteration_def process_unconfirmed_message_def Let_def u2_def)
  from ws_run.step [OF run u'(3) this]
  obtain l2 where "ws_run X P cfg c k t0 (retry_at u') (Ok ()) (c'\<lparr>wc_unconfirmed := [u2]\<rparr>) k l2"
    and "log_frames l2 = log_frames l @ [Binary (payload (um_message u))]" by fastforce
  moreover have "replicate j (Binary (payload (um_message u))) @ [Binary (payload (um_message u))] =
      replicate (Suc j) (Binary (payload (um_message u)))" by (simp add: replicate_append_same)
  moreover have "um_message u2 = um_message u" "retry_at u' \<le> retry_at u2"
    "retry_at u2 = retry_at u + Suc j * retry_interval cfg"
    "unat (retries_remaining u2) = unat (retries_remaining u) - Suc j"
    using u' pos by (simp_all add: u2_def word_decr)
  ultimately show ?case using l
    by (intro exI [of _ "c'\<lparr>wc_unconfirmed := [u2]\<rparr>"] exI [of _ u2] exI [of _ l2] exI [of _ "retry_at u'"]) simp
qed

lemma unconfirmed_disconnects:
  assumes "wc_unconfirmed c = [u]" and "t0 \<le> retry_at u"
  shows "\<exists>c' l. ws_run X P cfg c k t0 (retry_at u + unat (retries_remaining u) * retry_interval cfg)
      (Err (Anyhow ''user unresponsive: message not confirmed in time'')) c' k l \<and>
    log_frames l = replicate (unat (retries_remaining u)) (Binary (payload (um_message u)))"
proof -
  from unconfirmed_retries [OF assms order_refl, of X P cfg k]
  obtain c' u' l t where run: "ws_run X P cfg c k t0 t (Ok ()) c' k l" and u': "wc_unconfirmed c' = [u']"
    "t \<le> retry_at u'" "retry_at u' = retry_at u + unat (retries_remaining u) * retry_interval cfg"
    "unat (retries_remaining u') = 0"
    and l: "log_frames l = replicate (unat (retries_remaining u)) (Binary (payload (um_message u)))" by auto
  have "retries_remaining u' = 0" using u'(4) by (simp add: unat_eq_0)
  then have "try_run_iteration X P cfg (retry_at u') (Ok ()) RetryTime c' k =
      Some (Err (Anyhow ''user unresponsive: message not confirmed in time''), c'\<lparr>wc_unconfirmed := []\<rparr>, k, [])"
    using u'(1) by (simp add: try_run_iteration_def process_unconfirmed_message_def)
  from ws_run.step [OF run u'(2) this] l u'(3) show ?thesis by fastforce
qed

section \<open>The confirmation callback\<close>

text \<open>However many users confirm the message, only the first confirmation is sent.\<close>

lemma callback_execute_called:
  "was_called k (cb_was_called cb) \<Longrightarrow> callback_execute X u cb k = k"
  by (cases k) (auto simp: callback_execute_def Let_def fun_upd_idem)

lemma callback_execute_many:
  assumes "\<not> was_called k (cb_was_called cb)"
  shows "confirmations (fold (\<lambda>u. callback_execute X u cb) (u # us) k) =
    confirmations k @ [\<lparr>rcp_user_id = uuid_to_string X u, rcp_id = cb_id cb\<rparr>]"
proof -
  have called: "fold (\<lambda>u. callback_execute X u cb) us k' = k'" if "was_called k' (cb_was_called cb)" for k'
    using that by (induction us) (simp_all add: callback_execute_called)
  have "was_called (callback_execute X u cb k) (cb_was_called cb)"
    by (simp add: callback_execute_def Let_def)
  from called [OF this] show ?thesis using assms by (simp add: callback_execute_def Let_def)
qed

end
