(* ===== verification/Websockets_Service.thy ===== *)
theory Websockets_Service
  imports Websocket_Connection Notifications_Producer_Service "HOL-Library.AList"
begin

text \<open>
  \<open>websockets_service_impl.rs\<close>: the broadcast channel of every connected user, the network status,
  and the operations on them, and \<open>confirmations_service_impl.rs\<close>. \<open>tokio::sync::broadcast\<close> is
  not code of this repository: it is the record \<open>broadcast\<close>, a parameter, with its documented
  behaviour in the locale \<open>broadcast_channels\<close>. The \<open>HashMap\<close> is an association list in its
  (arbitrary) iteration order.
\<close>

section \<open>Broadcast channels\<close>

text \<open>Senders and receivers are handles; \<open>bc_history\<close> is all a receiver was sent since it subscribed.\<close>

record ('m, 'b) broadcast =
  bc_channel :: "nat \<Rightarrow> 'b \<Rightarrow> nat \<times> nat \<times> 'b"
  bc_subscribe :: "nat \<Rightarrow> 'b \<Rightarrow> nat \<times> 'b"
  bc_send :: "nat \<Rightarrow> 'm \<Rightarrow> 'b \<Rightarrow> 'b"
  bc_receiver_count :: "nat \<Rightarrow> 'b \<Rightarrow> nat"
  bc_drop_receiver :: "nat \<Rightarrow> 'b \<Rightarrow> 'b"
  bc_senders :: "'b \<Rightarrow> nat set"
  bc_receivers :: "nat \<Rightarrow> 'b \<Rightarrow> nat set"
  bc_history :: "nat \<Rightarrow> 'b \<Rightarrow> 'm list"

locale broadcast_channels =
  fixes bc :: "('m, 'b) broadcast"
  assumes channel: "bc_channel bc n b = (tx, rx, b') \<Longrightarrow>
      tx \<notin> bc_senders bc b \<and> bc_senders bc b' = insert tx (bc_senders bc b) \<and>
      (\<forall>t. rx \<notin> bc_receivers bc t b) \<and>
      (\<forall>t. bc_receivers bc t b' = (if t = tx then {rx} else bc_receivers bc t b)) \<and>
      (\<forall>r. bc_history bc r b' = (if r = rx then [] else bc_history bc r b))"
    and subscribe: "bc_subscribe bc tx b = (rx, b') \<Longrightarrow>
      bc_senders bc b' = bc_senders bc b \<and> (\<forall>t. rx \<notin> bc_receivers bc t b) \<and>
      (\<forall>t. bc_receivers bc t b' = (if t = tx then insert rx (bc_receivers bc t b) else bc_receivers bc t b)) \<and>
      (\<forall>r. bc_history bc r b' = (if r = rx then [] else bc_history bc r b))"
    and send_senders: "bc_senders bc (bc_send bc tx m b) = bc_senders bc b"
    and send_receivers: "bc_receivers bc t (bc_send bc tx m b) = bc_receivers bc t b"
    and send_history: "bc_history bc r (bc_send bc tx m b) =
      bc_history bc r b @ (if r \<in> bc_receivers bc tx b then [m] else [])"
    and receiver_count: "bc_receiver_count bc tx b = 0 \<longleftrightarrow> bc_receivers bc tx b = {}"
    and drop_senders: "bc_senders bc (bc_drop_receiver bc rx b) = bc_senders bc b"
    and drop_receivers: "bc_receivers bc t (bc_drop_receiver bc rx b) = bc_receivers bc t b - {rx}"
    and drop_history: "bc_history bc r (bc_drop_receiver bc rx b) = bc_history bc r b"

record 'm ref_broadcast =
  rb_next :: nat
  rb_senders :: "nat list"
  rb_receivers :: "(nat \<times> nat) list" \<comment> \<open>sender and receiver\<close>
  rb_history :: "(nat \<times> 'm) list" \<comment> \<open>receiver and message\<close>

definition rb_sent :: "nat \<Rightarrow> 'm ref_broadcast \<Rightarrow> 'm list" where
  "rb_sent r b = map snd (filter (\<lambda>(r', _). r' = r) (rb_history b))"

definition rb_add :: "nat \<Rightarrow> nat \<Rightarrow> 'm ref_broadcast \<Rightarrow> 'm ref_broadcast" where
  "rb_add tx rx b = b\<lparr>rb_receivers := (tx, rx) # rb_receivers b,
     rb_history := filter (\<lambda>(r, _). r \<noteq> rx) (rb_history b)\<rparr>"

definition rb_fresh :: "'m ref_broadcast \<Rightarrow> nat" where
  "rb_fresh b = Suc (Max (insert 0 (set (rb_senders b) \<union> snd ` set (rb_receivers b))))"

definition ref_broadcast :: "('m, 'm ref_broadcast) broadcast" where
  "ref_broadcast =
    \<lparr> bc_channel = (\<lambda>_ b. let h = rb_fresh b in (h, h, (rb_add h h (b\<lparr>rb_senders := h # rb_senders b,
        rb_receivers := filter (\<lambda>(t, _). t \<noteq> h) (rb_receivers b)\<rparr>)))),
      bc_subscribe = (\<lambda>tx b. let h = rb_fresh b in (h, rb_add tx h b)),
      bc_send = (\<lambda>tx m b. b\<lparr>rb_history := rb_history b @
        map (\<lambda>r. (r, m)) (remdups (map snd (filter (\<lambda>(t, _). t = tx) (rb_receivers b))))\<rparr>),
      bc_receiver_count = (\<lambda>tx b. length (filter (\<lambda>(t, _). t = tx) (rb_receivers b))),
      bc_drop_receiver = (\<lambda>rx b. b\<lparr>rb_receivers := filter (\<lambda>(_, r). r \<noteq> rx) (rb_receivers b)\<rparr>),
      bc_senders = (\<lambda>b. set (rb_senders b)),
      bc_receivers = (\<lambda>tx b. {r. (tx, r) \<in> set (rb_receivers b)}),
      bc_history = rb_sent \<rparr>"

lemma rb_fresh_new:
  "rb_fresh b \<notin> set (rb_senders b)" "(t, rb_fresh b) \<notin> set (rb_receivers b)"
proof -
  have "x < rb_fresh b" if "x \<in> set (rb_senders b) \<union> snd ` set (rb_receivers b)" for x
    using that by (simp add: rb_fresh_def less_Suc_eq_le)
  then show "rb_fresh b \<notin> set (rb_senders b)" "(t, rb_fresh b) \<notin> set (rb_receivers b)"
    by (metis UnI1 less_irrefl, metis UnI2 imageI less_irrefl snd_conv)
qed

lemma filter_key_pairs: "distinct xs \<Longrightarrow>
   map snd (filter (\<lambda>(r', _). r' = r) (map (\<lambda>r. (r, m)) xs)) = (if r \<in> set xs then [m] else [])"
  by (induction xs) auto

lemma rb_sent_add: "rb_sent r (rb_add tx rx b) = (if r = rx then [] else rb_sent r b)"
proof -
  have "map snd (filter (\<lambda>(r', _). r' = r) (filter (\<lambda>(r, _). r \<noteq> rx) hs)) =
      (if r = rx then [] else map snd (filter (\<lambda>(r', _). r' = r) hs))" for hs :: "(nat \<times> 'm) list"
    by (induction hs) auto
  from this [of "rb_history b"] show ?thesis
    unfolding rb_sent_def rb_add_def by (simp del: filter_filter)
qed

lemma rb_sent_other: "rb_sent r (b\<lparr>rb_senders := ss, rb_receivers := rs\<rparr>) = rb_sent r b"
    "rb_sent r (b\<lparr>rb_receivers := rs\<rparr>) = rb_sent r b" "rb_sent r (b\<lparr>rb_senders := ss\<rparr>) = rb_sent r b"
  by (simp_all add: rb_sent_def)

lemma rb_receivers_add:
  "rb_receivers (rb_add tx rx b) = (tx, rx) # rb_receivers b" "rb_senders (rb_add tx rx b) = rb_senders b"
  by (simp_all add: rb_add_def)

interpretation ref_broadcast: broadcast_channels "ref_broadcast :: ('m, 'm ref_broadcast) broadcast"
proof (unfold_locales, goal_cases)
  case (1 n b tx rx b')
  then have "tx = rb_fresh b" "rx = rb_fresh b" "b' = rb_add tx rx (b\<lparr>rb_senders := tx # rb_senders b,
      rb_receivers := filter (\<lambda>(t, _). t \<noteq> tx) (rb_receivers b)\<rparr>)"
    by (auto simp: ref_broadcast_def Let_def)
  with rb_fresh_new [where b = b] show ?case
    by (auto simp: ref_broadcast_def rb_sent_add rb_sent_other rb_receivers_add)
next
  case (2 tx b rx b')
  then have "rx = rb_fresh b" "b' = rb_add tx rx b" by (auto simp: ref_broadcast_def Let_def)
  with rb_fresh_new [where b = b] show ?case
    by (auto simp: ref_broadcast_def rb_sent_add rb_receivers_add)
next
  case (5 r tx m b)
  have "r \<in> set (remdups (map snd (filter (\<lambda>(t, _). t = tx) (rb_receivers b)))) \<longleftrightarrow> (tx, r) \<in> set (rb_receivers b)"
    by force
  then show ?case
    using filter_key_pairs [of "remdups (map snd (filter (\<lambda>(t, _). t = tx) (rb_receivers b)))" r m]
    by (simp add: ref_broadcast_def rb_sent_def)
next
  case (6 tx b)
  then show ?case by (auto simp: ref_broadcast_def filter_empty_conv)
qed (auto simp: ref_broadcast_def rb_sent_other)

section \<open>The confirmations service\<close>

definition confirmations_send :: "prost \<Rightarrow> rabbitmq_confirmation_protobuf \<Rightarrow> message list \<Rightarrow> message list" where
  "confirmations_send P confirmation out =
     out @ [\<lparr>routing_key = [], persistent = True, content = encode_rabbitmq_confirmation P confirmation\<rparr>]"

section \<open>The service\<close>

record 'b ws_service =
  ws_config :: websockets_service_config
  ws_network_ok :: bool
  ws_users :: "(uuid \<times> nat) list"
  ws_channels :: 'b
  ws_next_ref :: nat \<comment> \<open>next free reference for a callback's \<open>AtomicBool\<close>\<close>

definition websockets_service_new :: "websockets_service_config \<Rightarrow> 'b \<Rightarrow> 'b ws_service" where
  "websockets_service_new cfg b =
    \<lparr>ws_config = cfg, ws_network_ok = True, ws_users = [], ws_channels = b, ws_next_ref = 0\<rparr>"

text \<open>The clock and the generated message identifier are arguments.\<close>

definition create_message :: "ext \<Rightarrow> prost \<Rightarrow> offset_date_time \<Rightarrow> uuid \<Rightarrow> network_status \<Rightarrow>
    notification_protobuf option \<Rightarrow> 'b ws_service \<Rightarrow> websocket_message \<times> 'b ws_service" where
  "create_message X P now mid ns notification s =
    (let new = (case notification of Some n \<Rightarrow> status P (np_status n) = NEW | None \<Rightarrow> False);
         callback = (case notification of
           Some n \<Rightarrow> if new then Some \<lparr>cb_was_called = ws_next_ref s, cb_id = np_id n\<rparr> else None
         | None \<Rightarrow> None)
     in (\<lparr> message_id = mid,
           payload = encode_websocket_notification P
             \<lparr> wnp_message_id = uuid_to_string X mid, wnp_message_timestamp = Some (timestamp_of X now),
               wnp_network_status = network_status_value ns, wnp_notification = notification \<rparr>,
           delivered_callback = callback \<rparr>,
         if new then s\<lparr>ws_next_ref := Suc (ws_next_ref s)\<rparr> else s))"

definition send_on :: "(websocket_message, 'b) broadcast \<Rightarrow> websocket_message \<Rightarrow> nat \<Rightarrow> 'b ws_service \<Rightarrow>
    'b ws_service" where
  "send_on bc m tx s = s\<lparr>ws_channels := bc_send bc tx m (ws_channels s)\<rparr>"

definition send_multicast :: "(websocket_message, 'b) broadcast \<Rightarrow> uuid list \<Rightarrow> websocket_message \<Rightarrow>
    'b ws_service \<Rightarrow> 'b ws_service" where
  "send_multicast bc user_ids m s = fold (send_on bc m) (List.map_filter (map_of (ws_users s)) user_ids) s"

definition send_broadcast :: "(websocket_message, 'b) broadcast \<Rightarrow> websocket_message \<Rightarrow> 'b ws_service \<Rightarrow>
    'b ws_service" where
  "send_broadcast bc m s = fold (send_on bc m) (map snd (ws_users s)) s"

text \<open>\<open>handle_client\<close> up to the connection: the block that holds the write lock.\<close>

definition handle_client :: "(websocket_message, 'b) broadcast \<Rightarrow> ext \<Rightarrow> prost \<Rightarrow> offset_date_time \<Rightarrow> uuid \<Rightarrow>
    uuid \<Rightarrow> 'b ws_service \<Rightarrow> nat \<times> 'b ws_service" where
  "handle_client bc X P now mid user s =
    (let (tx, rx, s1) =
       (case map_of (ws_users s) user of
          Some tx \<Rightarrow> (case bc_subscribe bc tx (ws_channels s) of
            (rx, b) \<Rightarrow> (tx, rx, s\<lparr>ws_channels := b\<rparr>))
        | None \<Rightarrow> (case bc_channel bc (unat (connection_buffer_size (ws_config s))) (ws_channels s) of
            (tx, rx, b) \<Rightarrow> (tx, rx, s\<lparr>ws_channels := b, ws_users := (user, tx) # ws_users s\<rparr>)))
     in if \<not> ws_network_ok s1
        then (case create_message X P now mid NetworkError None s1 of (m, s2) \<Rightarrow> (rx, send_on bc m tx s2))
        else (rx, s1))"

text \<open>The end of the spawned task: the connection, and its receiver with it, is gone.\<close>

definition connection_finished :: "(websocket_message, 'b) broadcast \<Rightarrow> uuid \<Rightarrow> nat \<Rightarrow> 'b ws_service \<Rightarrow>
    'b ws_service" where
  "connection_finished bc user rx s =
    (let s1 = s\<lparr>ws_channels := bc_drop_receiver bc rx (ws_channels s)\<rparr>
     in case map_of (ws_users s1) user of
          Some tx \<Rightarrow> if bc_receiver_count bc tx (ws_channels s1) = 0
                     then s1\<lparr>ws_users := AList.delete user (ws_users s1)\<rparr> else s1
        | None \<Rightarrow> s1)"

definition close_connections :: "uuid \<Rightarrow> 'b ws_service \<Rightarrow> 'b ws_service" where
  "close_connections user s = s\<lparr>ws_users := AList.delete user (ws_users s)\<rparr>"

definition ws_send :: "(websocket_message, 'b) broadcast \<Rightarrow> ext \<Rightarrow> prost \<Rightarrow> offset_date_time \<Rightarrow> uuid \<Rightarrow>
    uuid list \<Rightarrow> notification_protobuf \<Rightarrow> 'b ws_service \<Rightarrow> 'b ws_service" where
  "ws_send bc X P now mid user_ids notification s =
    (case create_message X P now mid NetworkOk (Some notification) s of
       (m, s1) \<Rightarrow> if user_ids = [] then send_broadcast bc m s1 else send_multicast bc user_ids m s1)"

text \<open>\<open>update_network_status\<close> in its two steps: other operations may come between them.\<close>

definition store_network_status :: "network_status \<Rightarrow> 'b ws_service \<Rightarrow> 'b ws_service" where
  "store_network_status st s = s\<lparr>ws_network_ok := (st = NetworkOk)\<rparr>"

definition broadcast_network_status :: "(websocket_message, 'b) broadcast \<Rightarrow> ext \<Rightarrow> prost \<Rightarrow> offset_date_time \<Rightarrow>
    uuid \<Rightarrow> network_status \<Rightarrow> 'b ws_service \<Rightarrow> 'b ws_service" where
  "broadcast_network_status bc X P now mid st s =
    (case create_message X P now mid st None s of (m, s1) \<Rightarrow> send_broadcast bc m s1)"

section \<open>Who receives a message\<close>

definition ws_wf :: "(websocket_message, 'b) broadcast \<Rightarrow> 'b ws_service \<Rightarrow> bool" where
  "ws_wf bc s \<longleftrightarrow> distinct (map fst (ws_users s)) \<and> distinct (map snd (ws_users s)) \<and>
     snd ` set (ws_users s) \<subseteq> bc_senders bc (ws_channels s) \<and>
     (\<forall>t t' r. r \<in> bc_receivers bc t (ws_channels s) \<longrightarrow> r \<in> bc_receivers bc t' (ws_channels s) \<longrightarrow> t = t')"

definition connected :: "(websocket_message, 'b) broadcast \<Rightarrow> uuid \<Rightarrow> nat \<Rightarrow> 'b ws_service \<Rightarrow> bool" where
  "connected bc user r s \<longleftrightarrow>
     (\<exists>tx. map_of (ws_users s) user = Some tx \<and> r \<in> bc_receivers bc tx (ws_channels s))"

abbreviation history :: "(websocket_message, 'b) broadcast \<Rightarrow> nat \<Rightarrow> 'b ws_service \<Rightarrow> websocket_message list" where
  "history bc r s \<equiv> bc_history bc r (ws_channels s)"

lemma map_of_AList_delete: "map_of (AList.delete u us) = (map_of us)(u := None)"
  by (simp add: delete_conv')

lemma distinct_AList_delete: "distinct (map fst us) \<Longrightarrow> distinct (map fst (AList.delete u us))"
    "distinct (map snd us) \<Longrightarrow> distinct (map snd (AList.delete u us))"
    "set (AList.delete u us) \<subseteq> set us"
  by (simp_all add: AList.delete_eq distinct_map_filter)

lemma filter_eq_distinct: "distinct xs \<Longrightarrow> x \<in> set xs \<Longrightarrow> filter (\<lambda>y. y = x) xs = [x]"
  by (induction xs) (auto simp: filter_empty_conv)

lemma distinct_snd_unique:
  "distinct (map snd xs) \<Longrightarrow> (a, x) \<in> set xs \<Longrightarrow> (b, x) \<in> set xs \<Longrightarrow> a = b"
  by (induction xs) force+

lemma create_message_frame:
  assumes "create_message X P now mid ns n s = (m, s')"
  shows "ws_users s' = ws_users s" "ws_channels s' = ws_channels s" "ws_network_ok s' = ws_network_ok s"
    "message_id m = mid" "ws_config s' = ws_config s"
  using assms by (auto simp: create_message_def Let_def split: if_splits)

lemma send_on_frame [simp]:
  "ws_users (fold (send_on bc m) txs s) = ws_users s"
  "ws_network_ok (fold (send_on bc m) txs s) = ws_network_ok s"
  "ws_config (fold (send_on bc m) txs s) = ws_config s"
  "ws_next_ref (fold (send_on bc m) txs s) = ws_next_ref s"
  by (induction txs arbitrary: s) (simp_all add: send_on_def)

section \<open>What a connection is told about the network\<close>

text \<open>A message without a notification is a network status; nothing sent yet means that it is fine.\<close>

definition status_of_message :: "prost \<Rightarrow> websocket_message \<Rightarrow> network_status option" where
  "status_of_message P m =
    (case decode_websocket_notification P (payload m) of
       Some w \<Rightarrow> if wnp_notification w = None
         then Some (if wnp_network_status w = network_status_value NetworkOk then NetworkOk else NetworkError)
         else None
     | None \<Rightarrow> None)"

definition last_status :: "prost \<Rightarrow> websocket_message list \<Rightarrow> network_status" where
  "last_status P ms = fold (\<lambda>m st. case status_of_message P m of Some st' \<Rightarrow> st' | None \<Rightarrow> st) ms NetworkOk"

lemma last_status_simps [simp]:
  "last_status P [] = NetworkOk"
  "last_status P (ms @ [m]) = (case status_of_message P m of Some st \<Rightarrow> st | None \<Rightarrow> last_status P ms)"
  by (simp_all add: last_status_def split: option.splits)

lemma last_status_replicate:
  "last_status P (ms @ replicate n m) =
     (if n = 0 then last_status P ms
      else case status_of_message P m of Some st \<Rightarrow> st | None \<Rightarrow> last_status P ms)"
proof (induction n)
  case (Suc n)
  have "last_status P (ms @ replicate (Suc n) m) = last_status P ((ms @ replicate n m) @ [m])"
    by (simp add: replicate_append_same)
  also have "\<dots> = (case status_of_message P m of Some st \<Rightarrow> st | None \<Rightarrow> last_status P (ms @ replicate n m))"
    by (rule last_status_simps)
  finally show ?case using Suc by (auto split: option.splits if_splits)
qed simp

lemma status_of_created:
  assumes "prost_ok P" and "create_message X P now mid ns n s = (m, s')"
  shows "status_of_message P m = (if n = None then Some ns else None)"
proof -
  have "network_status_value ns = 0 \<longleftrightarrow> ns = NetworkOk" by (cases ns) simp_all
  then show ?thesis
    using assms prost_okD(3) [OF assms(1)]
    by (cases ns) (auto simp: create_message_def Let_def status_of_message_def split: if_splits)
qed

text \<open>
  The operations in any order. The status is updated by one task, the consumer's status callback,
  in two steps; \<open>sys_pending\<close> is the status stored and not yet broadcast.
\<close>

record 'b ws_system =
  sys_service :: "'b ws_service"
  sys_pending :: "network_status option"

inductive ws_system_step :: "(websocket_message, 'b) broadcast \<Rightarrow> ext \<Rightarrow> prost \<Rightarrow> 'b ws_system \<Rightarrow>
    'b ws_system \<Rightarrow> bool" for bc X P where
  client: "handle_client bc X P now mid user (sys_service y) = (rx, s') \<Longrightarrow>
    ws_system_step bc X P y (y\<lparr>sys_service := s'\<rparr>)"
| finished: "ws_system_step bc X P y (y\<lparr>sys_service := connection_finished bc user rx (sys_service y)\<rparr>)"
| close: "ws_system_step bc X P y (y\<lparr>sys_service := close_connections user (sys_service y)\<rparr>)"
| send: "ws_system_step bc X P y (y\<lparr>sys_service := ws_send bc X P now mid us n (sys_service y)\<rparr>)"
| store: "sys_pending y = None \<Longrightarrow> ws_system_step bc X P y
    (y\<lparr>sys_service := store_network_status st (sys_service y), sys_pending := Some st\<rparr>)"
| broadcast: "sys_pending y = Some st \<Longrightarrow> ws_system_step bc X P y
    (y\<lparr>sys_service := broadcast_network_status bc X P now mid st (sys_service y), sys_pending := None\<rparr>)"

definition told_ok :: "(websocket_message, 'b) broadcast \<Rightarrow> prost \<Rightarrow> 'b ws_system \<Rightarrow> bool" where
  "told_ok bc P y \<longleftrightarrow> ws_wf bc (sys_service y) \<and>
     (case sys_pending y of
        Some st \<Rightarrow> ws_network_ok (sys_service y) \<longleftrightarrow> st = NetworkOk
      | None \<Rightarrow> \<forall>u r. connected bc u r (sys_service y) \<longrightarrow>
          (last_status P (history bc r (sys_service y)) = NetworkOk \<longleftrightarrow> ws_network_ok (sys_service y)))"

lemma told_ok_mono:
  assumes "told_ok bc P y" and "ws_wf bc s" and "ws_network_ok s = ws_network_ok (sys_service y)"
    and "\<And>r. history bc r s = history bc r (sys_service y)"
    and "\<And>u r. connected bc u r s \<Longrightarrow> connected bc u r (sys_service y)"
  shows "told_ok bc P (y\<lparr>sys_service := s\<rparr>)"
proof (cases "sys_pending y")
  case None
  then have "\<forall>u r. connected bc u r (sys_service y) \<longrightarrow>
      (last_status P (history bc r (sys_service y)) = NetworkOk \<longleftrightarrow> ws_network_ok (sys_service y))"
    using assms(1) by (simp add: told_ok_def)
  with assms(3-) have "\<forall>u r. connected bc u r s \<longrightarrow>
      (last_status P (history bc r s) = NetworkOk \<longleftrightarrow> ws_network_ok s)" by metis
  with assms(2) None show ?thesis unfolding told_ok_def by simp
next
  case (Some st)
  with assms show ?thesis by (simp add: told_ok_def)
qed

locale ws_broadcast = broadcast_channels bc for bc :: "(websocket_message, 'b) broadcast"
begin

lemma fold_send_channels [simp]:
  "bc_senders bc (ws_channels (fold (send_on bc m) txs s)) = bc_senders bc (ws_channels s)"
  "bc_receivers bc t (ws_channels (fold (send_on bc m) txs s)) = bc_receivers bc t (ws_channels s)"
  by (induction txs arbitrary: s) (simp_all add: send_on_def send_senders send_receivers)

lemma fold_send_history:
  "history bc r (fold (send_on bc m) txs s) = history bc r s @
     replicate (length (filter (\<lambda>tx. r \<in> bc_receivers bc tx (ws_channels s)) txs)) m"
  by (induction txs arbitrary: s)
    (auto simp: send_on_def send_history send_receivers replicate_append_same)

lemma wf_fold_send: "ws_wf bc s \<Longrightarrow> ws_wf bc (fold (send_on bc m) txs s)"
  by (simp add: ws_wf_def)

text \<open>Each connection of a listed user is sent the message once per listing, no other is sent it.\<close>

lemma multicast_history:
  assumes "ws_wf bc s"
  shows "history bc r (send_multicast bc us m s) = history bc r s @
    replicate (length (filter (\<lambda>u. connected bc u r s) us)) m"
proof -
  have "length (filter (\<lambda>tx. r \<in> bc_receivers bc tx (ws_channels s)) (List.map_filter (map_of (ws_users s)) us)) =
      length (filter (\<lambda>u. connected bc u r s) us)"
    by (induction us) (auto simp: map_filter_simps connected_def split: option.splits)
  then show ?thesis by (simp add: send_multicast_def fold_send_history)
qed

lemma broadcast_history:
  assumes "ws_wf bc s"
  shows "history bc r (send_broadcast bc m s) = history bc r s @ (if \<exists>u. connected bc u r s then [m] else [])"
proof (cases "\<exists>u. connected bc u r s")
  case True
  then obtain u tx where u: "map_of (ws_users s) u = Some tx" and r: "r \<in> bc_receivers bc tx (ws_channels s)"
    by (auto simp: connected_def)
  have "filter (\<lambda>t. r \<in> bc_receivers bc t (ws_channels s)) (map snd (ws_users s)) =
      filter (\<lambda>t. t = tx) (map snd (ws_users s))"
    by (rule filter_cong) (use assms r in \<open>auto simp: ws_wf_def\<close>)
  moreover have "filter (\<lambda>t. t = tx) (map snd (ws_users s)) = [tx]"
    by (rule filter_eq_distinct) (use assms map_of_SomeD [OF u] in \<open>force simp: ws_wf_def\<close>)+
  ultimately show ?thesis using True by (simp add: send_broadcast_def fold_send_history)
next
  case False
  then have "filter (\<lambda>t. r \<in> bc_receivers bc t (ws_channels s)) (map snd (ws_users s)) = []"
    using assms by (auto simp: filter_empty_conv connected_def ws_wf_def intro: map_of_is_SomeI)
  with False show ?thesis by (simp add: send_broadcast_def fold_send_history)
qed

lemma handle_client_cases:
  assumes "handle_client bc X P now mid user s = (rx, s')" and wf: "ws_wf bc s"
  obtains tx s1 where
    "map_of (ws_users s1) user = Some tx" "ws_network_ok s1 = ws_network_ok s" "ws_wf bc s1"
    "\<And>u. u \<noteq> user \<Longrightarrow> map_of (ws_users s1) u = map_of (ws_users s) u"
    "map_of (ws_users s) user = None \<or> map_of (ws_users s) user = Some tx"
    "rx \<in> bc_receivers bc tx (ws_channels s1)" "history bc rx s1 = []"
    "\<And>t r. r \<in> bc_receivers bc t (ws_channels s1) \<longleftrightarrow>
       (t = tx \<and> r = rx) \<or> (r \<in> bc_receivers bc t (ws_channels s) \<and> (t = tx \<longrightarrow> map_of (ws_users s) user = Some tx))"
    "\<And>r. r \<noteq> rx \<Longrightarrow> history bc r s1 = history bc r s" "\<And>t. rx \<notin> bc_receivers bc t (ws_channels s)"
    "s' = (if ws_network_ok s then s1
       else case create_message X P now mid NetworkError None s1 of (m, s2) \<Rightarrow> send_on bc m tx s2)"
proof (cases "map_of (ws_users s) user")
  case (Some tx)
  obtain rx' b where sub: "bc_subscribe bc tx (ws_channels s) = (rx', b)" by fastforce
  note law = subscribe [OF sub]
  let ?s1 = "s\<lparr>ws_channels := b\<rparr>"
  have [simp]: "rx' = rx" using assms(1) Some sub
    by (auto simp: handle_client_def Let_def split: if_splits prod.splits)
  show ?thesis
  proof (rule that [of ?s1 tx])
    show "ws_wf bc ?s1"
      using wf law by (auto simp: ws_wf_def)
    show "s' = (if ws_network_ok s then ?s1
       else case create_message X P now mid NetworkError None ?s1 of (m, s2) \<Rightarrow> send_on bc m tx s2)"
      using assms(1) Some sub by (auto simp: handle_client_def Let_def split: if_splits prod.splits)
  qed (use Some law in auto)
next
  case None
  obtain tx rx' b where ch: "bc_channel bc (unat (connection_buffer_size (ws_config s))) (ws_channels s) = (tx, rx', b)"
    by (metis surj_pair)
  note law = channel [OF ch]
  let ?s1 = "s\<lparr>ws_channels := b, ws_users := (user, tx) # ws_users s\<rparr>"
  have [simp]: "rx' = rx" using assms(1) None ch
    by (auto simp: handle_client_def Let_def split: if_splits prod.splits)
  show ?thesis
  proof (rule that [of ?s1 tx])
    have "user \<notin> fst ` set (ws_users s)" using None by (simp add: map_of_eq_None_iff)
    moreover have "tx \<notin> snd ` set (ws_users s)" using law wf by (auto simp: ws_wf_def)
    ultimately show "ws_wf bc ?s1"
      using wf law by (auto simp: ws_wf_def split: if_splits)
    show "s' = (if ws_network_ok s then ?s1
       else case create_message X P now mid NetworkError None ?s1 of (m, s2) \<Rightarrow> send_on bc m tx s2)"
      using assms(1) None ch by (auto simp: handle_client_def Let_def split: if_splits prod.splits)
  qed (use None law in auto)
qed

lemma wf_delete: "ws_wf bc s \<Longrightarrow> ws_wf bc (s\<lparr>ws_users := AList.delete user (ws_users s)\<rparr>)"
  using distinct_AList_delete [where us = "ws_users s" and u = user] by (fastforce simp: ws_wf_def)

lemma wf_create_message: "create_message X P now mid ns n s = (m, s') \<Longrightarrow> ws_wf bc s' \<longleftrightarrow> ws_wf bc s"
  by (simp add: ws_wf_def create_message_frame)

lemma operations_wf:
  assumes "ws_wf bc s"
  shows "handle_client bc X P now mid user s = (rx, s') \<Longrightarrow> ws_wf bc s'"
    and "ws_wf bc (connection_finished bc user rx s)"
    and "ws_wf bc (close_connections user s)"
    and "ws_wf bc (ws_send bc X P now mid us n s)"
    and "ws_wf bc (store_network_status st s)"
    and "ws_wf bc (broadcast_network_status bc X P now mid st s)"
proof -
  show "ws_wf bc s'" if hc: "handle_client bc X P now mid user s = (rx, s')"
  proof (rule handle_client_cases [OF hc assms])
    fix tx s1
    assume wf1: "ws_wf bc s1" and s': "s' = (if ws_network_ok s then s1
      else case create_message X P now mid NetworkError None s1 of (m, s2) \<Rightarrow> send_on bc m tx s2)"
    obtain m s2 where cm: "create_message X P now mid NetworkError None s1 = (m, s2)" by fastforce
    have "ws_wf bc (send_on bc m tx s2)"
      using wf_fold_send [of s2 m "[tx]"] wf_create_message [OF cm] wf1 by simp
    with wf1 cm show ?thesis by (simp add: s')
  qed
  have "ws_wf bc (s\<lparr>ws_channels := bc_drop_receiver bc rx (ws_channels s)\<rparr>)"
    using assms by (auto simp: ws_wf_def drop_senders drop_receivers)
  then show "ws_wf bc (connection_finished bc user rx s)"
    using wf_delete [of "s\<lparr>ws_channels := bc_drop_receiver bc rx (ws_channels s)\<rparr>" user]
    by (simp add: connection_finished_def Let_def split: option.splits)
  show "ws_wf bc (close_connections user s)" using wf_delete [OF assms] by (simp add: close_connections_def)
  show "ws_wf bc (ws_send bc X P now mid us n s)"
    using wf_create_message [of X P now mid NetworkOk "Some n" s] assms
    by (auto simp: ws_send_def send_multicast_def send_broadcast_def intro: wf_fold_send split: prod.splits)
  show "ws_wf bc (store_network_status st s)" using assms by (simp add: store_network_status_def ws_wf_def)
  show "ws_wf bc (broadcast_network_status bc X P now mid st s)"
    using wf_create_message [of X P now mid st None s] assms
    by (auto simp: broadcast_network_status_def send_broadcast_def intro: wf_fold_send split: prod.splits)
qed

text \<open>A connection that ends is no longer sent anything; the last one takes the user's entry with it.\<close>

lemma connection_finished_disconnects:
  "ws_wf bc s \<Longrightarrow> \<not> connected bc u rx (connection_finished bc user rx s)"
  by (auto simp: connection_finished_def Let_def connected_def drop_receivers map_of_AList_delete
      split: option.splits if_splits)

lemma connection_finished_others:
  assumes "r \<noteq> rx"
  shows "connected bc u r (connection_finished bc user rx s) \<longleftrightarrow> connected bc u r s"
  using assms receiver_count [of _ "bc_drop_receiver bc rx (ws_channels s)"]
  by (auto simp: connection_finished_def Let_def connected_def drop_receivers map_of_AList_delete
      split: option.splits if_splits)

lemma close_connections_disconnects:
  "connected bc u r (close_connections user s) \<longleftrightarrow> u \<noteq> user \<and> connected bc u r s"
  by (auto simp: close_connections_def connected_def map_of_AList_delete)

lemma handle_client_connected:
  assumes "ws_wf bc s" and "handle_client bc X P now mid user s = (rx, s')"
  shows "connected bc u r s' \<longleftrightarrow> (u = user \<and> r = rx) \<or> connected bc u r s"
proof (rule handle_client_cases [OF assms(2,1)])
  fix tx s1
  assume *: "map_of (ws_users s1) user = Some tx"
    "\<And>u. u \<noteq> user \<Longrightarrow> map_of (ws_users s1) u = map_of (ws_users s) u"
    "map_of (ws_users s) user = None \<or> map_of (ws_users s) user = Some tx"
    "\<And>t r. r \<in> bc_receivers bc t (ws_channels s1) \<longleftrightarrow>
       (t = tx \<and> r = rx) \<or> (r \<in> bc_receivers bc t (ws_channels s) \<and> (t = tx \<longrightarrow> map_of (ws_users s) user = Some tx))"
    and wf1: "ws_wf bc s1" and s': "s' = (if ws_network_ok s then s1
      else case create_message X P now mid NetworkError None s1 of (m, s2) \<Rightarrow> send_on bc m tx s2)"
  obtain m s2 where cm: "create_message X P now mid NetworkError None s1 = (m, s2)" by fastforce
  have "connected bc u r s' \<longleftrightarrow> connected bc u r s1"
    using s' cm create_message_frame [OF cm]
    by (simp add: connected_def send_on_def send_receivers)
  moreover have "map_of (ws_users s1) u = Some tx \<Longrightarrow> u = user" for u
    using wf1 map_of_SomeD [OF *(1)] distinct_snd_unique [OF _ map_of_SomeD, of "ws_users s1" u tx user]
    by (simp add: ws_wf_def)
  moreover have "connected bc u r s1 \<longleftrightarrow> (u = user \<and> r = rx) \<or> connected bc u r s"
    if uniq: "\<And>u. map_of (ws_users s1) u = Some tx \<Longrightarrow> u = user"
  proof (cases "u = user")
    case True
    then show ?thesis using *(1,3) unfolding connected_def *(4) by auto
  next
    case False
    have "map_of (ws_users s) u \<noteq> Some tx" using uniq [of u] *(2) [OF False] False by auto
    with False show ?thesis unfolding connected_def *(4) *(2) [OF False] by auto
  qed
  ultimately show ?thesis by blast
qed

lemma handle_client_network_ok:
  assumes hc: "handle_client bc X P now mid user s = (rx, s')" and wf: "ws_wf bc s"
  shows "ws_network_ok s' = ws_network_ok s"
proof (rule handle_client_cases [OF hc wf])
  fix tx s1
  assume ok: "ws_network_ok s1 = ws_network_ok s" and s': "s' = (if ws_network_ok s then s1
    else case create_message X P now mid NetworkError None s1 of (m, s2) \<Rightarrow> send_on bc m tx s2)"
  obtain m s2 where cm: "create_message X P now mid NetworkError None s1 = (m, s2)" by fastforce
  show ?thesis
    unfolding s' cm prod.case using create_message_frame(3) [OF cm] ok by (simp add: send_on_def)
qed

lemma handle_client_told:
  assumes P: "prost_ok P" and hc: "handle_client bc X P now mid user s = (rx, s')" and wf: "ws_wf bc s"
    and told: "\<And>u r. connected bc u r s \<Longrightarrow> last_status P (history bc r s) = NetworkOk \<longleftrightarrow> ws_network_ok s"
    and con: "connected bc u r s'"
  shows "last_status P (history bc r s') = NetworkOk \<longleftrightarrow> ws_network_ok s'"
proof (rule handle_client_cases [OF hc wf])
  fix tx s1
  assume ok: "ws_network_ok s1 = ws_network_ok s" and new: "history bc rx s1 = []"
    and old: "\<And>r. r \<noteq> rx \<Longrightarrow> history bc r s1 = history bc r s"
    and s': "s' = (if ws_network_ok s then s1
      else case create_message X P now mid NetworkError None s1 of (m, s2) \<Rightarrow> send_on bc m tx s2)"
    and rx: "rx \<in> bc_receivers bc tx (ws_channels s1)"
  obtain m s2 where cm: "create_message X P now mid NetworkError None s1 = (m, s2)" by fastforce
  note fr = create_message_frame [OF cm]
  have c: "r = rx \<or> connected bc u r s" using con handle_client_connected [OF wf hc] by auto
  show ?thesis
  proof (cases "ws_network_ok s")
    case True
    with c new old told [of u r] ok s' show ?thesis by (cases "r = rx") auto
  next
    case False
    have st: "status_of_message P m = Some NetworkError" using status_of_created [OF P cm] by simp
    have "history bc r s' = history bc r s1 @ (if r \<in> bc_receivers bc tx (ws_channels s1) then [m] else [])"
      using False s' cm fr by (simp add: send_on_def send_history)
    moreover have "r \<in> bc_receivers bc tx (ws_channels s1) \<or> last_status P (history bc r s1) \<noteq> NetworkOk"
      using c rx old told [of u r] False by (cases "r = rx") auto
    moreover have "ws_network_ok s' = ws_network_ok s" using s' cm fr ok False by (simp add: send_on_def)
    ultimately show ?thesis using False st by auto
  qed
qed

text \<open>A client that connects during a failure is told first.\<close>

lemma handle_client_told_failure:
  assumes P: "prost_ok P" and hc: "handle_client bc X P now mid user s = (rx, s')" and wf: "ws_wf bc s"
    and "\<not> ws_network_ok s"
  shows "\<exists>m. history bc rx s' = [m] \<and> status_of_message P m = Some NetworkError"
proof (rule handle_client_cases [OF hc wf])
  fix tx s1
  assume new: "history bc rx s1 = []" and rx: "rx \<in> bc_receivers bc tx (ws_channels s1)"
    and s': "s' = (if ws_network_ok s then s1
      else case create_message X P now mid NetworkError None s1 of (m, s2) \<Rightarrow> send_on bc m tx s2)"
  obtain m s2 where cm: "create_message X P now mid NetworkError None s1 = (m, s2)" by fastforce
  have "history bc rx s' = [m]"
    using assms(4) s' cm create_message_frame(2) [OF cm] new rx by (simp add: send_on_def send_history)
  with status_of_created [OF P cm] show ?thesis by simp
qed

lemma ws_send_frame:
  "ws_network_ok (ws_send bc X P now mid us n s) = ws_network_ok s"
  "connected bc u r (ws_send bc X P now mid us n s) \<longleftrightarrow> connected bc u r s"
proof -
  obtain m s1 where cm: "create_message X P now mid NetworkOk (Some n) s = (m, s1)" by fastforce
  note fr = create_message_frame [OF cm]
  have send: "ws_send bc X P now mid us n s =
      (if us = [] then send_broadcast bc m s1 else send_multicast bc us m s1)"
    by (simp only: ws_send_def cm prod.case)
  show "ws_network_ok (ws_send bc X P now mid us n s) = ws_network_ok s"
    using fr(3) by (simp add: send send_broadcast_def send_multicast_def)
  show "connected bc u r (ws_send bc X P now mid us n s) \<longleftrightarrow> connected bc u r s"
    using fr(1,2) by (simp add: send send_broadcast_def send_multicast_def connected_def)
qed

lemma ws_send_history:
  assumes "ws_wf bc s" and "create_message X P now mid NetworkOk (Some n) s = (m, s1)"
  shows "history bc r (ws_send bc X P now mid us n s) = history bc r s @
    replicate (if us = [] then (if \<exists>u. connected bc u r s then 1 else 0)
      else length (filter (\<lambda>u. connected bc u r s) us)) m"
proof -
  note fr = create_message_frame [OF assms(2)]
  have wf1: "ws_wf bc s1" using wf_create_message [OF assms(2)] assms(1) by simp
  have "connected bc u r s1 \<longleftrightarrow> connected bc u r s" for u by (simp add: connected_def fr)
  then show ?thesis
    using broadcast_history [OF wf1, of r m] multicast_history [OF wf1, of r us m]
    by (simp add: ws_send_def assms(2) fr)
qed

lemma broadcast_status_told:
  assumes P: "prost_ok P" and wf: "ws_wf bc s"
    and con: "connected bc u r (broadcast_network_status bc X P now mid st s)"
  shows "last_status P (history bc r (broadcast_network_status bc X P now mid st s)) = st"
    and "ws_network_ok (broadcast_network_status bc X P now mid st s) = ws_network_ok s"
proof -
  obtain m s1 where cm: "create_message X P now mid st None s = (m, s1)" by fastforce
  note fr = create_message_frame [OF cm]
  have wf1: "ws_wf bc s1" using wf_create_message [OF cm] wf by simp
  have "connected bc u r s1" using con by (simp add: broadcast_network_status_def cm send_broadcast_def connected_def)
  then have "\<exists>u. connected bc u r s1" by blast
  then show "last_status P (history bc r (broadcast_network_status bc X P now mid st s)) = st"
    using status_of_created [OF P cm] broadcast_history [OF wf1, of r m]
    by (simp add: broadcast_network_status_def cm)
  show "ws_network_ok (broadcast_network_status bc X P now mid st s) = ws_network_ok s"
    by (simp add: broadcast_network_status_def cm send_broadcast_def fr)
qed

lemma ws_system_step_told:
  assumes P: "prost_ok P" and step: "ws_system_step bc X P y y'" and inv: "told_ok bc P y"
  shows "told_ok bc P y'"
  using step
proof (cases rule: ws_system_step.cases)
  case (client now mid user rx s')
  have wf: "ws_wf bc (sys_service y)" using inv by (simp add: told_ok_def)
  note ok = handle_client_network_ok [OF client(2) wf]
  have wf': "ws_wf bc s'" using operations_wf(1) [OF wf client(2)] .
  show ?thesis
  proof (cases "sys_pending y")
    case None
    with inv have "connected bc u r (sys_service y) \<Longrightarrow> last_status P (history bc r (sys_service y)) = NetworkOk
        \<longleftrightarrow> ws_network_ok (sys_service y)" for u r by (simp add: told_ok_def)
    from handle_client_told [OF P client(2) wf this] None wf' client(1) show ?thesis by (simp add: told_ok_def)
  next
    case (Some st)
    with inv ok wf' client(1) show ?thesis by (simp add: told_ok_def)
  qed
next
  case (finished user rx)
  have "ws_network_ok (connection_finished bc user rx s) = ws_network_ok s"
    "history bc r (connection_finished bc user rx s) = history bc r s" for s r
    by (auto simp: connection_finished_def Let_def drop_history split: option.splits)
  moreover have "connected bc u r (connection_finished bc user rx s) \<Longrightarrow> connected bc u r s" for u r s
    by (auto simp: connection_finished_def Let_def connected_def drop_receivers map_of_AList_delete
        split: option.splits if_splits)
  moreover have "ws_wf bc (connection_finished bc user rx (sys_service y))"
    using inv operations_wf(2) by (simp add: told_ok_def)
  ultimately show ?thesis using told_ok_mono [OF inv] unfolding finished by blast
next
  case (close user)
  have "ws_wf bc (close_connections user (sys_service y))"
    using inv operations_wf(3) by (simp add: told_ok_def)
  then show ?thesis unfolding close
    by (rule told_ok_mono [OF inv]) (simp_all add: close_connections_disconnects, simp_all add: close_connections_def)
next
  case (send now mid us n)
  obtain m s1 where cm: "create_message X P now mid NetworkOk (Some n) (sys_service y) = (m, s1)" by fastforce
  have wf: "ws_wf bc (sys_service y)" using inv by (simp add: told_ok_def)
  have "last_status P (history bc r (ws_send bc X P now mid us n (sys_service y))) =
      last_status P (history bc r (sys_service y))" for r
    using status_of_created [OF P cm] by (simp add: ws_send_history [OF wf cm] last_status_replicate)
  then show ?thesis
    using inv operations_wf(4) [OF wf] by (simp add: told_ok_def send ws_send_frame split: option.splits)
next
  case (store st)
  then show ?thesis
    using inv operations_wf(5) [of "sys_service y" st] by (simp add: told_ok_def store_network_status_def)
next
  case (broadcast st now mid)
  have wf: "ws_wf bc (sys_service y)" using inv by (simp add: told_ok_def)
  have "ws_network_ok (sys_service y) \<longleftrightarrow> st = NetworkOk" using inv broadcast by (simp add: told_ok_def)
  with broadcast operations_wf(6) [OF wf] broadcast_status_told [OF P wf] show ?thesis
    by (simp add: told_ok_def)
qed

end

interpretation ref_ws: ws_broadcast "ref_broadcast :: (websocket_message, websocket_message ref_broadcast) broadcast"
  by unfold_locales

end
