(* ===== verification/Ws_Types.thy ===== *)
theory Ws_Types
  imports Core_Types
begin

text \<open>
  The error type of \<open>tom-notifier-ws-delivery\<close> with the status codes it answers, and the ticket
  as clients exchange it.
\<close>

datatype ws_error = Ws_Auth missing_role_error | Ws_Database repo_error | TicketInvalid string | Duplicate

fun ws_error_status :: "ws_error \<Rightarrow> status_code" where
  "ws_error_status (Ws_Auth _) = FORBIDDEN"
| "ws_error_status (Ws_Database _) = INTERNAL_SERVER_ERROR"
| "ws_error_status (TicketInvalid _) = UNAUTHORIZED"
| "ws_error_status Duplicate = CONFLICT"

record websocket_ticket =
  wt_ticket :: string

end
