(* ===== verification/Tickets.thy ===== *)
theory Tickets
  imports Notifications_Refinement Ws_Types
begin

text \<open>
  \<open>tom-notifier-ws-delivery\<close>: the tickets that open a WebSocket connection. The repository over
  MongoDB (\<open>repository/tickets_repository\<close>), its contract, the refinement, and the service
  (\<open>service/tickets_service\<close>) whose \<open>consume_ticket\<close> looks a ticket up and then marks it used:
  two requests, between which other requests may run. \<open>repository::Error\<close> of this binary has the
  constructors of the core's, and its insertion maps driver errors the same way.
\<close>

section \<open>Data\<close>

text \<open>\<open>TicketFindEntity\<close>; the insert entity is the same without the identifier.\<close>

record ticket_entity =
  te_id :: object_id
  te_ticket :: string
  te_user_id :: uuid
  te_issued_at :: date_time
  te_expire_at :: date_time
  te_used_at :: "date_time option"

record ticket =
  t_id :: object_id
  t_ticket :: string
  t_user_id :: uuid
  t_issued_at :: offset_date_time
  t_expire_at :: offset_date_time
  t_used_at :: "offset_date_time option"

definition ticket_insert_fields :: "string \<Rightarrow> uuid \<Rightarrow> date_time \<Rightarrow> date_time \<Rightarrow> date_time option \<Rightarrow>
    (string \<times> bson) list" where
  "ticket_insert_fields ticket user_id issued_at expire_at used_at =
    [ (''ticket'', Str ticket), (''user_id'', UuidBin user_id), (''issued_at'', DateTime issued_at),
      (''expire_at'', DateTime expire_at), (''used_at'', opt_date used_at) ]"

definition decode_ticket_entity :: "bson \<Rightarrow> ticket_entity option" where
  "decode_ticket_entity d =
    (case (field ''_id'' d, field ''ticket'' d, field ''user_id'' d, field ''issued_at'' d,
           field ''expire_at'' d, field ''used_at'' d) of
       (Some (Oid i), Some (Str t), Some (UuidBin u), Some (DateTime ia), Some (DateTime ea), used) \<Rightarrow>
         (case used of
            None \<Rightarrow> Some \<lparr>te_id = i, te_ticket = t, te_user_id = u, te_issued_at = ia, te_expire_at = ea,
              te_used_at = None\<rparr>
          | Some Null \<Rightarrow> Some \<lparr>te_id = i, te_ticket = t, te_user_id = u, te_issued_at = ia,
              te_expire_at = ea, te_used_at = None\<rparr>
          | Some (DateTime ua) \<Rightarrow> Some \<lparr>te_id = i, te_ticket = t, te_user_id = u, te_issued_at = ia,
              te_expire_at = ea, te_used_at = Some ua\<rparr>
          | Some _ \<Rightarrow> None)
     | _ \<Rightarrow> None)"

definition ticket_of_entity :: "ext \<Rightarrow> ticket_entity \<Rightarrow> ticket" where
  "ticket_of_entity X e =
    \<lparr> t_id = te_id e, t_ticket = te_ticket e, t_user_id = te_user_id e,
      t_issued_at = dt_into X (te_issued_at e), t_expire_at = dt_into X (te_expire_at e),
      t_used_at = map_option (dt_into X) (te_used_at e) \<rparr>"

section \<open>The repository\<close>

record 'w tickets_repository =
  tr_insert :: "string \<Rightarrow> uuid \<Rightarrow> offset_date_time \<Rightarrow> offset_date_time \<Rightarrow> 'w \<Rightarrow>
    (repo_error, object_id) result \<times> 'w"
  tr_find :: "string \<Rightarrow> 'w \<Rightarrow> (repo_error, ticket option) result \<times> 'w"
  tr_update_used_at :: "object_id \<Rightarrow> offset_date_time \<Rightarrow> 'w \<Rightarrow> (repo_error, unit) result \<times> 'w"

definition TICKETS :: string where
  "TICKETS = ''tickets''"

definition INDEX_NAME_UNIQUE_TICKET :: string where
  "INDEX_NAME_UNIQUE_TICKET = ''unique_ticket''"

definition unique_ticket_index :: index_model where
  "unique_ticket_index = \<lparr>index_name = INDEX_NAME_UNIQUE_TICKET, index_keys = [''ticket''], unique = True\<rparr>"

definition tickets_repository_new :: "'w mongo \<Rightarrow> 'w \<Rightarrow> (mongo_error, unit) result \<times> 'w" where
  "tickets_repository_new m w =
    (case create_collection m TICKETS w of
       (Err e, w1) \<Rightarrow> (Err e, w1)
     | (Ok _, w1) \<Rightarrow>
         (case list_index_names m TICKETS w1 of
            (Err e, w2) \<Rightarrow> (Err e, w2)
          | (Ok names, w2) \<Rightarrow> create_index_unless m TICKETS names unique_ticket_index w2))"

definition ticket_insert :: "ext \<Rightarrow> 'w mongo \<Rightarrow> string \<Rightarrow> uuid \<Rightarrow> offset_date_time \<Rightarrow> offset_date_time \<Rightarrow> 'w \<Rightarrow>
    (repo_error, object_id) result \<times> 'w" where
  "ticket_insert X m ticket user_id issued_at expire_at w =
    (case insert_one m TICKETS
        (ticket_insert_fields ticket user_id (dt_from X issued_at) (dt_from X expire_at) None) w of
       (Err err, w') \<Rightarrow> (Err (insert_error err), w')
     | (Ok (Oid i), w') \<Rightarrow> (Ok i, w')
     | (Ok _, w') \<Rightarrow> (Err (Mongo (Custom ''invalid type of returned id'')), w'))"

definition ticket_find :: "ext \<Rightarrow> 'w mongo \<Rightarrow> string \<Rightarrow> 'w \<Rightarrow> (repo_error, ticket option) result \<times> 'w" where
  "ticket_find X m ticket w =
    (case find_one m TICKETS (Doc [(''ticket'', Str ticket)]) None w of
       (Err e, w') \<Rightarrow> (Err (Mongo e), w')
     | (Ok None, w') \<Rightarrow> (Ok None, w')
     | (Ok (Some d), w') \<Rightarrow>
         ((case decode_ticket_entity d of
             None \<Rightarrow> Err (Mongo OtherKind)
           | Some e \<Rightarrow> Ok (Some (ticket_of_entity X e))), w'))"

definition ticket_update_used_at :: "ext \<Rightarrow> 'w mongo \<Rightarrow> object_id \<Rightarrow> offset_date_time \<Rightarrow> 'w \<Rightarrow>
    (repo_error, unit) result \<times> 'w" where
  "ticket_update_used_at X m i used_at w =
     updated_if (\<lambda>r. matched_count r = 1)
       (update_one m TICKETS (Doc [(''_id'', Oid i), (''used_at'', Null)])
         (Doc [(''$set'', Doc [(''used_at'', DateTime (dt_from X used_at))])]) w)"

definition tickets_repository_impl :: "ext \<Rightarrow> 'w mongo \<Rightarrow> 'w tickets_repository" where
  "tickets_repository_impl X m =
    \<lparr> tr_insert = ticket_insert X m, tr_find = ticket_find X m, tr_update_used_at = ticket_update_used_at X m \<rparr>"

section \<open>The contract\<close>

definition use_ticket :: "object_id \<Rightarrow> date_time \<Rightarrow> ticket_entity list \<Rightarrow> ticket_entity list" where
  "use_ticket i t ts = map (\<lambda>e. if te_id e = i \<and> te_used_at e = None then e\<lparr>te_used_at := Some t\<rparr> else e) ts"

definition unused :: "object_id \<Rightarrow> ticket_entity list \<Rightarrow> bool" where
  "unused i ts \<longleftrightarrow> list_ex (\<lambda>e. te_id e = i \<and> te_used_at e = None) ts"

definition new_ticket :: "ext \<Rightarrow> object_id \<Rightarrow> string \<Rightarrow> uuid \<Rightarrow> offset_date_time \<Rightarrow> offset_date_time \<Rightarrow>
    ticket_entity" where
  "new_ticket X i t u ia ea = \<lparr>te_id = i, te_ticket = t, te_user_id = u, te_issued_at = dt_from X ia,
     te_expire_at = dt_from X ea, te_used_at = None\<rparr>"

definition well_formed_tickets :: "ticket_entity list \<Rightarrow> bool" where
  "well_formed_tickets ts \<longleftrightarrow> distinct (map te_id ts) \<and> distinct (map te_ticket ts)"

locale tickets_repository =
  fixes r :: "'w tickets_repository" and X :: ext
    and holds :: "'w \<Rightarrow> ticket_entity list \<Rightarrow> bool"
  assumes well_formed: "holds w ts \<Longrightarrow> well_formed_tickets ts"
    and insert_Ok: "holds w ts \<Longrightarrow> tr_insert r t u ia ea w = (Ok i, w') \<Longrightarrow>
      holds w' (ts @ [new_ticket X i t u ia ea])"
    and insert_Err: "holds w ts \<Longrightarrow> tr_insert r t u ia ea w = (Err e, w') \<Longrightarrow>
      e \<noteq> NoDocumentUpdated \<and> (e = InsertUniqueViolation \<longrightarrow> t \<in> te_ticket ` set ts \<and> holds w' ts) \<and>
      (holds w' ts \<or> (\<exists>i. holds w' (ts @ [new_ticket X i t u ia ea])))"
    and find: "holds w ts \<Longrightarrow> tr_find r t w = (Ok x, w') \<Longrightarrow>
      x = map_option (ticket_of_entity X) (List.find (\<lambda>e. te_ticket e = t) ts)"
    and find_keeps: "holds w ts \<Longrightarrow> holds (snd (tr_find r t w)) ts"
    and update_used_at: "holds w ts \<Longrightarrow> tr_update_used_at r i now w = (res, w') \<Longrightarrow>
      (case res of
         Ok _ \<Rightarrow> unused i ts \<and> holds w' (use_ticket i (dt_from X now) ts)
       | Err NoDocumentUpdated \<Rightarrow> \<not> unused i ts \<and> holds w' ts
       | Err (Mongo _) \<Rightarrow> holds w' ts \<or> holds w' (use_ticket i (dt_from X now) ts)
       | Err InsertUniqueViolation \<Rightarrow> False)"


section \<open>The implementation keeps the contract\<close>

definition encode_ticket :: "ticket_entity \<Rightarrow> bson" where
  "encode_ticket e = Doc ((''_id'', Oid (te_id e)) #
     ticket_insert_fields (te_ticket e) (te_user_id e) (te_issued_at e) (te_expire_at e) (te_used_at e))"

definition ticket_index_only :: "index_model list \<Rightarrow> bool" where
  "ticket_index_only ixs \<longleftrightarrow> list_all (\<lambda>ix.
     (unique ix \<longrightarrow> index_keys ix = [''ticket'']) \<and>
     (index_name ix = INDEX_NAME_UNIQUE_TICKET \<longrightarrow> ix = unique_ticket_index)) ixs"

definition tickets_stored :: "'w mongo \<Rightarrow> 'w \<Rightarrow> ticket_entity list \<Rightarrow> bool" where
  "tickets_stored m w ts \<longleftrightarrow> docs m TICKETS w = map encode_ticket ts \<and> well_formed_tickets ts \<and>
     unique_ticket_index \<in> set (indexes m TICKETS w) \<and> ticket_index_only (indexes m TICKETS w)"

lemma opt_date_field [simp]:
  "(opt_date d = Null) = (d = None)"
  "scalar (opt_date d) \<or> opt_date d = Null"
  by (cases d; simp add: opt_date_def)+

lemma encode_ticket_fields [simp]:
  "field ''_id'' (encode_ticket e) = Some (Oid (te_id e))"
  "field ''ticket'' (encode_ticket e) = Some (Str (te_ticket e))"
  "field ''user_id'' (encode_ticket e) = Some (UuidBin (te_user_id e))"
  "field ''issued_at'' (encode_ticket e) = Some (DateTime (te_issued_at e))"
  "field ''expire_at'' (encode_ticket e) = Some (DateTime (te_expire_at e))"
  "field ''used_at'' (encode_ticket e) = Some (opt_date (te_used_at e))"
  by (simp_all add: encode_ticket_def ticket_insert_fields_def)

lemma decode_encode_ticket [simp]: "decode_ticket_entity (encode_ticket e) = Some e"
  by (cases e; cases "te_used_at e") (simp_all add: decode_ticket_entity_def opt_date_def)

lemma encode_ticket_inj: "encode_ticket e = encode_ticket e' \<longleftrightarrow> e = e'"
  by (metis decode_encode_ticket option.inject)

lemma set_used_at:
  "Doc (set_field ''used_at'' (DateTime t) ((''_id'', Oid (te_id e)) #
     ticket_insert_fields (te_ticket e) (te_user_id e) (te_issued_at e) (te_expire_at e) (te_used_at e))) =
   encode_ticket (e\<lparr>te_used_at := Some t\<rparr>)"
  by (simp add: encode_ticket_def ticket_insert_fields_def opt_date_def)

lemma distinct_key_other:
  "distinct (map k (as @ e # bs)) \<Longrightarrow> x \<in> set as \<union> set bs \<Longrightarrow> k x \<noteq> k e"
  by (auto simp: image_iff)

lemma distinct_key_eq: "distinct (map k xs) \<Longrightarrow> x \<in> set xs \<Longrightarrow> y \<in> set xs \<Longrightarrow> k x = k y \<Longrightarrow> x = y"
  by (simp add: distinct_map inj_on_def)

lemma list_all2_unmatched:
  "list_all2 (\<lambda>d d'. d' = d \<or> p d \<and> q d d') ds ds' \<Longrightarrow> \<forall>d \<in> set ds. \<not> p d \<Longrightarrow> ds' = ds"
  by (induction ds ds' rule: list_all2_induct) auto

lemma use_ticket_split:
  assumes "distinct (map te_id (as @ e # bs))" and "te_id e = i" and "te_used_at e = None"
  shows "use_ticket i t (as @ e # bs) = as @ e\<lparr>te_used_at := Some t\<rparr> # bs"
proof -
  have "te_id x \<noteq> i" if "x \<in> set as \<union> set bs" for x
    using distinct_key_other [OF assms(1) that] assms(2) by simp
  then show ?thesis
    using assms(2,3) by (auto simp: use_ticket_def intro!: map_idI)
qed

lemma use_ticket_idle: "\<not> unused i ts \<Longrightarrow> use_ticket i t ts = ts"
  by (auto simp: use_ticket_def unused_def list_ex_iff intro!: map_idI)

lemma use_ticket_keys [simp]:
  "map te_id (use_ticket i t ts) = map te_id ts" "map te_ticket (use_ticket i t ts) = map te_ticket ts"
  by (simp_all add: use_ticket_def)

context mongo_server
begin

lemma matches_ticket:
  "matches m (Doc [(''ticket'', Str t)]) (encode_ticket e) \<longleftrightarrow> te_ticket e = t"
  "matches m (Doc [(''_id'', Oid i), (''used_at'', Null)]) (encode_ticket e) \<longleftrightarrow>
     te_id e = i \<and> te_used_at e = None"
proof -
  have "test m Null (Some (opt_date (te_used_at e))) \<longleftrightarrow> te_used_at e = None"
    using test_null [of "Some (opt_date (te_used_at e))"] opt_date_field by auto
  then show "matches m (Doc [(''ticket'', Str t)]) (encode_ticket e) \<longleftrightarrow> te_ticket e = t"
    "matches m (Doc [(''_id'', Oid i), (''used_at'', Null)]) (encode_ticket e) \<longleftrightarrow>
       te_id e = i \<and> te_used_at e = None"
    by (simp_all add: matches_Doc cond_field field_name_def test_scalar)
qed

lemma ticket_inserted:
  assumes st: "tickets_stored m w ts"
    and ins: "inserted i (ticket_insert_fields t u (dt_from X ia) (dt_from X ea) None)
      (docs m TICKETS w) (docs m TICKETS w')"
    and nd: "\<not> duplicate_key (indexes m TICKETS w) (docs m TICKETS w)
      (Doc (ticket_insert_fields t u (dt_from X ia) (dt_from X ea) None))"
    and ix: "indexes m TICKETS w' = indexes m TICKETS w"
  shows "tickets_stored m w' (ts @ [new_ticket X i t u ia ea])"
proof -
  note st' = st [unfolded tickets_stored_def]
  have "Doc ((''_id'', Oid i) # ticket_insert_fields t u (dt_from X ia) (dt_from X ea) None) =
      encode_ticket (new_ticket X i t u ia ea)"
    by (simp add: encode_ticket_def new_ticket_def)
  moreover have "i \<notin> te_id ` set ts" using ins st' by (auto simp: inserted_def)
  moreover have "\<not> list_ex (same_key (index_keys unique_ticket_index)
      (Doc (ticket_insert_fields t u (dt_from X ia) (dt_from X ea) None))) (map encode_ticket ts)"
    using nd st' by (auto simp: duplicate_key_def list_ex_iff unique_ticket_index_def)
  then have "t \<notin> te_ticket ` set ts"
    by (auto simp: list_ex_iff same_key_def unique_ticket_index_def ticket_insert_fields_def)
  ultimately show ?thesis
    using st' ins ix by (auto simp: tickets_stored_def inserted_def well_formed_tickets_def new_ticket_def)
qed

lemma ticket_duplicate:
  assumes "tickets_stored m w ts"
    and "duplicate_key (indexes m TICKETS w) (docs m TICKETS w) (Doc (ticket_insert_fields t u ia ea None))"
  shows "t \<in> te_ticket ` set ts"
  using assms by (force simp: duplicate_key_def list_ex_iff tickets_stored_def ticket_index_only_def
      list_all_iff same_key_def ticket_insert_fields_def)

lemma impl_ticket_insert:
  assumes st: "tickets_stored m w ts" and run: "ticket_insert X m t u ia ea w = (res, w')"
  shows "res = Ok i \<Longrightarrow> tickets_stored m w' (ts @ [new_ticket X i t u ia ea])"
    and "res = Err e \<Longrightarrow> e \<noteq> NoDocumentUpdated \<and>
      (e = InsertUniqueViolation \<longrightarrow> t \<in> te_ticket ` set ts \<and> tickets_stored m w' ts) \<and>
      (tickets_stored m w' ts \<or> (\<exists>i. tickets_stored m w' (ts @ [new_ticket X i t u ia ea])))"
proof -
  let ?fs = "ticket_insert_fields t u (dt_from X ia) (dt_from X ea) None"
  obtain r where r: "insert_one m TICKETS ?fs w = (r, w')"
    using run by (auto simp: ticket_insert_def split: prod.splits sum.splits bson.splits)
  have ix: "indexes m TICKETS w' = indexes m TICKETS w"
    using write_indexes(3) [of TICKETS TICKETS ?fs w] r by simp
  have same: "tickets_stored m w' ts" if "docs m TICKETS w' = docs m TICKETS w"
    using that st ix by (simp add: tickets_stored_def)
  show "tickets_stored m w' (ts @ [new_ticket X i t u ia ea])" if ok: "res = Ok i"
  proof -
    obtain v where v: "r = Ok v" using ok run r by (cases r) (auto simp: ticket_insert_def)
    from insert_Ok [OF r [unfolded v]] ok run r v ticket_inserted [OF st _ _ ix]
    show ?thesis by (auto simp: ticket_insert_def)
  qed
  assume e: "res = Err e"
  have "\<exists>err. r = Err err \<and> e = insert_error err"
    using run r e insert_Ok [of TICKETS ?fs w _ w'] by (cases r) (auto simp: ticket_insert_def)
  then obtain err where err: "r = Err err" and e': "e = insert_error err" by blast
  have "e \<noteq> NoDocumentUpdated" using e' by simp
  moreover have "t \<in> te_ticket ` set ts \<and> tickets_stored m w' ts" if "e = InsertUniqueViolation"
  proof -
    from that e' have "insert_error err = InsertUniqueViolation" by simp
    with r err have "insert_one m TICKETS ?fs w = (Err (Write (WriteError 11000)), w')" by simp
    from insert_duplicate [OF this] same ticket_duplicate [OF st] show ?thesis by blast
  qed
  moreover have "tickets_stored m w' ts \<or> (\<exists>i. tickets_stored m w' (ts @ [new_ticket X i t u ia ea]))"
    using insert_Err [OF r [unfolded err]] same ticket_inserted [OF st _ _ ix] by blast
  ultimately show "e \<noteq> NoDocumentUpdated \<and>
      (e = InsertUniqueViolation \<longrightarrow> t \<in> te_ticket ` set ts \<and> tickets_stored m w' ts) \<and>
      (tickets_stored m w' ts \<or> (\<exists>i. tickets_stored m w' (ts @ [new_ticket X i t u ia ea])))" by blast
qed

lemma impl_ticket_find:
  assumes st: "tickets_stored m w ts"
  shows "ticket_find X m t w = (Ok x, w') \<Longrightarrow>
      x = map_option (ticket_of_entity X) (List.find (\<lambda>e. te_ticket e = t) ts)"
    and "tickets_stored m (snd (ticket_find X m t w)) ts"
proof -
  let ?f = "Doc [(''ticket'', Str t)]"
  obtain r w1 where r: "find_one m TICKETS ?f None w = (r, w1)" by fastforce
  then have "tickets_stored m w1 ts"
    using st find_one_docs [of TICKETS TICKETS ?f None w] write_indexes(4) [of TICKETS TICKETS ?f None w]
    by (simp add: tickets_stored_def)
  moreover have "snd (ticket_find X m t w) = w1"
    using r by (auto simp: ticket_find_def split: sum.splits option.splits)
  ultimately show "tickets_stored m (snd (ticket_find X m t w)) ts" by simp
  assume run: "ticket_find X m t w = (Ok x, w')"
  then obtain y where y: "r = Ok y" using r by (cases r) (auto simp: ticket_find_def)
  show "x = map_option (ticket_of_entity X) (List.find (\<lambda>e. te_ticket e = t) ts)"
  proof (cases y)
    case None
    with find_one_None [of TICKETS ?f None w w1] r y st have "List.find (\<lambda>e. te_ticket e = t) ts = None"
      by (auto simp: find_None_iff list_ex_iff tickets_stored_def matches_ticket)
    with None run r y show ?thesis by (simp add: ticket_find_def)
  next
    case (Some d)
    with find_one_Some [of TICKETS ?f None w d w1] r y st
    obtain e where e: "e \<in> set ts" "te_ticket e = t" and d: "d = encode_ticket e"
      by (auto simp: tickets_stored_def matches_ticket)
    then obtain e' where e': "List.find (\<lambda>e. te_ticket e = t) ts = Some e'"
      by (cases "List.find (\<lambda>e. te_ticket e = t) ts") (auto simp: find_None_iff)
    from find_SomeD [OF e'] e st have "e' = e"
      by (auto simp: tickets_stored_def well_formed_tickets_def distinct_map inj_on_def)
    with e' Some d run r y show ?thesis by (simp add: ticket_find_def)
  qed
qed

lemma impl_ticket_update_used_at:
  assumes st: "tickets_stored m w ts" and run: "ticket_update_used_at X m i now w = (res, w')"
  shows "(case res of
         Ok _ \<Rightarrow> unused i ts \<and> tickets_stored m w' (use_ticket i (dt_from X now) ts)
       | Err NoDocumentUpdated \<Rightarrow> \<not> unused i ts \<and> tickets_stored m w' ts
       | Err (Mongo _) \<Rightarrow> tickets_stored m w' ts \<or> tickets_stored m w' (use_ticket i (dt_from X now) ts)
       | Err InsertUniqueViolation \<Rightarrow> False)"
proof -
  let ?f = "Doc [(''_id'', Oid i), (''used_at'', Null)]"
  let ?u = "Doc [(''$set'', Doc [(''used_at'', DateTime (dt_from X now))])]"
  note st' = st [unfolded tickets_stored_def]
  have ap: "apply_update m ?f ?u (encode_ticket e) = encode_ticket (e\<lparr>te_used_at := Some (dt_from X now)\<rparr>)" for e
    by (subst encode_ticket_def, subst apply_set) (simp_all add: field_name_def set_used_at del: set_field.simps)
  obtain r where r: "update_one m TICKETS ?f ?u w = (r, w')"
    using run by (auto simp: ticket_update_used_at_def updated_if_def split: prod.splits sum.splits)
  have ix: "indexes m TICKETS w' = indexes m TICKETS w"
    using write_indexes(1) [of TICKETS TICKETS ?f ?u w] r by simp
  have same: "tickets_stored m w' ts" if "docs m TICKETS w' = docs m TICKETS w"
    using that st ix by (simp add: tickets_stored_def)
  have used: "tickets_stored m w' (use_ticket i (dt_from X now) ts)"
    if "docs m TICKETS w' = map encode_ticket (use_ticket i (dt_from X now) ts)"
    using that st' ix by (simp add: tickets_stored_def well_formed_tickets_def)
  show ?thesis
  proof (cases r)
    case (Inl e)
    have "list_all2 (\<lambda>d d'. d' = d \<or> matches m ?f d \<and> d' = apply_update m ?f ?u d)
        (map encode_ticket ts) (docs m TICKETS w')"
      using update_one_Err [of TICKETS ?f ?u w e w'] r Inl st' by (simp add: partly_updated_def)
    then have "docs m TICKETS w' = docs m TICKETS w \<or>
        docs m TICKETS w' = map encode_ticket (use_ticket i (dt_from X now) ts)"
    proof (cases "unused i ts")
      case False
      then have "\<forall>d \<in> set (map encode_ticket ts). \<not> matches m ?f d"
        by (auto simp: unused_def list_ex_iff matches_ticket)
      from list_all2_unmatched [OF \<open>list_all2 _ _ _\<close> this] show ?thesis using st' by simp
    next
      case True
      then obtain as e bs where ts: "ts = as @ e # bs" and e: "te_id e = i" "te_used_at e = None"
        by (auto simp: unused_def list_ex_iff dest!: split_list)
      have other: "te_id x \<noteq> i" if "x \<in> set as \<union> set bs" for x
        using distinct_key_other [of te_id as e bs x] that st' ts e(1) by (simp add: well_formed_tickets_def)
      from \<open>list_all2 _ _ _\<close> obtain as' d bs' where docs': "docs m TICKETS w' = as' @ d # bs'"
        and 1: "list_all2 (\<lambda>d d'. d' = d \<or> matches m ?f d \<and> d' = apply_update m ?f ?u d) (map encode_ticket as) as'"
        and 2: "list_all2 (\<lambda>d d'. d' = d \<or> matches m ?f d \<and> d' = apply_update m ?f ?u d) (map encode_ticket bs) bs'"
        and d: "d = encode_ticket e \<or> d = encode_ticket (e\<lparr>te_used_at := Some (dt_from X now)\<rparr>)"
        by (auto simp: ts list_all2_append1 list_all2_Cons1 ap)
      have "as' = map encode_ticket as" "bs' = map encode_ticket bs"
        using list_all2_unmatched [OF 1] list_all2_unmatched [OF 2] other by (auto simp: matches_ticket)
      with docs' have "docs m TICKETS w' = map encode_ticket as @ d # map encode_ticket bs" by simp
      with d use_ticket_split [of as e bs i "dt_from X now"] e ts st' show ?thesis
        by (auto simp: well_formed_tickets_def)
    qed
    with run r Inl same used show ?thesis by (auto simp: ticket_update_used_at_def updated_if_def)
  next
    case (Inr c)
    from update_one_Ok [OF r [unfolded Inr]] show ?thesis
    proof (elim disjE exE conjE)
      assume "\<not> list_ex (matches m ?f) (docs m TICKETS w)" and "docs m TICKETS w' = docs m TICKETS w"
        and "c = \<lparr>matched_count = 0, modified_count = 0\<rparr>"
      with same st' run r Inr show ?thesis
        by (auto simp: ticket_update_used_at_def updated_if_def unused_def list_ex_iff matches_ticket)
    next
      fix xs d ys
      assume split: "docs m TICKETS w = xs @ d # ys" and d: "matches m ?f d"
        and new: "docs m TICKETS w' = xs @ apply_update m ?f ?u d # ys"
        and c: "c = \<lparr>matched_count = 1, modified_count = (if apply_update m ?f ?u d = d then 0 else 1)\<rparr>"
      from split st' obtain as e bs where ts: "ts = as @ e # bs" and as: "xs = map encode_ticket as"
        and e: "d = encode_ticket e" and bs: "ys = map encode_ticket bs"
        by (auto simp: map_eq_append_conv map_eq_Cons_conv)
      from d e have p: "te_id e = i" "te_used_at e = None" by (simp_all add: matches_ticket)
      have "docs m TICKETS w' = map encode_ticket (use_ticket i (dt_from X now) ts)"
        using new as bs e ts p st' use_ticket_split [of as e bs i "dt_from X now"]
        by (simp add: ap well_formed_tickets_def)
      moreover have "unused i ts" using ts p by (simp add: unused_def)
      ultimately show ?thesis
        using run r Inr c used by (auto simp: ticket_update_used_at_def updated_if_def)
    qed
  qed
qed

text \<open>The constructor leaves the collection with the unique index.\<close>

lemma new_tickets_stored:
  assumes "docs m TICKETS w = map encode_ticket ts" and "well_formed_tickets ts"
    and only: "ticket_index_only (indexes m TICKETS w)"
    and run: "tickets_repository_new m w = (Ok (), w')"
  shows "tickets_stored m w' ts"
proof -
  let ?c = TICKETS and ?u = unique_ticket_index
  from run obtain w1 names w2
    where 1: "create_collection m ?c w = (Ok (), w1)" and 2: "list_index_names m ?c w1 = (Ok names, w2)"
      and 3: "create_index_unless m ?c names ?u w2 = (Ok (), w')"
    by (auto simp: tickets_repository_new_def split: prod.splits sum.splits)
  have d2: "docs m ?c w2 = docs m ?c w" and i2: "indexes m ?c w2 = indexes m ?c w"
    using create_collection_keeps [of ?c ?c w] list_index_names_keeps [of ?c ?c w1] 1 2 by simp_all
  have names: "set names = index_name ` set (indexes m ?c w)"
    using list_index_names_Ok [OF 2] create_collection_keeps(2) [of ?c ?c w] 1 by simp
  have named: "ix = ?u" if "ix \<in> set (indexes m ?c w)" "index_name ix = index_name ?u" for ix
    using only that by (simp add: ticket_index_only_def list_all_iff unique_ticket_index_def)
  from create_index_unless_Ok(2) [OF 3] names named
  have i3: "?u \<in> set (indexes m ?c w')" "set (indexes m ?c w') \<subseteq> insert ?u (set (indexes m ?c w))"
    by (auto simp: i2) (metis imageE)
  have "ticket_index_only [?u]" by (simp add: ticket_index_only_def unique_ticket_index_def)
  with only i3(2) have "ticket_index_only (indexes m ?c w')"
    unfolding ticket_index_only_def list_all_iff list.set by blast
  with create_index_unless_Ok(1) [OF 3] d2 assms(1,2) i3(1) show ?thesis by (simp add: tickets_stored_def)
qed

end

lemma tickets_repository_impl_simps [simp]:
  "tr_insert (tickets_repository_impl X m) = ticket_insert X m"
  "tr_find (tickets_repository_impl X m) = ticket_find X m"
  "tr_update_used_at (tickets_repository_impl X m) = ticket_update_used_at X m"
  by (simp_all add: tickets_repository_impl_def)

sublocale mongo_server \<subseteq> tickets: tickets_repository "tickets_repository_impl X m" X "tickets_stored m" for X
proof (unfold_locales, unfold tickets_repository_impl_simps)
  show "tickets_stored m w ts \<Longrightarrow> well_formed_tickets ts" for w ts by (simp add: tickets_stored_def)
qed (erule (1) impl_ticket_insert(1) [OF _ _ refl] impl_ticket_insert(2) [OF _ _ refl] impl_ticket_find(1)
    impl_ticket_update_used_at | erule impl_ticket_find(2))+

context mongo_server
begin

lemma tickets_contract: "tickets_repository (tickets_repository_impl X m) X (tickets_stored m)"
  by (rule tickets.tickets_repository_axioms)

end

interpretation ref_tickets: tickets_repository
  "tickets_repository_impl ref_ext ref_server" ref_ext "tickets_stored ref_server"
  by unfold_locales

section \<open>The service\<close>

text \<open>The generated text (\<open>Uuid::new_v4\<close>, printed) and the clock are arguments.\<close>

definition create_ticket :: "ext \<Rightarrow> nat \<Rightarrow> 'w tickets_repository \<Rightarrow> uuid \<Rightarrow> offset_date_time \<Rightarrow> uuid \<Rightarrow> 'w \<Rightarrow>
    (ws_error, websocket_ticket) result \<times> 'w" where
  "create_ticket X ticket_lifespan r user_id issued_at new_v4 w =
    (let expire_at = issued_at + int ticket_lifespan;
         ticket = uuid_to_string X new_v4
     in case tr_insert r ticket user_id issued_at expire_at w of
          (Err e, w') \<Rightarrow> (Err (Ws_Database e), w')
        | (Ok i, w') \<Rightarrow> (Ok \<lparr>wt_ticket = ticket\<rparr>, w'))"

text \<open>\<open>consume_ticket\<close> up to the update, and from the update on.\<close>

definition check_ticket :: "'w tickets_repository \<Rightarrow> websocket_ticket \<Rightarrow> offset_date_time \<Rightarrow> 'w \<Rightarrow>
    (ws_error, ticket) result \<times> 'w" where
  "check_ticket r tk now w =
    (case tr_find r (wt_ticket tk) w of
       (Err e, w') \<Rightarrow> (Err (Ws_Database e), w')
     | (Ok found, w') \<Rightarrow>
         (and_then (ok_or (TicketInvalid ''ticket not exist'') found) (\<lambda>t.
            if t_used_at t \<noteq> None then Err (TicketInvalid ''ticket already used'')
            else if t_expire_at t < now then Err (TicketInvalid ''ticket expired'')
            else Ok t), w'))"

definition mark_ticket_used :: "'w tickets_repository \<Rightarrow> ticket \<Rightarrow> offset_date_time \<Rightarrow> 'w \<Rightarrow>
    (ws_error, ticket) result \<times> 'w" where
  "mark_ticket_used r t now w =
    (case tr_update_used_at r (t_id t) now w of
       (Ok _, w') \<Rightarrow> (Ok (t\<lparr>t_used_at := Some now\<rparr>), w')
     | (Err NoDocumentUpdated, w') \<Rightarrow> (Err (TicketInvalid ''ticket already used''), w')
     | (Err e, w') \<Rightarrow> (Err (Ws_Database e), w'))"

definition consume_ticket :: "'w tickets_repository \<Rightarrow> websocket_ticket \<Rightarrow> offset_date_time \<Rightarrow> 'w \<Rightarrow>
    (ws_error, ticket) result \<times> 'w" where
  "consume_ticket r tk now w =
    (case check_ticket r tk now w of
       (Err e, w') \<Rightarrow> (Err e, w')
     | (Ok t, w') \<Rightarrow> mark_ticket_used r t now w')"

section \<open>A ticket opens one connection\<close>

text \<open>
  Requests in any order, a consumption in its two steps: \<open>checked\<close> are the consumptions that
  passed the checks and have yet to update, with their clock readings; \<open>issued\<close> and \<open>consumed\<close>
  log the tickets created for users and the tickets handed back by \<open>consume_ticket\<close>.
\<close>

record 'w tickets_system =
  tickets_world :: 'w
  checked :: "(ticket \<times> offset_date_time) list"
  issued :: "(string \<times> uuid) list"
  consumed :: "ticket list"

inductive tickets_run :: "ext \<Rightarrow> nat \<Rightarrow> 'w tickets_repository \<Rightarrow> 'w \<Rightarrow> 'w tickets_system \<Rightarrow> bool"
  for X lifespan r w0 where
  start: "tickets_run X lifespan r w0 \<lparr>tickets_world = w0, checked = [], issued = [], consumed = []\<rparr>"
| create: "tickets_run X lifespan r w0 y \<Longrightarrow>
    create_ticket X lifespan r u now v (tickets_world y) = (res, w') \<Longrightarrow>
    tickets_run X lifespan r w0 (y\<lparr>tickets_world := w', issued := (uuid_to_string X v, u) # issued y\<rparr>)"
| check: "tickets_run X lifespan r w0 y \<Longrightarrow> check_ticket r tk now (tickets_world y) = (res, w') \<Longrightarrow>
    tickets_run X lifespan r w0 (y\<lparr>tickets_world := w',
      checked := (case res of Inr t \<Rightarrow> (t, now) # checked y | Inl _ \<Rightarrow> checked y)\<rparr>)"
| mark: "tickets_run X lifespan r w0 y \<Longrightarrow> checked y = xs @ (t, now) # ys \<Longrightarrow>
    mark_ticket_used r t now (tickets_world y) = (res, w') \<Longrightarrow>
    tickets_run X lifespan r w0 (y\<lparr>tickets_world := w', checked := xs @ ys,
      consumed := (case res of Inr t' \<Rightarrow> t' # consumed y | Inl _ \<Rightarrow> consumed y)\<rparr>)"

definition ticket_known :: "ext \<Rightarrow> ticket_entity list \<Rightarrow> (string \<times> uuid) list \<Rightarrow> ticket_entity list \<Rightarrow> ticket \<Rightarrow> bool" where
  "ticket_known X ts0 log ts t \<longleftrightarrow> (\<exists>e \<in> set ts. te_id e = t_id t \<and> te_ticket e = t_ticket t \<and>
     te_user_id e = t_user_id t \<and> t_expire_at t = dt_into X (te_expire_at e) \<and>
     ((te_ticket e, te_user_id e) \<in> set log \<or>
      (\<exists>e0 \<in> set ts0. te_ticket e0 = te_ticket e \<and> te_user_id e0 = te_user_id e)))"

definition tickets_inv :: "ext \<Rightarrow> ('w \<Rightarrow> ticket_entity list \<Rightarrow> bool) \<Rightarrow> ticket_entity list \<Rightarrow> 'w tickets_system \<Rightarrow>
    ticket_entity list \<Rightarrow> bool" where
  "tickets_inv X holds ts0 y ts \<longleftrightarrow> holds (tickets_world y) ts \<and>
     (\<forall>e \<in> set ts. (te_ticket e, te_user_id e) \<in> set (issued y) \<or>
        (\<exists>e0 \<in> set ts0. te_ticket e0 = te_ticket e \<and> te_user_id e0 = te_user_id e)) \<and>
     (\<forall>(t, now) \<in> set (checked y). ticket_known X ts0 (issued y) ts t \<and> now \<le> t_expire_at t) \<and>
     (\<forall>t \<in> set (consumed y). ticket_known X ts0 (issued y) ts t \<and> \<not> unused (t_id t) ts \<and>
        (\<exists>now. t_used_at t = Some now \<and> now \<le> t_expire_at t)) \<and>
     distinct (map t_id (consumed y))"

lemma unused_use_ticket: "unused i (use_ticket j t ts) \<longleftrightarrow> unused i ts \<and> i \<noteq> j"
  by (auto simp: unused_def use_ticket_def list_ex_iff)

lemma ticket_known_mono:
  assumes "ticket_known X ts0 log ts t" and "set log \<subseteq> set log'"
    and "\<And>e. e \<in> set ts \<Longrightarrow> \<exists>e' \<in> set ts'. te_id e' = te_id e \<and> te_ticket e' = te_ticket e \<and>
      te_user_id e' = te_user_id e \<and> te_expire_at e' = te_expire_at e"
  shows "ticket_known X ts0 log' ts' t"
proof -
  from assms(1) obtain e where e: "e \<in> set ts" "te_id e = t_id t" "te_ticket e = t_ticket t"
      "te_user_id e = t_user_id t" "t_expire_at t = dt_into X (te_expire_at e)"
    and log: "(te_ticket e, te_user_id e) \<in> set log \<or>
      (\<exists>e0 \<in> set ts0. te_ticket e0 = te_ticket e \<and> te_user_id e0 = te_user_id e)"
    unfolding ticket_known_def by blast
  from assms(3) [OF e(1)] obtain e' where "e' \<in> set ts'" "te_id e' = te_id e" "te_ticket e' = te_ticket e"
    "te_user_id e' = te_user_id e" "te_expire_at e' = te_expire_at e" by blast
  with e log assms(2) show ?thesis unfolding ticket_known_def by (intro bexI [of _ e']) auto
qed

lemma ticket_known_use: "ticket_known X ts0 log ts t \<Longrightarrow> ticket_known X ts0 log (use_ticket i d ts) t"
proof (erule ticket_known_mono)
  fix e
  assume "e \<in> set ts"
  then show "\<exists>e' \<in> set (use_ticket i d ts). te_id e' = te_id e \<and> te_ticket e' = te_ticket e \<and>
      te_user_id e' = te_user_id e \<and> te_expire_at e' = te_expire_at e"
    unfolding use_ticket_def set_map by (rule rev_image_eqI [THEN rev_bexI, OF _ refl]) simp
qed simp

lemma ticket_known_append:
  "ticket_known X ts0 log ts t \<Longrightarrow> set log \<subseteq> set log' \<Longrightarrow> ticket_known X ts0 log' (ts @ ts') t"
  by (erule ticket_known_mono) auto

lemma ticket_known_used_at [simp]:
  "ticket_known X ts0 log ts (t\<lparr>t_used_at := d\<rparr>) \<longleftrightarrow> ticket_known X ts0 log ts t"
  by (simp add: ticket_known_def)

lemma unused_append:
  assumes "ticket_known X ts0 log ts t" and "well_formed_tickets (ts @ [e])"
  shows "unused (t_id t) (ts @ [e]) \<longleftrightarrow> unused (t_id t) ts"
proof -
  have "te_id e \<noteq> t_id t" using assms by (force simp: ticket_known_def well_formed_tickets_def)
  then show ?thesis by (simp add: unused_def)
qed

lemma tickets_inv_use:
  assumes "tickets_inv X H ts0 y ts" and "H w' (use_ticket i d ts)"
  shows "tickets_inv X H ts0 (y\<lparr>tickets_world := w'\<rparr>) (use_ticket i d ts)"
proof -
  have "\<exists>e0 \<in> set ts. te_ticket e = te_ticket e0 \<and> te_user_id e = te_user_id e0"
    if "e \<in> set (use_ticket i d ts)" for e
    using that by (auto simp: use_ticket_def)
  with assms show ?thesis unfolding tickets_inv_def
    by (auto simp: ticket_known_use unused_use_ticket) metis+
qed

context tickets_repository
begin

text \<open>Every outcome of \<open>consume_ticket\<close> when nothing runs between its two steps.\<close>

lemma consume_ticket_outcome:
  assumes h: "holds w ts" and run: "consume_ticket r tk now w = (res, w')"
  shows "case res of
      Ok t \<Rightarrow> (\<exists>e. List.find (\<lambda>e. te_ticket e = wt_ticket tk) ts = Some e \<and> te_used_at e = None \<and>
          now \<le> dt_into X (te_expire_at e) \<and> t = (ticket_of_entity X e)\<lparr>t_used_at := Some now\<rparr> \<and>
          holds w' (use_ticket (te_id e) (dt_from X now) ts))
    | Err (TicketInvalid _) \<Rightarrow> holds w' ts \<and>
        (case List.find (\<lambda>e. te_ticket e = wt_ticket tk) ts of None \<Rightarrow> True
         | Some e \<Rightarrow> te_used_at e \<noteq> None \<or> dt_into X (te_expire_at e) < now)
    | Err (Ws_Database _) \<Rightarrow> holds w' ts \<or> (\<exists>e \<in> set ts. te_ticket e = wt_ticket tk \<and> te_used_at e = None \<and>
        holds w' (use_ticket (te_id e) (dt_from X now) ts))
    | _ \<Rightarrow> False"
proof -
  obtain rf w1 where rf: "tr_find r (wt_ticket tk) w = (rf, w1)" by fastforce
  have h1: "holds w1 ts" using find_keeps [OF h, of "wt_ticket tk"] rf by simp
  show ?thesis
  proof (cases rf)
    case (Inl e)
    with run rf h1 show ?thesis by (auto simp: consume_ticket_def check_ticket_def)
  next
    case (Inr x)
    from find [OF h rf [unfolded Inr]]
    have x: "x = map_option (ticket_of_entity X) (List.find (\<lambda>e. te_ticket e = wt_ticket tk) ts)" .
    show ?thesis
    proof (cases "List.find (\<lambda>e. te_ticket e = wt_ticket tk) ts")
      case None
      with run rf h1 Inr x show ?thesis by (auto simp: consume_ticket_def check_ticket_def)
    next
      case (Some e)
      note e = find_SomeD [OF Some]
      let ?t = "ticket_of_entity X e"
      show ?thesis
      proof (cases "te_used_at e = None \<and> \<not> dt_into X (te_expire_at e) < now")
        case False
        with run rf h1 Inr x Some show ?thesis
          by (auto simp: consume_ticket_def check_ticket_def ticket_of_entity_def split: if_splits)
      next
        case True
        then have mark: "mark_ticket_used r ?t now w1 = (res, w')"
          using run rf Inr x Some by (simp add: consume_ticket_def check_ticket_def ticket_of_entity_def)
        obtain ru w2 where ru: "tr_update_used_at r (te_id e) now w1 = (ru, w2)" by fastforce
        have un: "unused (te_id e) ts" using e True by (auto simp: unused_def list_ex_iff)
        from update_used_at [OF h1 ru] mark ru True Some e un show ?thesis
          by (auto simp: mark_ticket_used_def ticket_of_entity_def split: sum.splits repo_error.splits)
      qed
    qed
  qed
qed

lemma create_inv:
  assumes inv: "tickets_inv X holds ts0 y ts"
    and run: "create_ticket X lifespan r u now v (tickets_world y) = (res, w')"
  shows "\<exists>ts'. tickets_inv X holds ts0 (y\<lparr>tickets_world := w', issued := (uuid_to_string X v, u) # issued y\<rparr>) ts'"
proof -
  let ?t = "uuid_to_string X v" and ?y = "y\<lparr>tickets_world := w', issued := (uuid_to_string X v, u) # issued y\<rparr>"
  have h: "holds (tickets_world y) ts" using inv by (simp add: tickets_inv_def)
  obtain rr where rr: "tr_insert r ?t u now (now + int lifespan) (tickets_world y) = (rr, w')"
    using run by (auto simp: create_ticket_def Let_def split: prod.splits sum.splits)
  have more: "ticket_known X ts0 (issued y) ts t \<Longrightarrow> ticket_known X ts0 (issued ?y) (ts @ ts') t" for t ts'
    by (rule ticket_known_append) auto
  have "tickets_inv X holds ts0 ?y ts" if "holds w' ts"
    using inv that more [of _ "[]"] unfolding tickets_inv_def by auto
  moreover have "tickets_inv X holds ts0 ?y (ts @ [new_ticket X i ?t u now (now + int lifespan)])"
    if new: "holds w' (ts @ [new_ticket X i ?t u now (now + int lifespan)])" for i
  proof -
    note wf = well_formed [OF new]
    have "\<not> unused (t_id t) (ts @ [new_ticket X i ?t u now (now + int lifespan)])"
      if "ticket_known X ts0 (issued y) ts t" "\<not> unused (t_id t) ts" for t
      using unused_append [OF that(1) wf] that(2) by simp
    with inv new more show ?thesis unfolding tickets_inv_def by (auto simp: new_ticket_def)
  qed
  ultimately show ?thesis using insert_Ok [OF h] insert_Err [OF h] rr by (cases rr) blast+
qed

lemma check_inv:
  assumes inv: "tickets_inv X holds ts0 y ts" and run: "check_ticket r tk now (tickets_world y) = (res, w')"
  shows "tickets_inv X holds ts0 (y\<lparr>tickets_world := w',
    checked := (case res of Inr t \<Rightarrow> (t, now) # checked y | Inl _ \<Rightarrow> checked y)\<rparr>) ts"
proof -
  have h: "holds (tickets_world y) ts" using inv by (simp add: tickets_inv_def)
  have w': "snd (tr_find r (wt_ticket tk) (tickets_world y)) = w'"
    using run by (auto simp: check_ticket_def split: prod.splits sum.splits)
  then have h': "holds w' ts" using find_keeps [OF h] by blast
  show ?thesis
  proof (cases res)
    case (Inl e)
    with inv h' show ?thesis by (simp add: tickets_inv_def)
  next
    case (Inr t)
    with run obtain x where f: "tr_find r (wt_ticket tk) (tickets_world y) = (Ok (Some t), w')"
      and ex: "now \<le> t_expire_at t"
      by (auto simp: check_ticket_def ok_or_def split: prod.splits sum.splits option.splits if_splits)
    from find [OF h f] obtain e where "List.find (\<lambda>e. te_ticket e = wt_ticket tk) ts = Some e"
      and t: "t = ticket_of_entity X e" by (metis map_option_eq_Some)
    with find_SomeD have "e \<in> set ts" by fastforce
    with inv t have "ticket_known X ts0 (issued y) ts t"
      unfolding ticket_known_def tickets_inv_def ticket_of_entity_def by auto
    with Inr inv h' ex show ?thesis by (simp add: tickets_inv_def)
  qed
qed

lemma mark_inv:
  assumes inv: "tickets_inv X holds ts0 y ts" and ch: "checked y = xs @ (t, now) # ys"
    and run: "mark_ticket_used r t now (tickets_world y) = (res, w')"
  shows "\<exists>ts'. tickets_inv X holds ts0 (y\<lparr>tickets_world := w', checked := xs @ ys,
    consumed := (case res of Inr t' \<Rightarrow> t' # consumed y | Inl _ \<Rightarrow> consumed y)\<rparr>) ts'"
proof -
  let ?ts = "use_ticket (t_id t) (dt_from X now) ts"
  have h: "holds (tickets_world y) ts" using inv by (simp add: tickets_inv_def)
  obtain rr where rr: "tr_update_used_at r (t_id t) now (tickets_world y) = (rr, w')"
    using run by (auto simp: mark_ticket_used_def split: prod.splits sum.splits repo_error.splits)
  note up = update_used_at [OF h rr]
  have same: "tickets_inv X holds ts0 (y\<lparr>tickets_world := w', checked := xs @ ys\<rparr>) ts'"
    if "tickets_inv X holds ts0 (y\<lparr>tickets_world := w'\<rparr>) ts'" for ts'
    using that ch by (simp add: tickets_inv_def)
  show ?thesis
  proof (cases rr)
    case (Inl e)
    with run rr have res: "\<exists>e'. res = Err e'"
      by (auto simp: mark_ticket_used_def split: repo_error.splits)
    have "holds w' ts \<or> holds w' ?ts" using up Inl by (auto split: repo_error.splits)
    moreover have "tickets_inv X holds ts0 (y\<lparr>tickets_world := w'\<rparr>) ts" if "holds w' ts"
      using inv that by (simp add: tickets_inv_def)
    ultimately have "\<exists>ts'. tickets_inv X holds ts0 (y\<lparr>tickets_world := w'\<rparr>) ts'"
      using tickets_inv_use [OF inv, of w' "t_id t" "dt_from X now"] by blast
    then obtain ts' where "tickets_inv X holds ts0 (y\<lparr>tickets_world := w'\<rparr>) ts'" ..
    from same [OF this] res show ?thesis by (auto simp: tickets_inv_def)
  next
    case (Inr x)
    with up have un: "unused (t_id t) ts" and h': "holds w' ?ts" by simp_all
    have res: "res = Ok (t\<lparr>t_used_at := Some now\<rparr>)" using run rr Inr by (simp add: mark_ticket_used_def)
    have inv': "tickets_inv X holds ts0 (y\<lparr>tickets_world := w', checked := xs @ ys\<rparr>) ?ts"
      by (rule same [OF tickets_inv_use [OF inv h']])
    have "ticket_known X ts0 (issued y) ?ts t" and "now \<le> t_expire_at t"
      using inv ch ticket_known_use by (auto simp: tickets_inv_def)
    moreover have "t_id t \<notin> t_id ` set (consumed y)" using inv un by (auto simp: tickets_inv_def)
    moreover have "\<not> unused (t_id t) ?ts" by (simp add: unused_use_ticket)
    ultimately have "tickets_inv X holds ts0 (y\<lparr>tickets_world := w', checked := xs @ ys,
        consumed := t\<lparr>t_used_at := Some now\<rparr> # consumed y\<rparr>) ?ts"
      using inv' by (simp add: tickets_inv_def)
    then show ?thesis by (auto simp: res)
  qed
qed

lemma tickets_run_inv:
  assumes "tickets_run X lifespan r w0 y" and "holds w0 ts0"
  shows "\<exists>ts. tickets_inv X holds ts0 y ts"
  using assms
proof (induction rule: tickets_run.induct)
  case start
  then show ?case by (intro exI [of _ ts0]) (auto simp: tickets_inv_def)
next
  case (create y u now v res w')
  then show ?case using create_inv by blast
next
  case (check y tk now res w')
  then show ?case using check_inv by blast
next
  case (mark y xs t now ys res w')
  then show ?case using mark_inv by blast
qed

lemma consumed_once:
  assumes "tickets_run X lifespan r w0 y" and "holds w0 ts0"
  shows "distinct (map t_ticket (consumed y))"
    and "\<forall>t \<in> set (consumed y). (\<exists>now. t_used_at t = Some now \<and> now \<le> t_expire_at t) \<and>
      ((t_ticket t, t_user_id t) \<in> set (issued y) \<or>
       (\<exists>e0 \<in> set ts0. te_ticket e0 = t_ticket t \<and> te_user_id e0 = t_user_id t))"
proof -
  from tickets_run_inv [OF assms] obtain ts where inv: "tickets_inv X holds ts0 y ts" ..
  then have "holds (tickets_world y) ts" by (simp add: tickets_inv_def)
  then have wf: "well_formed_tickets ts" by (rule well_formed)
  have known: "ticket_known X ts0 (issued y) ts t" if "t \<in> set (consumed y)" for t
    using inv that unfolding tickets_inv_def by blast
  have row: "\<exists>e \<in> set ts. te_id e = t_id t \<and> te_ticket e = t_ticket t" if "t \<in> set (consumed y)" for t
    using known [OF that] unfolding ticket_known_def by blast
  have same: "t_id a = t_id b" if ab: "a \<in> set (consumed y)" "b \<in> set (consumed y)" "t_ticket a = t_ticket b" for a b
  proof -
    from row [OF ab(1)] row [OF ab(2)] obtain e e' where "e \<in> set ts" "te_id e = t_id a" "te_ticket e = t_ticket a"
      "e' \<in> set ts" "te_id e' = t_id b" "te_ticket e' = t_ticket b" by blast
    with ab(3) wf distinct_key_eq [of te_ticket ts e e'] show ?thesis by (simp add: well_formed_tickets_def)
  qed
  have "distinct (map t_id (consumed y))" using inv by (simp add: tickets_inv_def)
  then have "distinct (consumed y)" and "inj_on t_id (set (consumed y))" by (simp_all add: distinct_map)
  moreover from this(2) have "inj_on t_ticket (set (consumed y))"
    by (intro inj_onI) (rule inj_onD, assumption, rule same)
  ultimately show "distinct (map t_ticket (consumed y))" by (simp add: distinct_map)
  show "\<forall>t \<in> set (consumed y). (\<exists>now. t_used_at t = Some now \<and> now \<le> t_expire_at t) \<and>
      ((t_ticket t, t_user_id t) \<in> set (issued y) \<or>
       (\<exists>e0 \<in> set ts0. te_ticket e0 = t_ticket t \<and> te_user_id e0 = t_user_id t))"
  proof
    fix t
    assume t: "t \<in> set (consumed y)"
    then have "\<exists>now. t_used_at t = Some now \<and> now \<le> t_expire_at t"
      using inv unfolding tickets_inv_def by blast
    moreover have "(t_ticket t, t_user_id t) \<in> set (issued y) \<or>
       (\<exists>e0 \<in> set ts0. te_ticket e0 = t_ticket t \<and> te_user_id e0 = t_user_id t)"
      using known [OF t] unfolding ticket_known_def by metis
    ultimately show "(\<exists>now. t_used_at t = Some now \<and> now \<le> t_expire_at t) \<and>
      ((t_ticket t, t_user_id t) \<in> set (issued y) \<or>
       (\<exists>e0 \<in> set ts0. te_ticket e0 = t_ticket t \<and> te_user_id e0 = t_user_id t))" ..
  qed
qed

end

end
