(* ===== verification/Configuration.thy ===== *)
theory Configuration
  imports Core_Server Websockets_Service Tickets
begin

text \<open>
  Startup: \<open>application_env.rs\<close> of both programs, which reads the configuration from environment
  variables and stops at the first that is missing or malformed, and the parts of
  \<open>application_state.rs\<close> and \<open>application_middleware.rs\<close> that hand it to the components. The
  environment and the parser of socket addresses are arguments; integers are parsed as
  \<open>std\<close> does, \<open>usize\<close> having 64 bits. Durations are nanoseconds.
\<close>

section \<open>Unsigned integers\<close>

text \<open>\<open>from_str_radix\<close> with radix 10: the accumulator is checked against the bound at every digit.\<close>

definition digit_of :: "char \<Rightarrow> nat option" where
  "digit_of c = (if 48 \<le> (of_char c :: nat) \<and> (of_char c :: nat) \<le> 57 then Some (of_char c - 48) else None)"

fun parse_digits :: "nat \<Rightarrow> string \<Rightarrow> nat \<Rightarrow> nat option" where
  "parse_digits bound [] acc = Some acc"
| "parse_digits bound (c # cs) acc =
    (case digit_of c of
       None \<Rightarrow> None
     | Some d \<Rightarrow> if acc * 10 + d < bound then parse_digits bound cs (acc * 10 + d) else None)"

definition parse_unsigned :: "nat \<Rightarrow> string \<Rightarrow> nat option" where
  "parse_unsigned bound s =
    (case s of
       [] \<Rightarrow> None
     | c # cs \<Rightarrow>
         if cs = [] \<and> (c = CHR ''+'' \<or> c = CHR ''-'') then None
         else if c = CHR ''+'' then parse_digits bound cs 0
         else parse_digits bound s 0)"

text \<open>What it accepts: digits, one at least, whose value is below the bound, after an optional plus.\<close>

definition decimal :: "string \<Rightarrow> nat" where
  "decimal cs = foldl (\<lambda>a c. a * 10 + (of_char c - 48)) 0 cs"

lemma decimal_acc_mono: "acc \<le> foldl (\<lambda>a c. a * 10 + (of_char c - 48)) acc (cs :: string)" for acc :: nat
proof (induction cs arbitrary: acc)
  case (Cons c cs)
  have "acc \<le> acc * 10 + (of_char c - 48)" by simp
  also have "\<dots> \<le> foldl (\<lambda>a c. a * 10 + (of_char c - 48)) (acc * 10 + (of_char c - 48)) cs" by (rule Cons.IH)
  finally show ?case by simp
qed simp

lemma parse_digits_iff:
  "acc < bound \<Longrightarrow> parse_digits bound cs acc = Some n \<longleftrightarrow>
     list_all (\<lambda>c. digit_of c \<noteq> None) cs \<and> n = foldl (\<lambda>a c. a * 10 + (of_char c - 48)) acc cs \<and> n < bound"
proof (induction cs arbitrary: acc)
  case Nil
  then show ?case by auto
next
  case (Cons c cs)
  show ?case
  proof (cases "digit_of c")
    case None
    then show ?thesis by simp
  next
    case (Some d)
    then have d: "d = of_char c - 48" by (simp add: digit_of_def split: if_splits)
    show ?thesis
    proof (cases "acc * 10 + d < bound")
      case True
      from Cons.IH [OF this] Some d True show ?thesis by simp
    next
      case False
      with decimal_acc_mono [of "acc * 10 + d" cs] Some d show ?thesis by auto
    qed
  qed
qed

lemma signs [simp]: "digit_of (CHR ''+'') = None" "digit_of (CHR ''-'') = None"
  by (simp_all add: digit_of_def)

lemma parse_unsigned_iff:
  assumes "0 < bound"
  shows "parse_unsigned bound s = Some n \<longleftrightarrow>
    (let ds = (if s \<noteq> [] \<and> hd s = CHR ''+'' then tl s else s)
     in ds \<noteq> [] \<and> list_all (\<lambda>c. digit_of c \<noteq> None) ds \<and> n = decimal ds \<and> n < bound)"
proof (cases s)
  case Nil
  then show ?thesis by (simp add: parse_unsigned_def)
next
  case (Cons c cs)
  note iff = parse_digits_iff [OF assms, of _ n, folded decimal_def]
  consider "c = CHR ''+''" | "c = CHR ''-''" | "c \<noteq> CHR ''+''" "c \<noteq> CHR ''-''" by blast
  then show ?thesis
  proof cases
    case 1
    with Cons iff [of cs] show ?thesis by (simp add: parse_unsigned_def)
  next
    case 2
    with Cons iff [of s] show ?thesis by (simp add: parse_unsigned_def)
  next
    case 3
    with Cons iff [of s] show ?thesis by (simp add: parse_unsigned_def del: parse_digits.simps)
  qed
qed

lemma parse_unsigned_less: "0 < bound \<Longrightarrow> parse_unsigned bound s = Some n \<Longrightarrow> n < bound"
  by (simp add: parse_unsigned_iff Let_def)

section \<open>The environment\<close>

datatype env_error = NotSet string | Invalid string

definition env_var :: "(string \<Rightarrow> string option) \<Rightarrow> string \<Rightarrow> (env_error, string) result" where
  "env_var env name = ok_or (NotSet name) (env name)"

text \<open>\<open>parse()\<close> on a variable's text.\<close>

definition parsed :: "(string \<Rightarrow> 'b option) \<Rightarrow> (env_error, string) result \<Rightarrow> (env_error, 'b) result" where
  "parsed p r = and_then r (\<lambda>s. ok_or (Invalid ''invalid value'') (p s))"

definition first :: "'b list \<Rightarrow> 'b option" where
  "first xs = (case xs of [] \<Rightarrow> None | x # _ \<Rightarrow> Some x)"

text \<open>\<open>Duration::from_secs\<close>, in nanoseconds.\<close>

definition from_secs :: "nat \<Rightarrow> nat" where
  "from_secs n = n * 1000000000"

record ('a, 'k) core_env =
  ce_log_directory :: string
  ce_log_filename :: string
  ce_bind_address :: 'a
  ce_db_connection_string :: string
  ce_db_name :: string
  ce_max_notification_content_len :: nat
  ce_max_http_content_len :: nat
  ce_jwt_algorithms :: "algorithm list"
  ce_jwt_key :: 'k
  ce_rabbitmq_connection_string :: string
  ce_rabbitmq_notifications_exchange_name :: string
  ce_rabbitmq_confirmations_exchange_name :: string
  ce_rabbitmq_confirmations_queue_name :: string
  ce_rabbitmq_retry_interval :: nat

definition core_env_parse :: "'k jwt \<Rightarrow> (string \<Rightarrow> 'a option) \<Rightarrow> (string \<Rightarrow> string option) \<Rightarrow>
    (env_error, ('a, 'k) core_env) result" where
  "core_env_parse J addr env =
    and_then (env_var env ''TOM_NOTIFIER_CORE_LOG_DIRECTORY'') (\<lambda>log_directory.
    and_then (env_var env ''TOM_NOTIFIER_CORE_LOG_FILENAME'') (\<lambda>log_filename.
    and_then (parsed addr (env_var env ''TOM_NOTIFIER_CORE_BIND_ADDRESS'')) (\<lambda>bind_address.
    and_then (env_var env ''TOM_NOTIFIER_CORE_DB_CONNECTION_STRING'') (\<lambda>db_connection_string.
    and_then (env_var env ''TOM_NOTIFIER_CORE_DB_NAME'') (\<lambda>db_name.
    and_then (parsed (parse_unsigned (2 ^ 64)) (env_var env ''TOM_NOTIFIER_CORE_MAX_NOTIFICATION_CONTENT_LEN'')) (\<lambda>max_notification_content_len.
    and_then (parsed (parse_unsigned (2 ^ 64)) (env_var env ''TOM_NOTIFIER_CORE_MAX_HTTP_CONTENT_LEN'')) (\<lambda>max_http_content_len.
    and_then (env_var env ''TOM_NOTIFIER_CORE_JWT_ALGORITHMS'') (\<lambda>algorithms_text.
    and_then (map_err Invalid (parse_jwt_algorithms J algorithms_text)) (\<lambda>jwt_algorithms.
    and_then (ok_or (Invalid ''TOM_NOTIFIER_CORE_JWT_ALGORITHMS need to contain at least one algorithm'')
      (first jwt_algorithms)) (\<lambda>jwt_algorithm.
    and_then (env_var env ''TOM_NOTIFIER_CORE_JWT_KEY'') (\<lambda>key_text.
    and_then (map_err Invalid (parse_jwt_key J jwt_algorithm key_text)) (\<lambda>jwt_key.
    and_then (env_var env ''TOM_NOTIFIER_CORE_RABBITMQ_CONNECTION_STRING'') (\<lambda>rabbitmq_connection_string.
    and_then (env_var env ''TOM_NOTIFIER_CORE_RABBITMQ_NOTIFICATIONS_EXCHANGE_NAME'') (\<lambda>rabbitmq_notifications_exchange_name.
    and_then (env_var env ''TOM_NOTIFIER_CORE_RABBITMQ_CONFIRMATIONS_EXCHANGE_NAME'') (\<lambda>rabbitmq_confirmations_exchange_name.
    and_then (env_var env ''TOM_NOTIFIER_CORE_RABBITMQ_CONFIRMATIONS_QUEUE_NAME'') (\<lambda>rabbitmq_confirmations_queue_name.
    and_then (parsed (parse_unsigned (2 ^ 64)) (env_var env ''TOM_NOTIFIER_CORE_RABBITMQ_RETRY_INTERVAL'')) (\<lambda>rabbitmq_retry_interval.
    Ok \<lparr> ce_log_directory = log_directory, ce_log_filename = log_filename,
      ce_bind_address = bind_address, ce_db_connection_string = db_connection_string,
      ce_db_name = db_name, ce_max_notification_content_len = max_notification_content_len,
      ce_max_http_content_len = max_http_content_len, ce_jwt_algorithms = jwt_algorithms,
      ce_jwt_key = jwt_key, ce_rabbitmq_connection_string = rabbitmq_connection_string,
      ce_rabbitmq_notifications_exchange_name = rabbitmq_notifications_exchange_name,
      ce_rabbitmq_confirmations_exchange_name = rabbitmq_confirmations_exchange_name,
      ce_rabbitmq_confirmations_queue_name = rabbitmq_confirmations_queue_name,
      ce_rabbitmq_retry_interval = from_secs rabbitmq_retry_interval \<rparr>)))))))))))))))))"

record ('a, 'k) ws_env =
  we_log_directory :: string
  we_log_filename :: string
  we_bind_address :: 'a
  we_db_connection_string :: string
  we_db_name :: string
  we_websocket_ticket_lifespan :: nat
  we_websocket_ping_interval :: nat
  we_websocket_retry_max_count :: u8
  we_websocket_retry_interval :: nat
  we_websocket_connection_buffer_size :: u8
  we_jwt_algorithms :: "algorithm list"
  we_jwt_key :: 'k
  we_rabbitmq_connection_string :: string
  we_rabbitmq_notifications_exchange_name :: string
  we_rabbitmq_notifications_queue_name :: string
  we_rabbitmq_confirmations_exchange_name :: string
  we_rabbitmq_retry_interval :: nat
  we_rabbitmq_deduplication_notification_lifespan :: nat
  we_rabbitmq_deduplication_garbage_collector_interval :: nat

definition ws_env_parse :: "'k jwt \<Rightarrow> (string \<Rightarrow> 'a option) \<Rightarrow> (string \<Rightarrow> string option) \<Rightarrow>
    (env_error, ('a, 'k) ws_env) result" where
  "ws_env_parse J addr env =
    and_then (env_var env ''TOM_NOTIFIER_WS_DELIVERY_LOG_DIRECTORY'') (\<lambda>log_directory.
    and_then (env_var env ''TOM_NOTIFIER_WS_DELIVERY_LOG_FILENAME'') (\<lambda>log_filename.
    and_then (parsed addr (env_var env ''TOM_NOTIFIER_WS_DELIVERY_BIND_ADDRESS'')) (\<lambda>bind_address.
    and_then (env_var env ''TOM_NOTIFIER_WS_DELIVERY_DB_CONNECTION_STRING'') (\<lambda>db_connection_string.
    and_then (env_var env ''TOM_NOTIFIER_WS_DELIVERY_DB_NAME'') (\<lambda>db_name.
    and_then (parsed (parse_unsigned (2 ^ 64)) (env_var env ''TOM_NOTIFIER_WS_DELIVERY_WEBSOCKET_TICKET_LIFESPAN'')) (\<lambda>websocket_ticket_lifespan.
    and_then (parsed (parse_unsigned (2 ^ 64)) (env_var env ''TOM_NOTIFIER_WS_DELIVERY_WEBSOCKET_PING_INTERVAL'')) (\<lambda>websocket_ping_interval.
    and_then (parsed (parse_unsigned (2 ^ 8)) (env_var env ''TOM_NOTIFIER_WS_DELIVERY_WEBSOCKET_RETRY_MAX_COUNT'')) (\<lambda>websocket_retry_max_count.
    and_then (parsed (parse_unsigned (2 ^ 64)) (env_var env ''TOM_NOTIFIER_WS_DELIVERY_WEBSOCKET_RETRY_INTERVAL'')) (\<lambda>websocket_retry_interval.
    and_then (parsed (parse_unsigned (2 ^ 8)) (env_var env ''TOM_NOTIFIER_WS_DELIVERY_WEBSOCKET_CONNECTION_BUFFER_SIZE'')) (\<lambda>websocket_connection_buffer_size.
    and_then (env_var env ''TOM_NOTIFIER_WS_DELIVERY_JWT_ALGORITHMS'') (\<lambda>algorithms_text.
    and_then (map_err Invalid (parse_jwt_algorithms J algorithms_text)) (\<lambda>jwt_algorithms.
    and_then (ok_or (Invalid ''TOM_NOTIFIER_WS_DELIVERY_JWT_ALGORITHMS need to contain at least one algorithm'')
      (first jwt_algorithms)) (\<lambda>jwt_algorithm.
    and_then (env_var env ''TOM_NOTIFIER_WS_DELIVERY_JWT_KEY'') (\<lambda>key_text.
    and_then (map_err Invalid (parse_jwt_key J jwt_algorithm key_text)) (\<lambda>jwt_key.
    and_then (env_var env ''TOM_NOTIFIER_WS_DELIVERY_RABBITMQ_CONNECTION_STRING'') (\<lambda>rabbitmq_connection_string.
    and_then (env_var env ''TOM_NOTIFIER_WS_DELIVERY_RABBITMQ_NOTIFICATIONS_EXCHANGE_NAME'') (\<lambda>rabbitmq_notifications_exchange_name.
    and_then (env_var env ''TOM_NOTIFIER_WS_DELIVERY_RABBITMQ_NOTIFICATIONS_QUEUE_NAME'') (\<lambda>rabbitmq_notifications_queue_name.
    and_then (env_var env ''TOM_NOTIFIER_WS_DELIVERY_RABBITMQ_CONFIRMATIONS_EXCHANGE_NAME'') (\<lambda>rabbitmq_confirmations_exchange_name.
    and_then (parsed (parse_unsigned (2 ^ 64)) (env_var env ''TOM_NOTIFIER_WS_DELIVERY_RABBITMQ_RETRY_INTERVAL'')) (\<lambda>rabbitmq_retry_interval.
    and_then (parsed (parse_unsigned (2 ^ 64)) (env_var env ''TOM_NOTIFIER_WS_DELIVERY_RABBITMQ_DEDUPLICATION_NOTIFICATION_LIFESPAN'')) (\<lambda>rabbitmq_deduplication_notification_lifespan.
    and_then (parsed (parse_unsigned (2 ^ 64)) (env_var env ''TOM_NOTIFIER_WS_DELIVERY_RABBITMQ_DEDUPLICATION_GARBAGE_COLLECTOR_INTERVAL'')) (\<lambda>rabbitmq_deduplication_garbage_collector_interval.
    Ok \<lparr> we_log_directory = log_directory, we_log_filename = log_filename,
      we_bind_address = bind_address, we_db_connection_string = db_connection_string,
      we_db_name = db_name, we_websocket_ticket_lifespan = from_secs websocket_ticket_lifespan,
      we_websocket_ping_interval = from_secs websocket_ping_interval,
      we_websocket_retry_max_count = word_of_nat websocket_retry_max_count,
      we_websocket_retry_interval = from_secs websocket_retry_interval,
      we_websocket_connection_buffer_size = word_of_nat websocket_connection_buffer_size,
      we_jwt_algorithms = jwt_algorithms, we_jwt_key = jwt_key,
      we_rabbitmq_connection_string = rabbitmq_connection_string,
      we_rabbitmq_notifications_exchange_name = rabbitmq_notifications_exchange_name,
      we_rabbitmq_notifications_queue_name = rabbitmq_notifications_queue_name,
      we_rabbitmq_confirmations_exchange_name = rabbitmq_confirmations_exchange_name,
      we_rabbitmq_retry_interval = from_secs rabbitmq_retry_interval,
      we_rabbitmq_deduplication_notification_lifespan = from_secs rabbitmq_deduplication_notification_lifespan,
      we_rabbitmq_deduplication_garbage_collector_interval = from_secs rabbitmq_deduplication_garbage_collector_interval \<rparr>))))))))))))))))))))))"

section \<open>What is read\<close>

text \<open>The variables of each program, in the order they are read.\<close>

definition core_variables :: "string list" where
  "core_variables =
    [ ''TOM_NOTIFIER_CORE_LOG_DIRECTORY'',
      ''TOM_NOTIFIER_CORE_LOG_FILENAME'',
      ''TOM_NOTIFIER_CORE_BIND_ADDRESS'',
      ''TOM_NOTIFIER_CORE_DB_CONNECTION_STRING'',
      ''TOM_NOTIFIER_CORE_DB_NAME'',
      ''TOM_NOTIFIER_CORE_MAX_NOTIFICATION_CONTENT_LEN'',
      ''TOM_NOTIFIER_CORE_MAX_HTTP_CONTENT_LEN'',
      ''TOM_NOTIFIER_CORE_JWT_ALGORITHMS'',
      ''TOM_NOTIFIER_CORE_JWT_KEY'',
      ''TOM_NOTIFIER_CORE_RABBITMQ_CONNECTION_STRING'',
      ''TOM_NOTIFIER_CORE_RABBITMQ_NOTIFICATIONS_EXCHANGE_NAME'',
      ''TOM_NOTIFIER_CORE_RABBITMQ_CONFIRMATIONS_EXCHANGE_NAME'',
      ''TOM_NOTIFIER_CORE_RABBITMQ_CONFIRMATIONS_QUEUE_NAME'',
      ''TOM_NOTIFIER_CORE_RABBITMQ_RETRY_INTERVAL'' ]"

definition ws_variables :: "string list" where
  "ws_variables =
    [ ''TOM_NOTIFIER_WS_DELIVERY_LOG_DIRECTORY'',
      ''TOM_NOTIFIER_WS_DELIVERY_LOG_FILENAME'',
      ''TOM_NOTIFIER_WS_DELIVERY_BIND_ADDRESS'',
      ''TOM_NOTIFIER_WS_DELIVERY_DB_CONNECTION_STRING'',
      ''TOM_NOTIFIER_WS_DELIVERY_DB_NAME'',
      ''TOM_NOTIFIER_WS_DELIVERY_WEBSOCKET_TICKET_LIFESPAN'',
      ''TOM_NOTIFIER_WS_DELIVERY_WEBSOCKET_PING_INTERVAL'',
      ''TOM_NOTIFIER_WS_DELIVERY_WEBSOCKET_RETRY_MAX_COUNT'',
      ''TOM_NOTIFIER_WS_DELIVERY_WEBSOCKET_RETRY_INTERVAL'',
      ''TOM_NOTIFIER_WS_DELIVERY_WEBSOCKET_CONNECTION_BUFFER_SIZE'',
      ''TOM_NOTIFIER_WS_DELIVERY_JWT_ALGORITHMS'',
      ''TOM_NOTIFIER_WS_DELIVERY_JWT_KEY'',
      ''TOM_NOTIFIER_WS_DELIVERY_RABBITMQ_CONNECTION_STRING'',
      ''TOM_NOTIFIER_WS_DELIVERY_RABBITMQ_NOTIFICATIONS_EXCHANGE_NAME'',
      ''TOM_NOTIFIER_WS_DELIVERY_RABBITMQ_NOTIFICATIONS_QUEUE_NAME'',
      ''TOM_NOTIFIER_WS_DELIVERY_RABBITMQ_CONFIRMATIONS_EXCHANGE_NAME'',
      ''TOM_NOTIFIER_WS_DELIVERY_RABBITMQ_RETRY_INTERVAL'',
      ''TOM_NOTIFIER_WS_DELIVERY_RABBITMQ_DEDUPLICATION_NOTIFICATION_LIFESPAN'',
      ''TOM_NOTIFIER_WS_DELIVERY_RABBITMQ_DEDUPLICATION_GARBAGE_COLLECTOR_INTERVAL'' ]"

text \<open>
  \<open>reads env vs r\<close>: the parser \<open>r\<close> reads the variables \<open>vs\<close>. A missing one it reports is the first of
  them that is not set, and it returns only when all are set.
\<close>

definition reads :: "(string \<Rightarrow> string option) \<Rightarrow> string list \<Rightarrow> (env_error, 'b) result \<Rightarrow> bool" where
  "reads env vs r = (case r of
     Ok _ \<Rightarrow> list_all (\<lambda>v. env v \<noteq> None) vs
   | Err (NotSet v) \<Rightarrow> find (\<lambda>u. env u = None) vs = Some v
   | Err (Invalid _) \<Rightarrow> True)"

lemma reads_Ok: "reads env [] (Ok x)"
  by (simp add: reads_def)

lemma reads_Cons [simp]: "env v = Some s \<Longrightarrow> reads env (v # vs) r \<longleftrightarrow> reads env vs r"
  by (simp add: reads_def split: sum.splits env_error.splits)

lemma reads_var: "(\<And>s. reads env vs (f s)) \<Longrightarrow> reads env (v # vs) (and_then (env_var env v) f)"
  by (cases "env v") (simp_all add: env_var_def, simp add: reads_def)

lemma reads_parsed:
  assumes "\<And>x. reads env vs (f x)"
  shows "reads env (v # vs) (and_then (parsed p (env_var env v)) f)"
proof (cases "env v")
  case None
  then show ?thesis by (simp add: reads_def env_var_def parsed_def)
next
  case (Some s)
  with assms show ?thesis by (cases "p s") (simp_all add: env_var_def parsed_def, simp add: reads_def)
qed

lemma reads_checked:
  "(\<And>x. reads env vs (f x)) \<Longrightarrow> reads env vs (and_then (map_err Invalid r) f)"
  "(\<And>x. reads env vs (f x)) \<Longrightarrow> reads env vs (and_then (ok_or (Invalid e) y) f)"
  by (cases r; simp add: reads_def; fail)
    (cases y; simp add: reads_def)

lemmas reads_intros = reads_Ok reads_var reads_parsed reads_checked

lemma core_env_reads: "reads env core_variables (core_env_parse J addr env)"
  unfolding core_env_parse_def core_variables_def by (intro reads_intros)

lemma ws_env_reads: "reads env ws_variables (ws_env_parse J addr env)"
  unfolding ws_env_parse_def ws_variables_def by (intro reads_intros)

end
