(* ===== verification/Topology.thy ===== *)
theory Topology
  imports Notifications_Producer_Service Websockets_Service
begin

text \<open>
  The RabbitMQ topology: the exchanges, queues and bindings that the constructors of the producer
  and consumer services of both programs declare. The argument types are those of \<open>amqprs\<close>, as far
  as the source fills them; what it leaves out has the library's default, which is \<open>false\<close>. How the
  server routes a message through a direct exchange is the parameter \<open>route\<close>.
\<close>

section \<open>Declarations\<close>

datatype exchange_type = Direct | Fanout | Topic | Headers

record exchange_declare_args =
  ed_exchange :: string
  ed_type :: exchange_type
  ed_durable :: bool

record queue_declare_args =
  qd_queue :: string
  qd_durable :: bool
  qd_exclusive :: bool
  qd_auto_delete :: bool

record queue_bind_args =
  qb_queue :: string
  qb_exchange :: string
  qb_routing_key :: string

record basic_consume_args =
  cn_queue :: string
  cn_no_ack :: bool
  cn_exclusive :: bool

text \<open>What a \<open>RabbitmqConsumer\<close> is created with.\<close>

record consumer_args =
  ca_exchange :: exchange_declare_args
  ca_queue :: queue_declare_args
  ca_binds :: "queue_bind_args list"
  ca_consume :: basic_consume_args

section \<open>The core\<close>

record notifications_producer_service_config =
  np_exchange_name :: string

record confirmations_consumer_service_config =
  cc_exchange :: string
  cc_queue :: string

definition notifications_producer_exchange :: "notifications_producer_service_config \<Rightarrow> exchange_declare_args" where
  "notifications_producer_exchange cfg =
    \<lparr>ed_exchange = np_exchange_name cfg, ed_type = Direct, ed_durable = False\<rparr>"

definition confirmations_consumer_args :: "confirmations_consumer_service_config \<Rightarrow> consumer_args" where
  "confirmations_consumer_args cfg =
    \<lparr> ca_exchange = \<lparr>ed_exchange = cc_exchange cfg, ed_type = Direct, ed_durable = True\<rparr>,
      ca_queue = \<lparr>qd_queue = cc_queue cfg, qd_durable = True, qd_exclusive = False, qd_auto_delete = False\<rparr>,
      ca_binds = [\<lparr>qb_queue = cc_queue cfg, qb_exchange = cc_exchange cfg, qb_routing_key = []\<rparr>],
      ca_consume = \<lparr>cn_queue = cc_queue cfg, cn_no_ack = False, cn_exclusive = False\<rparr> \<rparr>"

section \<open>The delivery\<close>

record confirmations_service_config =
  cs_exchange :: string

record notifications_consumer_service_config =
  nc_exchange :: string
  nc_queue :: string

definition confirmations_service_exchange :: "confirmations_service_config \<Rightarrow> exchange_declare_args" where
  "confirmations_service_exchange cfg =
    \<lparr>ed_exchange = cs_exchange cfg, ed_type = Direct, ed_durable = True\<rparr>"

text \<open>Every instance has a queue of its own: \<open>new_v4\<close> is the identifier it generates.\<close>

definition notifications_queue :: "ext \<Rightarrow> notifications_consumer_service_config \<Rightarrow> uuid \<Rightarrow> string" where
  "notifications_queue X cfg new_v4 = nc_queue cfg @ ''_'' @ uuid_to_string X new_v4"

definition notifications_consumer_args :: "ext \<Rightarrow> notifications_consumer_service_config \<Rightarrow> uuid \<Rightarrow> consumer_args" where
  "notifications_consumer_args X cfg new_v4 =
    (let queue = notifications_queue X cfg new_v4 in
     \<lparr> ca_exchange = \<lparr>ed_exchange = nc_exchange cfg, ed_type = Direct, ed_durable = False\<rparr>,
       ca_queue = \<lparr>qd_queue = queue, qd_durable = False, qd_exclusive = True, qd_auto_delete = True\<rparr>,
       ca_binds =
         [ \<lparr>qb_queue = queue, qb_exchange = nc_exchange cfg, qb_routing_key = ''NEW''\<rparr>,
           \<lparr>qb_queue = queue, qb_exchange = nc_exchange cfg, qb_routing_key = ''UPDATED''\<rparr>,
           \<lparr>qb_queue = queue, qb_exchange = nc_exchange cfg, qb_routing_key = ''DELETED''\<rparr> ],
       ca_consume = \<lparr>cn_queue = queue, cn_no_ack = False, cn_exclusive = True\<rparr> \<rparr>)"

section \<open>Routing\<close>

text \<open>
  A direct exchange passes a message to the queues bound to it with the message's routing key, to
  each once.
\<close>

definition direct_routing :: "(queue_bind_args list \<Rightarrow> string \<Rightarrow> string \<Rightarrow> string list) \<Rightarrow> bool" where
  "direct_routing route \<longleftrightarrow>
    (\<forall>bs x k. distinct (route bs x k) \<and>
      set (route bs x k) = {qb_queue b | b. b \<in> set bs \<and> qb_exchange b = x \<and> qb_routing_key b = k})"

text \<open>The bindings of the core and of the running instances of the delivery.\<close>

definition all_binds :: "ext \<Rightarrow> confirmations_consumer_service_config \<Rightarrow> notifications_consumer_service_config \<Rightarrow>
    uuid list \<Rightarrow> queue_bind_args list" where
  "all_binds X cc nc instances =
    ca_binds (confirmations_consumer_args cc) @
    concat (map (\<lambda>u. ca_binds (notifications_consumer_args X nc u)) instances)"

lemma notifications_queue_inj:
  assumes "identifiers_ok X"
  shows "notifications_queue X cfg u = notifications_queue X cfg v \<longleftrightarrow> u = v"
proof
  assume "notifications_queue X cfg u = notifications_queue X cfg v"
  then have "uuid_to_string X u = uuid_to_string X v" by (simp add: notifications_queue_def)
  then have "uuid_from_str X (uuid_to_string X u) = uuid_from_str X (uuid_to_string X v)" by (rule arg_cong)
  then show "u = v" unfolding identifiers_okD(1) [OF assms] by simp
qed simp

lemma bind_in_image:
  "b \<in> (\<lambda>k. \<lparr>qb_queue = q, qb_exchange = x, qb_routing_key = k\<rparr>) ` K \<longleftrightarrow>
     qb_queue b = q \<and> qb_exchange b = x \<and> qb_routing_key b \<in> K"
  by (cases b) auto

lemma binds_of_notifications:
  "b \<in> set (ca_binds (notifications_consumer_args X nc u)) \<longleftrightarrow>
     qb_queue b = notifications_queue X nc u \<and> qb_exchange b = nc_exchange nc \<and>
     qb_routing_key b \<in> {''NEW'', ''UPDATED'', ''DELETED''}"
  unfolding bind_in_image [symmetric] by (simp add: notifications_consumer_args_def Let_def)

lemma route_of_all_binds:
  assumes "direct_routing route"
  shows "set (route (all_binds X cc nc instances) x k) =
    (if x = cc_exchange cc \<and> k = [] then {cc_queue cc} else {}) \<union>
    (if x = nc_exchange nc \<and> k \<in> {''NEW'', ''UPDATED'', ''DELETED''}
     then notifications_queue X nc ` set instances else {})"
proof -
  have 1: "{qb_queue b | b. b \<in> set (ca_binds (confirmations_consumer_args cc)) \<and> qb_exchange b = x \<and> qb_routing_key b = k} =
      (if x = cc_exchange cc \<and> k = [] then {cc_queue cc} else {})"
    by (auto simp: confirmations_consumer_args_def)
  have 2: "{qb_queue b | b. (\<exists>u \<in> set instances. b \<in> set (ca_binds (notifications_consumer_args X nc u))) \<and>
        qb_exchange b = x \<and> qb_routing_key b = k} =
      (if x = nc_exchange nc \<and> k \<in> {''NEW'', ''UPDATED'', ''DELETED''}
       then notifications_queue X nc ` set instances else {})" (is "?L = ?R")
  proof (rule set_eqI)
    fix q
    have "q \<in> ?L \<longleftrightarrow> (\<exists>u \<in> set instances. q = notifications_queue X nc u \<and> x = nc_exchange nc \<and>
        k \<in> {''NEW'', ''UPDATED'', ''DELETED''})"
    proof
      assume "q \<in> ?L"
      then show "\<exists>u \<in> set instances. q = notifications_queue X nc u \<and> x = nc_exchange nc \<and>
        k \<in> {''NEW'', ''UPDATED'', ''DELETED''}" unfolding binds_of_notifications by blast
    next
      assume "\<exists>u \<in> set instances. q = notifications_queue X nc u \<and> x = nc_exchange nc \<and>
        k \<in> {''NEW'', ''UPDATED'', ''DELETED''}"
      then obtain u where "u \<in> set instances" "q = notifications_queue X nc u" "x = nc_exchange nc"
        "k \<in> {''NEW'', ''UPDATED'', ''DELETED''}" by blast
      then show "q \<in> ?L"
        unfolding binds_of_notifications
        by (intro CollectI exI [of _ "\<lparr>qb_queue = q, qb_exchange = x, qb_routing_key = k\<rparr>"]) auto
    qed
    then show "q \<in> ?L \<longleftrightarrow> q \<in> ?R" by auto
  qed
  have "set (route (all_binds X cc nc instances) x k) =
      {qb_queue b | b. b \<in> set (all_binds X cc nc instances) \<and> qb_exchange b = x \<and> qb_routing_key b = k}"
    using assms by (simp add: direct_routing_def)
  also have "\<dots> = {qb_queue b | b. b \<in> set (ca_binds (confirmations_consumer_args cc)) \<and> qb_exchange b = x \<and> qb_routing_key b = k} \<union>
      {qb_queue b | b. (\<exists>u \<in> set instances. b \<in> set (ca_binds (notifications_consumer_args X nc u))) \<and>
        qb_exchange b = x \<and> qb_routing_key b = k}"
    by (auto simp: all_binds_def)
  finally show ?thesis unfolding 1 2 .
qed

text \<open>The queues that messages published to an exchange reach, one entry per copy.\<close>

definition reached :: "(queue_bind_args list \<Rightarrow> string \<Rightarrow> string \<Rightarrow> string list) \<Rightarrow> queue_bind_args list \<Rightarrow>
    string \<Rightarrow> message list \<Rightarrow> string list" where
  "reached route bs x msgs = concat (map (\<lambda>m. route bs x (routing_key m)) msgs)"

lemma announcement_reaches_instances:
  assumes "direct_routing route" and "identifiers_ok X" and "distinct instances"
    and "k \<in> {''NEW'', ''UPDATED'', ''DELETED''}"
  shows "mset (route (all_binds X cc nc instances) (nc_exchange nc) k) =
    mset (map (notifications_queue X nc) instances)"
proof -
  have "distinct (map (notifications_queue X nc) instances)"
    using assms(3) notifications_queue_inj [OF assms(2)] by (simp add: distinct_map inj_on_def)
  moreover have "distinct (route (all_binds X cc nc instances) (nc_exchange nc) k)"
    using assms(1) by (simp add: direct_routing_def)
  moreover have "set (route (all_binds X cc nc instances) (nc_exchange nc) k) = set (map (notifications_queue X nc) instances)"
    using assms(4) by (auto simp: route_of_all_binds [OF assms(1)])
  ultimately show ?thesis using set_eq_iff_mset_eq_distinct by blast
qed

lemma confirmation_reaches_core:
  assumes "direct_routing route"
  shows "route (all_binds X cc nc instances) (cc_exchange cc) [] = [cc_queue cc]"
proof -
  let ?qs = "route (all_binds X cc nc instances) (cc_exchange cc) []"
  have "distinct ?qs" using assms by (simp add: direct_routing_def)
  moreover have "set ?qs = set [cc_queue cc]" by (simp add: route_of_all_binds [OF assms])
  ultimately have "mset ?qs = mset [cc_queue cc]"
    using set_eq_iff_mset_eq_distinct [of ?qs "[cc_queue cc]"] by simp
  then show ?thesis by simp
qed

text \<open>A routing that satisfies the hypothesis.\<close>

definition ref_route :: "queue_bind_args list \<Rightarrow> string \<Rightarrow> string \<Rightarrow> string list" where
  "ref_route bs x k = remdups (map qb_queue (filter (\<lambda>b. qb_exchange b = x \<and> qb_routing_key b = k) bs))"

lemma ref_route_ok: "direct_routing ref_route"
  by (auto simp: direct_routing_def ref_route_def)

end
