(* ===== verification/Core_Invariants.thy ===== *)
theory Core_Invariants
  imports Core_Server
begin

text \<open>
  What holds of the store over whole runs of \<open>tom-notifier-core\<close>. \<open>store_evolves\<close> says how one
  state of the store may follow another: notifications are never lost or rewritten (only their
  expiry changes), confirmations are never lost, and a deleted one stays deleted. Every operation
  of the repository's contract keeps the store well-formed and lets it evolve, and so do the
  service's operations, the handlers, the confirmations consumer and their runs.
\<close>

section \<open>How the store evolves\<close>

definition extends :: "('a \<Rightarrow> 'a \<Rightarrow> bool) \<Rightarrow> 'a list \<Rightarrow> 'a list \<Rightarrow> bool" where
  "extends R xs ys \<longleftrightarrow> (\<exists>us vs. ys = us @ vs \<and> list_all2 R xs us)"

lemma extends_map: "(\<And>x. R x (f x)) \<Longrightarrow> extends R xs (map f xs)"
  unfolding extends_def
  by (intro exI [of _ "map f xs"] exI [of _ "[]"]) (simp add: list_all2_conv_all_nth)

lemma extends_append: "(\<And>x. R x x) \<Longrightarrow> extends R xs (xs @ ys)"
  unfolding extends_def by (intro exI [of _ xs] exI [of _ ys]) (simp add: list_all2_refl)

lemma extends_refl: "(\<And>x. R x x) \<Longrightarrow> extends R xs xs"
  using extends_append [of R xs "[]"] by simp

lemma extends_trans:
  assumes "\<And>x y z. R x y \<Longrightarrow> R y z \<Longrightarrow> R x z" and "extends R xs ys" and "extends R ys zs"
  shows "extends R xs zs"
proof -
  from assms(2) obtain us vs where ys: "ys = us @ vs" and us: "list_all2 R xs us" by (auto simp: extends_def)
  from assms(3) obtain ss ts where zs: "zs = ss @ ts" and ss: "list_all2 R ys ss" by (auto simp: extends_def)
  from ss ys obtain as bs where ss': "ss = as @ bs" and as: "list_all2 R us as"
    by (auto simp: list_all2_append1)
  have "list_all2 R xs as" by (rule list_all2_trans [OF assms(1) us as])
  with zs ss' show ?thesis unfolding extends_def by (intro exI [of _ as] exI [of _ "bs @ ts"]) simp
qed

lemma extends_update_first: "(\<And>x. R x x) \<Longrightarrow> (\<And>x. R x (f x)) \<Longrightarrow> extends R xs (update_first p f xs)"
proof -
  assume R: "\<And>x. R x x" "\<And>x. R x (f x)"
  have "list_all2 R xs (update_first p f xs)"
    by (induction xs) (auto simp: R list_all2_refl)
  then show ?thesis unfolding extends_def by (intro exI [of _ "update_first p f xs"] exI [of _ "[]"]) simp
qed

text \<open>A confirmation keeps its user and its time, and stays deleted once it is.\<close>

definition confirmation_evolves :: "confirmation \<Rightarrow> confirmation \<Rightarrow> bool" where
  "confirmation_evolves c d \<longleftrightarrow> c_user_id d = c_user_id c \<and> c_delivered_at d = c_delivered_at c \<and>
     (c_deleted c \<longrightarrow> c_deleted d)"

text \<open>A notification keeps everything but its expiry, and its confirmations only grow.\<close>

definition notification_evolves :: "notification \<Rightarrow> notification \<Rightarrow> bool" where
  "notification_evolves n k \<longleftrightarrow>
     k\<lparr>n_confirmations := [], n_invalidate_at := None\<rparr> = n\<lparr>n_confirmations := [], n_invalidate_at := None\<rparr> \<and>
     extends confirmation_evolves (n_confirmations n) (n_confirmations k)"

definition store_evolves :: "notification list \<Rightarrow> notification list \<Rightarrow> bool" where
  "store_evolves = extends notification_evolves"

lemma confirmation_evolves_refl [simp]: "confirmation_evolves c c"
  by (simp add: confirmation_evolves_def)

lemma notification_evolves_refl [simp]: "notification_evolves n n"
  by (simp add: notification_evolves_def extends_refl)

lemma notification_evolves_trans:
  "notification_evolves a b \<Longrightarrow> notification_evolves b c \<Longrightarrow> notification_evolves a c"
  unfolding notification_evolves_def
  by (auto intro: extends_trans [rotated -1] simp: confirmation_evolves_def)

lemma store_evolves_refl [simp]: "store_evolves ns ns"
  by (simp add: store_evolves_def extends_refl)

lemma store_evolves_trans: "store_evolves a b \<Longrightarrow> store_evolves b c \<Longrightarrow> store_evolves a c"
  unfolding store_evolves_def by (rule extends_trans [OF notification_evolves_trans])

lemma store_evolves_insert [simp]: "store_evolves ns (ns @ [n])"
  by (simp add: store_evolves_def extends_append)

lemma operations_evolve [simp]:
  "notification_evolves n (confirm u t n)" "notification_evolves n (mark_seen u b n)"
  "notification_evolves n (mark_deleted u n)" "notification_evolves n (reinvalidate d n)"
  by (simp_all add: notification_evolves_def confirm_def mark_seen_def mark_deleted_def reinvalidate_def
      extends_append extends_refl extends_update_first confirmation_evolves_def)

lemma store_evolves_update_where:
  "(\<And>n. notification_evolves n (f n)) \<Longrightarrow> store_evolves ns (update_where p f ns)"
  unfolding store_evolves_def update_where_def by (rule extends_map) simp

lemmas update_where_evolves [simp] = operations_evolve [THEN store_evolves_update_where]

lemma extends_length: "extends R xs ys \<Longrightarrow> length xs \<le> length ys"
  by (auto simp: extends_def dest: list_all2_lengthD)

lemma extends_nth: "extends R xs ys \<Longrightarrow> i < length xs \<Longrightarrow> R (xs ! i) (ys ! i)"
  by (auto simp: extends_def list_all2_conv_all_nth nth_append)

lemma store_evolves_confirmed:
  assumes "store_evolves ns ns'" and "n \<in> set ns"
  shows "\<exists>k \<in> set ns'. notification_evolves n k"
proof -
  from assms(2) obtain i where i: "i < length ns" "ns ! i = n" by (auto simp: in_set_conv_nth)
  with assms(1) extends_nth [of notification_evolves ns ns' i] extends_length [of notification_evolves ns ns']
  show ?thesis by (intro bexI [of _ "ns' ! i"]) (simp_all add: store_evolves_def)
qed

lemma notification_evolves_confirmed: "notification_evolves n k \<Longrightarrow> confirmed u n \<Longrightarrow> confirmed u k"
proof -
  assume ev: "notification_evolves n k" and "confirmed u n"
  then obtain i where "i < length (n_confirmations n)" "c_user_id (n_confirmations n ! i) = u"
    by (auto simp: confirmed_def list_ex_iff in_set_conv_nth)
  with ev extends_nth [of confirmation_evolves "n_confirmations n" "n_confirmations k" i]
    extends_length [of confirmation_evolves "n_confirmations n" "n_confirmations k"]
  show "confirmed u k"
    by (auto simp: notification_evolves_def confirmation_evolves_def confirmed_def list_ex_iff
        intro!: bexI [of _ "n_confirmations k ! i"])
qed

section \<open>Every operation keeps the store and only lets it evolve\<close>

text \<open>What a repository operation may leave behind, whatever its result.\<close>

definition kept :: "('w \<Rightarrow> notification list \<Rightarrow> bool) \<Rightarrow> notification list \<Rightarrow> 'w \<Rightarrow> bool" where
  "kept H ns w \<longleftrightarrow> (\<exists>ns'. H w ns' \<and> store_evolves ns ns')"

context notifications_repository
begin

abbreviation after :: "notification list \<Rightarrow> 'w \<Rightarrow> bool" where
  "after \<equiv> kept holds"

lemma afterI: "holds w ns' \<Longrightarrow> store_evolves ns ns' \<Longrightarrow> after ns w"
  by (auto simp: kept_def)

lemma after_holds: "holds w ns \<Longrightarrow> after ns w"
  by (auto simp: kept_def)

lemma after_trans: "after ns w \<Longrightarrow> (\<And>ns'. holds w ns' \<Longrightarrow> after ns' w') \<Longrightarrow> after ns w'"
  by (auto simp: kept_def intro: store_evolves_trans)

lemma update_outcome_after:
  "update_outcome holds p f ns res w' \<Longrightarrow> (\<And>n. notification_evolves n (f n)) \<Longrightarrow> after ns w'"
  by (auto simp: update_outcome_def kept_def intro: store_evolves_update_where
      split: sum.splits repo_error.splits)

lemma repository_after:
  assumes "holds w ns"
  shows "nr_insert r us c ia p pn ct cont w = (x1, w') \<Longrightarrow> after ns w'"
    and "nr_update_invalidate_at r i p d w = (x2, w') \<Longrightarrow> after ns w'"
    and "nr_insert_confirmation r i u now w = (x2, w') \<Longrightarrow> after ns w'"
    and "nr_insert_many_confirmations r is u now w = (x2, w') \<Longrightarrow> after ns w'"
    and "nr_update_confirmation_seen r i u b w = (x2, w') \<Longrightarrow> after ns w'"
    and "nr_delete r i u w = (x2, w') \<Longrightarrow> after ns w'"
    and "nr_find_delivered r i u w = (x3, w') \<Longrightarrow> after ns w'"
    and "nr_find_many_delivered r u pg fs w = (x4, w') \<Longrightarrow> after ns w'"
    and "nr_find_many_undelivered r u now w = (x4, w') \<Longrightarrow> after ns w'"
proof -
  show "after ns w'" if "nr_insert r us c ia p pn ct cont w = (x1, w')"
    using insert_Ok [OF assms, of us c ia p pn ct cont _ w']
      insert_Err [OF assms, of us c ia p pn ct cont _ w'] that
    by (cases x1) (auto intro: afterI)
  show "after ns w'" if "nr_update_invalidate_at r i p d w = (x2, w')"
    using update_outcome_after [OF update_invalidate_at [OF assms that]] by simp
  show "after ns w'" if "nr_insert_confirmation r i u now w = (x2, w')"
    using update_outcome_after [OF insert_confirmation [OF assms that]] by simp
  show "after ns w'" if "nr_insert_many_confirmations r is u now w = (x2, w')"
    using insert_many_confirmations_Ok [OF assms, of "is" u now w']
      insert_many_confirmations_Err [OF assms, of "is" u now _ w'] that
    by (cases x2) (auto intro: afterI)
  show "after ns w'" if "nr_update_confirmation_seen r i u b w = (x2, w')"
    using update_outcome_after [OF update_confirmation_seen [OF assms that]] by simp
  show "after ns w'" if "nr_delete r i u w = (x2, w')"
    using update_outcome_after [OF delete [OF assms that]] by simp
  show "after ns w'" if "nr_find_delivered r i u w = (x3, w')"
    using queries_keep(1) [OF assms, of i u] that by (auto intro: after_holds)
  show "after ns w'" if "nr_find_many_delivered r u pg fs w = (x4, w')"
    using queries_keep(2) [OF assms, of u pg fs] that by (auto intro: after_holds)
  show "after ns w'" if "nr_find_many_undelivered r u now w = (x4, w')"
    using queries_keep(3) [OF assms, of u now] that by (auto intro: after_holds)
qed

lemma service_after:
  assumes "holds w ns"
  shows "snd (save_notification Y cfg r ps p n nv nc (w, s)) = (w', s') \<Longrightarrow> after ns w'"
    and "snd (find_undelivered_notifications Y r u nf nc (w, s)) = (w', s') \<Longrightarrow> after ns w'"
    and "snd (find_delivered_notifications Y r u pg fs (w, s)) = (w', s') \<Longrightarrow> after ns w'"
    and "snd (find_delivered_notification Y r i u (w, s)) = (w', s') \<Longrightarrow> after ns w'"
    and "snd (delete_notification r ps i u now (w, s)) = (w', s') \<Longrightarrow> after ns w'"
    and "snd (update_notification_invalidate_at r i p ia now (w, s)) = (w', s') \<Longrightarrow> after ns w'"
    and "snd (update_notification_seen r ps i u b now (w, s)) = (w', s') \<Longrightarrow> after ns w'"
proof -
  show "snd (save_notification Y cfg r ps p n nv nc (w, s)) = (w', s') \<Longrightarrow> after ns w'"
    using repository_after(1) [OF assms] after_holds [OF assms]
    by (auto simp: save_notification_def split: sum.splits prod.splits)
  show "snd (find_undelivered_notifications Y r u nf nc (w, s)) = (w', s') \<Longrightarrow> after ns w'"
    using repository_after(9) [OF assms] after_trans [OF repository_after(9) [OF assms] repository_after(4)]
    by (auto simp: find_undelivered_notifications_def split: sum.splits prod.splits if_splits)
  show "snd (find_delivered_notifications Y r u pg fs (w, s)) = (w', s') \<Longrightarrow> after ns w'"
    using repository_after(8) [OF assms]
    by (auto simp: find_delivered_notifications_def split: sum.splits prod.splits)
  show "snd (find_delivered_notification Y r i u (w, s)) = (w', s') \<Longrightarrow> after ns w'"
    using repository_after(7) [OF assms]
    by (auto simp: find_delivered_notification_def split: sum.splits prod.splits)
  show "snd (delete_notification r ps i u now (w, s)) = (w', s') \<Longrightarrow> after ns w'"
    using repository_after(6) [OF assms]
    by (auto simp: delete_notification_def split: sum.splits prod.splits)
  show "snd (update_notification_invalidate_at r i p ia now (w, s)) = (w', s') \<Longrightarrow> after ns w'"
    using repository_after(2) [OF assms] after_holds [OF assms]
    by (auto simp: update_notification_invalidate_at_def split: sum.splits prod.splits)
  show "snd (update_notification_seen r ps i u b now (w, s)) = (w', s') \<Longrightarrow> after ns w'"
    using repository_after(5) [OF assms]
    by (auto simp: update_notification_seen_def split: sum.splits prod.splits)
qed

lemma confirmation_after:
  assumes "holds w ns" and "confirmation_callback Y P r now msg w = (res, w')"
  shows "after ns w'"
  using assms(2) repository_after(3) [OF assms(1)] after_holds [OF assms(1)]
  by (auto simp: confirmation_callback_def split: option.splits sum.splits prod.splits repo_error.splits)

lemma respond_with_state: "respond_with f rs = (res, st) \<longleftrightarrow> res = and_then (fst rs) (\<lambda>x. Ok (f x)) \<and> st = snd rs"
  by (auto simp: respond_with_def split: prod.splits)

lemma respond_with_snd [simp]: "snd (respond_with f rs) = snd rs"
  by (simp add: respond_with_def split: prod.splits)

lemma core_handler_after:
  assumes h: "holds w ns" and A: "app_repository A = r"
    and run: "core_handler A u req c (w, s) = (res, w', s')"
  shows "after ns w'"
proof -
  have "snd (core_handler A u req c (w, s)) = (w', s')" by (simp add: run)
  then show ?thesis
    using after_holds [OF h]
    by (cases req)
      (auto simp: post_notifications_undelivered_def get_notifications_undelivered_def
        put_notifications_undelivered_invalidate_at_def get_notifications_delivered_def
        get_notification_delivered_def delete_notification_delivered_def put_notification_delivered_seen_def A
        intro: service_after [OF h] split: sum.splits)
qed

lemma core_serve_after:
  assumes h: "holds w ns" and A: "app_repository A = r"
    and run: "core_serve A J key algs c req (w, s) = (resp, w', s')"
  shows "after ns w'"
proof (cases "parse_authorization_header J key algs (authorization req)")
  case (Inl e)
  with run h show ?thesis by (auto simp: core_serve_def call_def intro: after_holds)
next
  case (Inr u)
  obtain res st where hd: "core_handler A u (body req) c (w, s) = (res, st)"
    by (metis surj_pair)
  with Inr run have "st = (w', s')" by (simp add: core_serve_def call_def core_route_def)
  with core_handler_after [OF h A] hd show ?thesis by simp
qed

lemma poll_halves_after:
  assumes "holds w ns"
  shows "find_undelivered_begin r u now w = (res1, w') \<Longrightarrow> after ns w'"
    and "find_undelivered_end Y r u now xs w = (res2, w') \<Longrightarrow> after ns w'"
  using repository_after(4,9) [OF assms] after_holds [OF assms]
  by (auto simp: find_undelivered_begin_def find_undelivered_end_def split: sum.splits prod.splits if_splits)

lemma core_run_after:
  assumes run: "core_run A P J key algs (w0, s0) st" and h: "holds w0 ns" and A: "app_repository A = r"
  shows "after ns (fst st)"
  using run
proof (induction rule: core_run.induct)
  case start
  then show ?case using h by (auto intro: after_holds)
next
  case (serve st c req resp st')
  obtain w s w' s' where st: "st = (w, s)" "st' = (w', s')" by fastforce
  from serve.IH have "after ns w" by (simp add: st)
  then show ?case
    using serve.hyps(2) by (simp add: st) (erule after_trans, erule core_serve_after [OF _ A])
next
  case (confirm w s now msg res w')
  then have "after ns w" by simp
  then show ?case
    using confirm.hyps(2) by (simp add: A) (erule after_trans, erule (1) confirmation_after)
next
  case (poll_begin w s u now res w')
  then have "after ns w" by simp
  then show ?case
    using poll_begin.hyps(2) by (simp add: A) (erule after_trans, erule (1) poll_halves_after(1))
next
  case (poll_end w s u now xs res w')
  then have "after ns w" by simp
  then show ?case
    using poll_end.hyps(2) by (simp add: A) (erule after_trans, erule (1) poll_halves_after(2))
qed

text \<open>
  A poll among other requests: what its first half found is confirmed by its second half, whatever
  ran in between, unless it has expired by then.
\<close>

lemma interleaved_poll_confirms:
  assumes h: "holds w ns" and A: "app_repository A = r"
    and find: "find_undelivered_begin r u nf w = (Ok xs, w1)"
    and run: "core_run A P J key algs (w1, s1) (w2, s2)"
    and conf: "find_undelivered_end X r u nc xs w2 = (Ok outs, w3)"
  shows "outs = map (output_of_repo X) xs"
    and "\<exists>ns'. holds w3 ns' \<and> store_evolves ns ns' \<and>
      (\<forall>x \<in> set xs. \<exists>k \<in> set ns'. n_id k = rn_id x \<and> (confirmed u k \<or> \<not> valid_at (dt_from X nc) k))"
proof -
  show "outs = map (output_of_repo X) xs"
    using conf by (auto simp: find_undelivered_end_def split: if_splits prod.splits sum.splits)
  have find': "nr_find_many_undelivered r u nf w = (Ok xs, w1)"
    using find by (auto simp: find_undelivered_begin_def split: prod.splits)
  from find_many_undelivered [OF h find'] obtain ms
    where ms: "mset ms = mset (filter (undelivered u (dt_from X nf)) ns)" and xs: "xs = map (view X False) ms" by blast
  have h1: "holds w1 ns" using queries_keep(3) [OF h, of u nf] find' by simp
  from core_run_after [OF run h1 A] obtain ns2 where h2: "holds w2 ns2" and ev: "store_evolves ns ns2"
    by (auto simp: kept_def)
  let ?t = "dt_from X nc"
  let ?p = "\<lambda>n. n_id n \<in> set (map rn_id xs) \<and> undelivered u ?t n"
  have h3: "holds w3 (update_where ?p (confirm u ?t) ns2)"
  proof (cases "xs = []")
    case True
    with conf h2 show ?thesis by (simp add: find_undelivered_end_def update_where_def)
  next
    case False
    with conf have "nr_insert_many_confirmations r (map rn_id xs) u nc w2 = (Ok (), w3)"
      by (auto simp: find_undelivered_end_def split: prod.splits sum.splits)
    from insert_many_confirmations_Ok [OF h2 this] show ?thesis .
  qed
  have "\<exists>k \<in> set (update_where ?p (confirm u ?t) ns2). n_id k = rn_id x \<and> (confirmed u k \<or> \<not> valid_at ?t k)"
    if x: "x \<in> set xs" for x
  proof -
    from x xs obtain n where n: "n \<in> set ms" "x = view X False n" by auto
    from n(1) have "n \<in> set (filter (undelivered u (dt_from X nf)) ns)" using mset_eq_setD [OF ms] by simp
    then have "n \<in> set ns" and rec: "recipient u n" by (auto simp: undelivered_def)
    from store_evolves_confirmed [OF ev this(1)] obtain k where k: "k \<in> set ns2" and nk: "notification_evolves n k" by blast
    from nk have eq: "k\<lparr>n_confirmations := [], n_invalidate_at := None\<rparr> = n\<lparr>n_confirmations := [], n_invalidate_at := None\<rparr>"
      by (simp add: notification_evolves_def)
    have id: "n_id k = rn_id x" using arg_cong [OF eq, of n_id] n(2) by (simp add: view_def)
    have rk: "recipient u k" using arg_cong [OF eq, of n_user_ids] rec by (simp add: recipient_def)
    show ?thesis
    proof (cases "?p k")
      case True
      with k have "confirm u ?t k \<in> set (update_where ?p (confirm u ?t) ns2)" by (auto simp: set_update_where)
      then show ?thesis using id by (intro bexI [of _ "confirm u ?t k"]) simp_all
    next
      case False
      with k have "k \<in> set (update_where ?p (confirm u ?t) ns2)" by (simp add: set_update_where)
      moreover have "confirmed u k \<or> \<not> valid_at ?t k" using False x id rk by (force simp: undelivered_def)
      ultimately show ?thesis using id by blast
    qed
  qed
  then have "\<forall>x \<in> set xs. \<exists>k \<in> set (update_where ?p (confirm u ?t) ns2).
      n_id k = rn_id x \<and> (confirmed u k \<or> \<not> valid_at ?t k)" by blast
  moreover have "store_evolves ns (update_where ?p (confirm u ?t) ns2)"
    by (rule store_evolves_trans [OF ev update_where_evolves(1)])
  ultimately show "\<exists>ns'. holds w3 ns' \<and> store_evolves ns ns' \<and>
      (\<forall>x \<in> set xs. \<exists>k \<in> set ns'. n_id k = rn_id x \<and> (confirmed u k \<or> \<not> valid_at ?t k))"
    using h3 by blast
qed

text \<open>Hence a later poll returns it again only if it had expired, and its expiry was changed since.\<close>

lemma later_poll_excludes:
  assumes wf: "\<And>w ns. holds w ns \<Longrightarrow> well_formed ns" and h: "holds w ns" and A: "app_repository A = r"
    and run: "core_run A P J key algs (w, s) (w', s')"
    and find: "find_undelivered_begin r u nf w' = (Ok ys, w'')"
    and k: "k \<in> set ns" "confirmed u k"
  shows "n_id k \<notin> rn_id ` set ys"
proof
  assume "n_id k \<in> rn_id ` set ys"
  from core_run_after [OF run h A] obtain ns' where h': "holds w' ns'" and ev: "store_evolves ns ns'"
    by (auto simp: kept_def)
  have "nr_find_many_undelivered r u nf w' = (Ok ys, w'')"
    using find by (auto simp: find_undelivered_begin_def split: prod.splits)
  from find_many_undelivered [OF h' this] obtain ms
    where ms: "mset ms = mset (filter (undelivered u (dt_from X nf)) ns')" and ys: "ys = map (view X False) ms" by blast
  from \<open>n_id k \<in> rn_id ` set ys\<close> obtain n where "n \<in> set ms" and id: "n_id n = n_id k"
    by (auto simp: ys view_def)
  then have n: "n \<in> set ns'" "\<not> confirmed u n" using mset_eq_setD [OF ms] by (auto simp: undelivered_def)
  from store_evolves_confirmed [OF ev k(1)] obtain k' where k': "k' \<in> set ns'" "notification_evolves k k'" by blast
  then have "k'\<lparr>n_confirmations := [], n_invalidate_at := None\<rparr> = k\<lparr>n_confirmations := [], n_invalidate_at := None\<rparr>"
    by (simp add: notification_evolves_def)
  from arg_cong [OF this, of n_id] have "n_id k' = n_id n" by (simp add: id)
  with well_formedD(1) [OF wf [OF h']] n(1) k'(1) have "k' = n" by (simp add: distinct_map inj_on_def)
  with notification_evolves_confirmed [OF k'(2) k(2)] n(2) show False by simp
qed

end

end
