(* ===== verification/Ws_Server.thy ===== *)
theory Ws_Server
  imports Websockets_Service Tickets Jwt_Auth
begin

text \<open>
  The HTTP side of \<open>tom-notifier-ws-delivery\<close> (\<open>routing.rs\<close>): the handlers with their role check
  and status codes, and the application, whose WebSocket route is outside the authentication
  layer: there the ticket is the credential.
\<close>

section \<open>The handlers\<close>

definition Admin :: string where
  "Admin = ''tom_notifier_admin''"

text \<open>
  A request that axum's extractors accepted. \<open>Upgraded\<close> is the response that switches protocols:
  the user whose connection the closure given to \<open>on_upgrade\<close> will handle.
\<close>

datatype ws_request = GetTicket | DeleteConnection uuid | WebsocketUpgrade websocket_ticket

datatype ws_body = TicketBody websocket_ticket | Upgraded uuid

type_synonym ws_response = "ws_body response"

record 'w ws_app =
  wa_ext :: ext
  wa_ticket_lifespan :: nat
  wa_tickets :: "'w tickets_repository"

text \<open>The clock reading and the generated identifier a request may need.\<close>

record ws_inputs =
  wi_now :: offset_date_time
  wi_uuid :: uuid

definition ws_into_response :: "(ws_error, ws_response) result \<Rightarrow> ws_response" where
  "ws_into_response r = (case r of Ok resp \<Rightarrow> resp
     | Err e \<Rightarrow> \<lparr>response_status = ws_error_status e, response_body = None\<rparr>)"

definition get_ticket :: "'w ws_app \<Rightarrow> user \<Rightarrow> ws_inputs \<Rightarrow> 'w \<times> 'b ws_service \<Rightarrow>
    (ws_error, ws_response) result \<times> 'w \<times> 'b ws_service" where
  "get_ticket A u x st =
    (case st of (w, s) \<Rightarrow>
      (case create_ticket (wa_ext A) (wa_ticket_lifespan A) (wa_tickets A) (user_id u) (wi_now x) (wi_uuid x) w of
         (Err e, w') \<Rightarrow> (Err e, w', s)
       | (Ok ticket, w') \<Rightarrow> (Ok \<lparr>response_status = OK, response_body = Some (TicketBody ticket)\<rparr>, w', s)))"

definition delete_connection :: "user \<Rightarrow> uuid \<Rightarrow> 'w \<times> 'b ws_service \<Rightarrow>
    (ws_error, ws_response) result \<times> 'w \<times> 'b ws_service" where
  "delete_connection u user st =
    (case require_all_roles u [Admin] of
       Err e \<Rightarrow> (Err (Ws_Auth e), st)
     | Ok _ \<Rightarrow> (case st of (w, s) \<Rightarrow>
         (Ok \<lparr>response_status = NO_CONTENT, response_body = None\<rparr>, w, close_connections user s)))"

definition websocket_upgrade :: "'w ws_app \<Rightarrow> websocket_ticket \<Rightarrow> ws_inputs \<Rightarrow> 'w \<times> 'b ws_service \<Rightarrow>
    (ws_error, ws_response) result \<times> 'w \<times> 'b ws_service" where
  "websocket_upgrade A tk x st =
    (case st of (w, s) \<Rightarrow>
      (case consume_ticket (wa_tickets A) tk (wi_now x) w of
         (Err e, w') \<Rightarrow> (Err e, w', s)
       | (Ok t, w') \<Rightarrow>
           (Ok \<lparr>response_status = SWITCHING_PROTOCOLS, response_body = Some (Upgraded (t_user_id t))\<rparr>, w', s)))"

section \<open>The application\<close>

definition ws_authenticated :: "'w ws_app \<Rightarrow> ws_inputs \<Rightarrow> ws_request request \<Rightarrow> 'w \<times> 'b ws_service \<Rightarrow>
    ws_response \<times> 'w \<times> 'b ws_service" where
  "ws_authenticated A x req st =
    (case extension req of
       None \<Rightarrow> (\<lparr>response_status = INTERNAL_SERVER_ERROR, response_body = None\<rparr>, st)
     | Some u \<Rightarrow>
         (case (case body req of
                  GetTicket \<Rightarrow> get_ticket A u x st
                | DeleteConnection user \<Rightarrow> delete_connection u user st
                | WebsocketUpgrade tk \<Rightarrow> websocket_upgrade A tk x st) of
            (r, st') \<Rightarrow> (ws_into_response r, st')))"

text \<open>The route \<open>/ws/v1\<close> is added after \<open>route_layer\<close>: the layer does not cover it.\<close>

definition ws_serve :: "'w ws_app \<Rightarrow> 'k jwt \<Rightarrow> 'k \<Rightarrow> algorithm list \<Rightarrow> ws_inputs \<Rightarrow> ws_request request \<Rightarrow>
    'w \<times> 'b ws_service \<Rightarrow> ws_response \<times> 'w \<times> 'b ws_service" where
  "ws_serve A J key algs x req st =
    (case body req of
       WebsocketUpgrade tk \<Rightarrow>
         (case websocket_upgrade A tk x st of (r, st') \<Rightarrow> (ws_into_response r, st'))
     | _ \<Rightarrow>
         (case call J key algs (ws_authenticated A x) req of
            Authorized inner \<Rightarrow> inner st
          | Unauthorized \<Rightarrow> (\<lparr>response_status = UNAUTHORIZED, response_body = None\<rparr>, st)))"

section \<open>What a client can do\<close>

text \<open>Without a valid token: no ticket and no closed connection, and nothing changes.\<close>

lemma ws_serve_unauthorized:
  assumes "parse_authorization_header J key algs (authorization req) = Err e"
    and "\<And>tk. body req \<noteq> WebsocketUpgrade tk"
  shows "ws_serve A J key algs x req st = (\<lparr>response_status = UNAUTHORIZED, response_body = None\<rparr>, st)"
  using assms by (auto simp: ws_serve_def call_def split: ws_request.splits)

text \<open>Connections are closed for an administrator only; anybody else is answered 403.\<close>

lemma ws_serve_delete_connection:
  assumes "parse_authorization_header J key algs (authorization req) = Ok u"
    and "body req = DeleteConnection user"
  shows "ws_serve A J key algs x req (w, s) =
    (if Admin \<in> set (roles u)
     then (\<lparr>response_status = NO_CONTENT, response_body = None\<rparr>, w, close_connections user s)
     else (\<lparr>response_status = FORBIDDEN, response_body = None\<rparr>, w, s))"
  using assms
  by (auto simp: ws_serve_def call_def ws_authenticated_def delete_connection_def ws_into_response_def list_ex_iff)

context tickets_repository
begin

text \<open>The protocol is switched exactly for an unused ticket that has not expired, for its user.\<close>

lemma ws_serve_upgrade:
  assumes h: "holds w ts" and A: "wa_tickets A = r" and b: "body req = WebsocketUpgrade tk"
    and run: "ws_serve A J key algs x req (w, s) = (resp, w', s')"
  shows "s' = s"
    and "response_status resp \<in> {SWITCHING_PROTOCOLS, UNAUTHORIZED, INTERNAL_SERVER_ERROR}"
    and "response_status resp = SWITCHING_PROTOCOLS \<Longrightarrow> \<exists>e. find (\<lambda>e. te_ticket e = wt_ticket tk) ts = Some e \<and>
      te_used_at e = None \<and> wi_now x \<le> dt_into X (te_expire_at e) \<and>
      response_body resp = Some (Upgraded (te_user_id e)) \<and> holds w' (use_ticket (te_id e) (dt_from X (wi_now x)) ts)"
    and "response_status resp = UNAUTHORIZED \<Longrightarrow> holds w' ts \<and>
      (case find (\<lambda>e. te_ticket e = wt_ticket tk) ts of None \<Rightarrow> True
       | Some e \<Rightarrow> te_used_at e \<noteq> None \<or> dt_into X (te_expire_at e) < wi_now x)"
proof -
  obtain res w1 where res: "consume_ticket r tk (wi_now x) w = (res, w1)" by fastforce
  note out = consume_ticket_outcome [OF h res]
  have "s' = s \<and> response_status resp \<in> {SWITCHING_PROTOCOLS, UNAUTHORIZED, INTERNAL_SERVER_ERROR} \<and>
    (response_status resp = SWITCHING_PROTOCOLS \<longrightarrow> (\<exists>e. find (\<lambda>e. te_ticket e = wt_ticket tk) ts = Some e \<and>
      te_used_at e = None \<and> wi_now x \<le> dt_into X (te_expire_at e) \<and>
      response_body resp = Some (Upgraded (te_user_id e)) \<and> holds w' (use_ticket (te_id e) (dt_from X (wi_now x)) ts))) \<and>
    (response_status resp = UNAUTHORIZED \<longrightarrow> holds w' ts \<and>
      (case find (\<lambda>e. te_ticket e = wt_ticket tk) ts of None \<Rightarrow> True
       | Some e \<Rightarrow> te_used_at e \<noteq> None \<or> dt_into X (te_expire_at e) < wi_now x))"
  proof (cases res)
    case (Inl e)
    with run b A res out show ?thesis
      by (cases e) (auto simp: ws_serve_def websocket_upgrade_def ws_into_response_def)
  next
    case (Inr t)
    with run b A res out show ?thesis
      by (auto simp: ws_serve_def websocket_upgrade_def ws_into_response_def ticket_of_entity_def)
  qed
  then show "s' = s" "response_status resp \<in> {SWITCHING_PROTOCOLS, UNAUTHORIZED, INTERNAL_SERVER_ERROR}"
    "response_status resp = SWITCHING_PROTOCOLS \<Longrightarrow> \<exists>e. find (\<lambda>e. te_ticket e = wt_ticket tk) ts = Some e \<and>
      te_used_at e = None \<and> wi_now x \<le> dt_into X (te_expire_at e) \<and>
      response_body resp = Some (Upgraded (te_user_id e)) \<and> holds w' (use_ticket (te_id e) (dt_from X (wi_now x)) ts)"
    "response_status resp = UNAUTHORIZED \<Longrightarrow> holds w' ts \<and>
      (case find (\<lambda>e. te_ticket e = wt_ticket tk) ts of None \<Rightarrow> True
       | Some e \<Rightarrow> te_used_at e \<noteq> None \<or> dt_into X (te_expire_at e) < wi_now x)" by blast+
qed

end

end
