(* ===== verification/Deduplication.thy ===== *)
theory Deduplication
  imports Protobuf Ws_Types
begin

text \<open>
  \<open>notifications_deduplication_service\<close>: the time of the last update processed of every
  notification, \<open>deduplicate\<close>, and the garbage collector's rounds. The \<open>HashMap\<close> is a map whose
  lock makes each operation atomic; the operations may come in any order.
\<close>

section \<open>The operations\<close>

record notification_status_update =
  nsu_id :: object_id
  nsu_timestamp :: offset_date_time

text \<open>\<open>TryFrom<&NotificationProtobuf>\<close>; \<open>as u32\<close> keeps the bits of the nanoseconds.\<close>

definition status_update_try_from :: "ext \<Rightarrow> notification_protobuf \<Rightarrow>
    (string, notification_status_update) result" where
  "status_update_try_from X value' =
     and_then (ok_or ''notification invalid: invalid object id'' (oid_from_str X (np_id value'))) (\<lambda>i.
     and_then (ok_or ''notification invalid: missing timestamp field'' (np_timestamp value')) (\<lambda>ts.
     and_then (ok_or ''notification invalid: invalid timestamp: invalid seconds''
       (from_unix_timestamp X (seconds ts))) (\<lambda>t.
     and_then (ok_or ''notification invalid: invalid timestamp: invalid nanos''
       (replace_nanosecond X t (nanos ts))) (\<lambda>t.
     Ok \<lparr>nsu_id = i, nsu_timestamp = t\<rparr>))))"

type_synonym last_updates = "object_id \<rightharpoonup> offset_date_time"

definition deduplicate :: "notification_status_update \<Rightarrow> last_updates \<Rightarrow>
    (ws_error, unit) result \<times> last_updates" where
  "deduplicate notification m =
    (case m (nsu_id notification) of
       Some datetime \<Rightarrow>
         if datetime < nsu_timestamp notification
         then (Ok (), m(nsu_id notification \<mapsto> nsu_timestamp notification))
         else (Err Duplicate, m)
     | None \<Rightarrow> (Ok (), m(nsu_id notification \<mapsto> nsu_timestamp notification)))"

text \<open>One round of the garbage collector: \<open>retain(|_, timestamp| *timestamp > min_timestamp)\<close>.\<close>

definition collect_garbage :: "nat \<Rightarrow> offset_date_time \<Rightarrow> last_updates \<Rightarrow> last_updates" where
  "collect_garbage notification_lifespan now m =
    (let min_timestamp = now - int notification_lifespan
     in (\<lambda>i. case m i of Some t \<Rightarrow> if t > min_timestamp then Some t else None | None \<Rightarrow> None))"

text \<open>
  The service: the shared map, the permit of \<open>close_notify\<close>, and whether the collector's task runs. A
  tick comes when the interval says so; \<open>select!\<close> is \<open>biased\<close>, so after \<open>close\<close> the task ends instead.
\<close>

record deduplication_service =
  ds_last_updates :: last_updates
  ds_close_notified :: bool
  ds_collecting :: bool

definition deduplication_service_new :: deduplication_service where
  "deduplication_service_new = \<lparr>ds_last_updates = Map.empty, ds_close_notified = False, ds_collecting = True\<rparr>"

definition collector_run :: "nat \<Rightarrow> offset_date_time \<Rightarrow> deduplication_service \<Rightarrow> deduplication_service" where
  "collector_run lifespan now d =
    (if \<not> ds_collecting d then d
     else if ds_close_notified d then d\<lparr>ds_close_notified := False, ds_collecting := False\<rparr>
     else d\<lparr>ds_last_updates := collect_garbage lifespan now (ds_last_updates d)\<rparr>)"

definition deduplication_close :: "deduplication_service \<Rightarrow> deduplication_service" where
  "deduplication_close d = d\<lparr>ds_close_notified := True\<rparr>"

text \<open>\<open>close\<close> can wait for the task: the next time it is scheduled it ends, and collects nothing more.\<close>

lemma closed_collector_ends:
  assumes "ds_collecting d"
  shows "fold (collector_run lifespan) (now # nows) (deduplication_close d) =
    d\<lparr>ds_close_notified := False, ds_collecting := False\<rparr>"
proof -
  have "fold (collector_run lifespan) nows e = e" if "\<not> ds_collecting e" for e
    using that by (induction nows) (simp_all add: collector_run_def)
  with assms show ?thesis by (simp add: collector_run_def deduplication_close_def)
qed

section \<open>Runs\<close>

datatype dedup_event = Update notification_status_update | Collect offset_date_time

fun dedup_step :: "nat \<Rightarrow> dedup_event \<Rightarrow> last_updates \<Rightarrow> last_updates" where
  "dedup_step lifespan (Update n) m = snd (deduplicate n m)"
| "dedup_step lifespan (Collect now) m = collect_garbage lifespan now m"

definition dedup_run :: "nat \<Rightarrow> dedup_event list \<Rightarrow> last_updates \<Rightarrow> last_updates" where
  "dedup_run lifespan evs m = fold (dedup_step lifespan) evs m"

definition accepted :: "nat \<Rightarrow> dedup_event list \<Rightarrow> notification_status_update \<Rightarrow> bool" where
  "accepted lifespan evs n \<longleftrightarrow> fst (deduplicate n (dedup_run lifespan evs Map.empty)) = Ok ()"

lemma deduplicate_cases:
  "fst (deduplicate n m) = Ok () \<longleftrightarrow> (\<forall>t. m (nsu_id n) = Some t \<longrightarrow> t < nsu_timestamp n)"
  "fst (deduplicate n m) \<noteq> Ok () \<Longrightarrow> deduplicate n m = (Err Duplicate, m)"
  "fst (deduplicate n m) = Ok () \<Longrightarrow> snd (deduplicate n m) = m(nsu_id n \<mapsto> nsu_timestamp n)"
  by (auto simp: deduplicate_def split: option.splits)

text \<open>An entry only moves forward, until a collection finds it older than the lifespan.\<close>

lemma dedup_run_forward:
  assumes "m i = Some t"
    and "\<And>now. Collect now \<in> set evs \<Longrightarrow> now - int lifespan < t"
  shows "\<exists>t' \<ge> t. dedup_run lifespan evs m i = Some t'"
proof -
  have "\<exists>t' \<ge> t. fold (dedup_step lifespan) evs m i = Some t'" if "m i = Some s" "t \<le> s" for s m
    using assms(2) that
  proof (induction evs arbitrary: m s)
    case Nil
    then show ?case by auto
  next
    case (Cons ev evs)
    have "\<exists>s' \<ge> s. dedup_step lifespan ev m i = Some s'"
    proof (cases ev)
      case (Update n)
      with Cons.prems(2) show ?thesis by (auto simp: deduplicate_def split: option.splits)
    next
      case (Collect now)
      with Cons.prems(1) [of now] Cons.prems(2,3) show ?thesis by (auto simp: collect_garbage_def Let_def)
    qed
    then obtain s' where "dedup_step lifespan ev m i = Some s'" "t \<le> s'" using Cons.prems(3) by auto
    from Cons.IH [where m = "dedup_step lifespan ev m", OF _ this] Cons.prems(1) show ?case by auto
  qed
  from this [where m = m, OF assms(1)] show ?thesis by (simp add: dedup_run_def)
qed

text \<open>An entry was put there by an accepted update.\<close>

lemma dedup_run_entry:
  "dedup_run lifespan evs Map.empty i = Some t \<Longrightarrow>
     \<exists>as n bs. evs = as @ Update n # bs \<and> nsu_id n = i \<and> nsu_timestamp n = t \<and> accepted lifespan as n"
proof (induction evs rule: rev_induct)
  case Nil
  then show ?case by (simp add: dedup_run_def)
next
  case (snoc ev evs)
  let ?m = "dedup_run lifespan evs Map.empty"
  have run: "dedup_run lifespan (evs @ [ev]) Map.empty = dedup_step lifespan ev ?m"
    by (simp add: dedup_run_def)
  have "?m i = Some t \<or> (\<exists>n. ev = Update n \<and> nsu_id n = i \<and> nsu_timestamp n = t \<and> accepted lifespan evs n)"
    using snoc.prems [unfolded run]
    by (cases ev) (auto simp: accepted_def deduplicate_def collect_garbage_def Let_def
        split: option.splits if_splits)
  then show ?case
  proof
    assume "?m i = Some t"
    from snoc.IH [OF this] obtain as n bs where "evs = as @ Update n # bs" "nsu_id n = i"
      "nsu_timestamp n = t" "accepted lifespan as n" by blast
    then show ?thesis by (intro exI [of _ as] exI [of _ n] exI [of _ "bs @ [ev]"]) simp
  qed auto
qed

text \<open>
  Two accepted updates of a notification come in the order of their timestamps, unless the first
  was older than the lifespan when the garbage collector ran in between.
\<close>

lemma accepted_increasing:
  assumes "accepted lifespan as n" and "nsu_id n' = nsu_id n"
    and "accepted lifespan (as @ Update n # bs) n'"
    and "\<And>now. Collect now \<in> set bs \<Longrightarrow> now - int lifespan < nsu_timestamp n"
  shows "nsu_timestamp n < nsu_timestamp n'"
proof -
  let ?m = "dedup_run lifespan as Map.empty"
  have "snd (deduplicate n ?m) (nsu_id n) = Some (nsu_timestamp n)"
    using assms(1) deduplicate_cases(3) by (simp add: accepted_def)
  from dedup_run_forward [where m = "snd (deduplicate n ?m)", OF this assms(4)]
  obtain t' where "nsu_timestamp n \<le> t'"
    and "dedup_run lifespan bs (snd (deduplicate n ?m)) (nsu_id n) = Some t'" by blast
  moreover have "dedup_run lifespan (as @ Update n # bs) Map.empty =
      dedup_run lifespan bs (snd (deduplicate n ?m))" by (simp add: dedup_run_def)
  ultimately show ?thesis using assms(2,3) deduplicate_cases(1) by (fastforce simp: accepted_def)
qed

text \<open>An update is refused only for an accepted one of the same notification at least as recent.\<close>

lemma refused_reason:
  assumes "\<not> accepted lifespan evs n"
  shows "\<exists>as n' bs. evs = as @ Update n' # bs \<and> nsu_id n' = nsu_id n \<and> accepted lifespan as n' \<and>
    nsu_timestamp n \<le> nsu_timestamp n'"
proof -
  from assms obtain t where "dedup_run lifespan evs Map.empty (nsu_id n) = Some t" and "nsu_timestamp n \<le> t"
    unfolding accepted_def deduplicate_cases by auto
  with dedup_run_entry [of lifespan evs "nsu_id n" t] show ?thesis by metis
qed

text \<open>The collector forgets exactly what is older than the lifespan: the map does not grow for ever.\<close>

lemma collect_garbage_young:
  "collect_garbage lifespan now m i = Some t \<longleftrightarrow> m i = Some t \<and> now - int lifespan < t"
  by (auto simp: collect_garbage_def Let_def split: option.splits)

end
