(* ===== verification/Rabbit_Connection.thy ===== *)
theory Rabbit_Connection
  imports Retry
begin

text \<open>
  \<open>shared/rabbitmq_client/src/connection\<close>: the background task that keeps one RabbitMQ connection
  alive, as a state machine whose states are those of \<open>state_machine.rs\<close> and whose transition
  functions are its \<open>*_state\<close> methods. What \<open>amqprs\<close> and the network do is an input: the outcomes
  of the successive \<open>open\<close> and \<open>register_callback\<close> attempts and which branch of a \<open>select!\<close>
  completes first. Of the two \<open>watch\<close> channels the machine holds the sender's current value:
  what producers and consumers see of the connection and of the blocked signal.
\<close>

section \<open>The state machine\<close>

datatype connection_state = ConnectionOk | ClosingConnection | RestoringConnection | RestoringCallback

record 'c connection_machine =
  cm_connection :: 'c
  cm_connection_tx :: "'c option"
  cm_blocked_tx :: bool
  cm_state :: connection_state

text \<open>\<open>RabbitmqConnection::new\<close>: open, register the callback, start the machine.\<close>

definition connection_new :: "('e, 'c) result \<Rightarrow> ('e, unit) result \<Rightarrow> ('e, 'c connection_machine) result" where
  "connection_new opened registered =
     and_then opened (\<lambda>c. and_then registered (\<lambda>_. Ok
       \<lparr>cm_connection = c, cm_connection_tx = Some c, cm_blocked_tx = False, cm_state = ConnectionOk\<rparr>))"

text \<open>\<open>listen_network_io_failure\<close> has returned.\<close>

definition connection_ok_state :: "'c connection_machine \<Rightarrow> 'c connection_machine" where
  "connection_ok_state m = m\<lparr>cm_state := ClosingConnection\<rparr>"

text \<open>The outcome of closing the old connection is only logged.\<close>

definition closing_connection_state :: "('e, unit) result \<Rightarrow> 'c connection_machine \<Rightarrow> 'c connection_machine" where
  "closing_connection_state closed m = m\<lparr>cm_connection_tx := None, cm_state := RestoringConnection\<rparr>"

definition restoring_connection_state :: "(nat \<Rightarrow> ('e, 'c) result) \<Rightarrow> 'c connection_machine \<Rightarrow>
    'c connection_machine option" where
  "restoring_connection_state opens m =
     map_option (\<lambda>c. m\<lparr>cm_connection := c, cm_blocked_tx := False, cm_state := RestoringCallback\<rparr>)
       (retry opens)"

text \<open>The branch of the \<open>select!\<close> that completes: the failure, or the registration loop.\<close>

datatype 'e callback_branch = IoFailure | Registrations "nat \<Rightarrow> ('e, unit) result"

definition restoring_callback_state :: "'e callback_branch \<Rightarrow> 'c connection_machine \<Rightarrow>
    'c connection_machine option" where
  "restoring_callback_state branch m =
    (case branch of
       IoFailure \<Rightarrow> Some (m\<lparr>cm_state := ClosingConnection\<rparr>)
     | Registrations registers \<Rightarrow>
         map_option (\<lambda>_. m\<lparr>cm_connection_tx := Some (cm_connection m), cm_state := ConnectionOk\<rparr>)
           (retry registers))"

text \<open>\<open>ConnectionCallback\<close>: the server blocks or unblocks the connection, at any time.\<close>

definition connection_blocked :: "'c connection_machine \<Rightarrow> 'c connection_machine" where
  "connection_blocked m = m\<lparr>cm_blocked_tx := True\<rparr>"

definition connection_unblocked :: "'c connection_machine \<Rightarrow> 'c connection_machine" where
  "connection_unblocked m = m\<lparr>cm_blocked_tx := False\<rparr>"

text \<open>
  \<open>RabbitmqConnection::close\<close> stops the task only when this is the last clone; \<open>run\<close> then closes
  the connection the machine holds and ends. \<open>None\<close> is the early return.
\<close>

definition connection_close :: "nat \<Rightarrow> 'c connection_machine \<Rightarrow> 'c option" where
  "connection_close clones m = (if clones = 1 then Some (cm_connection m) else None)"

section \<open>Its runs\<close>

datatype ('e, 'c) connection_event =
    ConnectionFailed
  | ConnectionClosed "('e, unit) result"
  | ConnectionOpens "nat \<Rightarrow> ('e, 'c) result"
  | CallbackBranch "'e callback_branch"
  | Blocked
  | Unblocked

inductive connection_step :: "'c connection_machine \<Rightarrow> ('e, 'c) connection_event \<Rightarrow> 'c connection_machine \<Rightarrow> bool" where
  ok: "cm_state m = ConnectionOk \<Longrightarrow> connection_step m ConnectionFailed (connection_ok_state m)"
| closing: "cm_state m = ClosingConnection \<Longrightarrow>
    connection_step m (ConnectionClosed r) (closing_connection_state r m)"
| restoring: "cm_state m = RestoringConnection \<Longrightarrow> restoring_connection_state opens m = Some m' \<Longrightarrow>
    connection_step m (ConnectionOpens opens) m'"
| callback: "cm_state m = RestoringCallback \<Longrightarrow> restoring_callback_state b m = Some m' \<Longrightarrow>
    connection_step m (CallbackBranch b) m'"
| blocked: "connection_step m Blocked (connection_blocked m)"
| unblocked: "connection_step m Unblocked (connection_unblocked m)"

inductive_cases connection_stepE: "connection_step m e m'"

lemmas connection_state_defs [step_defs] = connection_ok_state_def closing_connection_state_def
  restoring_connection_state_def restoring_callback_state_def connection_blocked_def connection_unblocked_def

inductive connection_run :: "'c connection_machine \<Rightarrow> ('e, 'c) connection_event list \<Rightarrow> 'c connection_machine \<Rightarrow> bool" where
  start: "connection_run m [] m"
| step: "connection_run m es m' \<Longrightarrow> connection_step m' e m'' \<Longrightarrow> connection_run m (es @ [e]) m''"

text \<open>
  Producers and consumers see a connection exactly while the machine has not noticed its failure,
  and it is the one the machine holds; while a connection is being replaced they see none.
\<close>

fun published_ok :: "'c connection_machine \<Rightarrow> bool" where
  "published_ok m = (case cm_state m of
     ConnectionOk \<Rightarrow> cm_connection_tx m = Some (cm_connection m)
   | ClosingConnection \<Rightarrow> cm_connection_tx m = None \<or> cm_connection_tx m = Some (cm_connection m)
   | RestoringConnection \<Rightarrow> cm_connection_tx m = None
   | RestoringCallback \<Rightarrow> cm_connection_tx m = None)"

lemma connection_step_published:
  "connection_step m e m' \<Longrightarrow> published_ok m \<Longrightarrow> published_ok m'"
  by (erule connection_stepE) (auto simp: step_defs split: callback_branch.splits connection_state.splits)

lemma connection_run_published: "connection_run m es m' \<Longrightarrow> published_ok m \<Longrightarrow> published_ok m'"
  by (induction rule: connection_run.induct) (auto intro: connection_step_published simp del: published_ok.simps)

lemma connection_new_published: "connection_new opened registered = Ok m \<Longrightarrow> published_ok m"
  by (auto simp: connection_new_def and_then_Ok_iff)

text \<open>A connection is published only by the step that has just registered the callback on it.\<close>

lemma connection_step_publishes:
  assumes "connection_step m e m'" and "cm_connection_tx m' = Some c" and "cm_connection_tx m \<noteq> Some c"
  shows "c = cm_connection m \<and> (\<exists>f. e = CallbackBranch (Registrations f) \<and> (\<exists>n. f n = Ok ()))"
  using assms by (elim connection_stepE)
    (auto simp: step_defs retry_Some_iff split: callback_branch.splits; metis)+

text \<open>A new connection starts unblocked.\<close>

lemma restoring_connection_unblocked:
  "restoring_connection_state opens m = Some m' \<Longrightarrow>
     \<not> cm_blocked_tx m' \<and> (\<exists>n. opens n = Ok (cm_connection m') \<and> (\<forall>i < n. \<exists>e. opens i = Err e))"
  by (auto simp: restoring_connection_state_def retry_Some_iff)

text \<open>
  Recovery: after a failure, if opening and registering each succeed at some attempt, the machine
  is back in its working state in four steps, publishing the first connection that opened.
\<close>

lemma connection_recovers:
  assumes "cm_state m = ConnectionOk" and "opens i = Ok c" and "registers j = Ok ()"
  shows "\<exists>m' d. connection_run m [ConnectionFailed, ConnectionClosed r, ConnectionOpens opens,
      CallbackBranch (Registrations registers)] m' \<and> cm_state m' = ConnectionOk \<and>
    retry opens = Some d \<and> cm_connection m' = d \<and> cm_connection_tx m' = Some d \<and> \<not> cm_blocked_tx m'"
proof -
  from assms(2) obtain d where d: "retry opens = Some d" using retry_terminates_iff [of opens] by blast
  have u: "retry registers = Some ()" using assms(3) retry_terminates_iff [of registers] by auto
  let ?m1 = "connection_ok_state m"
  let ?m2 = "closing_connection_state r ?m1"
  let ?m3 = "?m2\<lparr>cm_connection := d, cm_blocked_tx := False, cm_state := RestoringCallback\<rparr>"
  let ?m4 = "?m3\<lparr>cm_connection_tx := Some d, cm_state := ConnectionOk\<rparr>"
  have "connection_run m ([] @ [ConnectionFailed]) ?m1"
    by (rule connection_run.step [OF connection_run.start]) (rule connection_step.ok, rule assms(1))
  then have "connection_run m (([] @ [ConnectionFailed]) @ [ConnectionClosed r]) ?m2"
    by (rule connection_run.step) (rule connection_step.closing, simp add: step_defs)
  then have "connection_run m ((([] @ [ConnectionFailed]) @ [ConnectionClosed r]) @ [ConnectionOpens opens]) ?m3"
    by (rule connection_run.step) (rule connection_step.restoring, simp_all add: step_defs d)
  then have "connection_run m (((([] @ [ConnectionFailed]) @ [ConnectionClosed r]) @ [ConnectionOpens opens]) @
      [CallbackBranch (Registrations registers)]) ?m4"
    by (rule connection_run.step) (rule connection_step.callback, simp_all add: step_defs u)
  with d show ?thesis by (intro exI [of _ ?m4] exI [of _ d]) simp
qed

end
