(* ===== verification/Rabbit_Producer.thy ===== *)
theory Rabbit_Producer
  imports Retry Channels Notifications_Producer_Service
begin

text \<open>
  \<open>shared/rabbitmq_client/src/producer\<close>: the task that publishes messages and keeps each until the
  server confirms it, as a state machine whose states are those of \<open>state_machine.rs\<close> and whose
  transition functions are its \<open>*_state\<close> methods. What \<open>amqprs\<close>, the server and the connection's
  \<open>watch\<close> channels do is an input: which branch of a \<open>select!\<close> completes and with what outcome.
  The local variables of \<open>ok_state\<close> are the record \<open>ok_locals\<close>.
\<close>

section \<open>Publisher confirms\<close>

datatype confirm_variant = Ack | Nack

record publisher_confirm =
  delivery_tag :: u64
  multiple :: bool
  variant :: confirm_variant

type_synonym unconfirmed = "(u64 \<times> message) list"

text \<open>\<open>on_remove_ack\<close> drops the message, \<open>on_remove_nack\<close> schedules it to be resent.\<close>

definition on_remove :: "(message, 'q) mpsc \<Rightarrow> confirm_variant \<Rightarrow> message \<Rightarrow> 'q \<Rightarrow> 'q" where
  "on_remove ch v m q = (case v of Ack \<Rightarrow> q | Nack \<Rightarrow> ch_send ch m q)"

fun confirm_multiple :: "(message, 'q) mpsc \<Rightarrow> confirm_variant \<Rightarrow> u64 \<Rightarrow> unconfirmed \<Rightarrow> 'q \<Rightarrow>
    unconfirmed \<times> 'q" where
  "confirm_multiple ch v tag [] q = ([], q)"
| "confirm_multiple ch v tag ((message_count, m) # us) q =
     (if message_count \<le> tag then confirm_multiple ch v tag us (on_remove ch v m q)
      else ((message_count, m) # us, q))"

definition confirm_single :: "(message, 'q) mpsc \<Rightarrow> confirm_variant \<Rightarrow> u64 \<Rightarrow> unconfirmed \<Rightarrow> 'q \<Rightarrow>
    unconfirmed \<times> 'q" where
  "confirm_single ch v tag us q =
    (case position (\<lambda>(message_count, _). message_count = tag) us of
       Some idx \<Rightarrow>
         (case remove_at idx us of
            Some ((message_count, m), us') \<Rightarrow> (us', on_remove ch v m q)
          | None \<Rightarrow> (us, q))
     | None \<Rightarrow> (us, q))"

definition process_confirm :: "(message, 'q) mpsc \<Rightarrow> publisher_confirm \<Rightarrow> unconfirmed \<Rightarrow> 'q \<Rightarrow>
    unconfirmed \<times> 'q" where
  "process_confirm ch c us q =
    (if multiple c then confirm_multiple ch (variant c) (delivery_tag c) us q
     else confirm_single ch (variant c) (delivery_tag c) us q)"

section \<open>The state machine\<close>

datatype producer_state = ProducerOk | WaitingForConnection | ProcessingPendingConfirmations
  | RecreatingChannel | RestoringProducer

record ok_locals =
  l_flow :: bool
  l_blocked :: bool
  l_message_count :: u64

record ('c, 'q, 'r) producer_machine =
  pm_connection :: "'c option"
  pm_unconfirmed :: unconfirmed
  pm_messages :: 'q
  pm_confirms :: 'r
  pm_flow_tx :: bool
  pm_loop :: "ok_locals option"
  pm_state :: producer_state

datatype panic = Panic

text \<open>\<open>RabbitmqProducer::new\<close>: the connection at hand, then one AMQP call after the other.\<close>

definition producer_new :: "'c option \<Rightarrow> ('e, unit) result \<Rightarrow> ('e, unit) result \<Rightarrow> ('e, unit) result \<Rightarrow>
    ('e, unit) result \<Rightarrow> 'e \<Rightarrow> 'q \<Rightarrow> 'r \<Rightarrow> ('e, ('c, 'q, 'r) producer_machine) result" where
  "producer_new connection opened registered declared selected no_connection messages confirms =
    and_then (ok_or no_connection connection) (\<lambda>c.
    and_then opened (\<lambda>_. and_then registered (\<lambda>_. and_then declared (\<lambda>_. and_then selected (\<lambda>_. Ok
      \<lparr> pm_connection = Some c, pm_unconfirmed = [], pm_messages = messages, pm_confirms = confirms,
        pm_flow_tx = True, pm_loop = None, pm_state = ProducerOk \<rparr>)))))"

definition producer_send :: "(message, 'q) mpsc \<Rightarrow> message \<Rightarrow> ('c, 'q, 'r) producer_machine \<Rightarrow>
    ('c, 'q, 'r) producer_machine" where
  "producer_send ch m p = p\<lparr>pm_messages := ch_send ch m (pm_messages p)\<rparr>"

subsection \<open>Channel callbacks\<close>

definition callback_flow :: "bool \<Rightarrow> ('c, 'q, 'r) producer_machine \<Rightarrow> ('c, 'q, 'r) producer_machine" where
  "callback_flow active p = p\<lparr>pm_flow_tx := active\<rparr>"

definition callback_confirm :: "(publisher_confirm, 'r) mpsc \<Rightarrow> confirm_variant \<Rightarrow> u64 \<Rightarrow> bool \<Rightarrow>
    ('c, 'q, 'r) producer_machine \<Rightarrow> ('c, 'q, 'r) producer_machine" where
  "callback_confirm cch v tag mul p =
     p\<lparr>pm_confirms := ch_send cch \<lparr>delivery_tag = tag, multiple = mul, variant = v\<rparr> (pm_confirms p)\<rparr>"

subsection \<open>State Ok\<close>

definition ok_state_enter :: "bool \<Rightarrow> ('c, 'q, 'r) producer_machine \<Rightarrow> ('c, 'q, 'r) producer_machine" where
  "ok_state_enter blocked p =
     p\<lparr>pm_loop := Some \<lparr>l_flow = pm_flow_tx p, l_blocked = blocked, l_message_count = 0\<rparr>\<rparr>"

text \<open>The branches of the loop's \<open>select!\<close>; a publish carries the outcome of \<open>basic_publish\<close>.\<close>

datatype 'e ok_branch = ConnectionChanged | FlowChanged | BlockedChanged bool | ConfirmReceived
  | MessageReceived "('e, unit) result"

definition leave_ok :: "producer_state \<Rightarrow> ('c, 'q, 'r) producer_machine \<Rightarrow> ('c, 'q, 'r) producer_machine" where
  "leave_ok s p = p\<lparr>pm_loop := None, pm_state := s\<rparr>"

definition publish :: "(message, 'q) mpsc \<Rightarrow> ('e, unit) result \<Rightarrow> ok_locals \<Rightarrow>
    ('c, 'q, 'r) producer_machine \<Rightarrow> ('c, 'q, 'r) producer_machine option" where
  "publish ch published l p =
    (if \<not> l_blocked l \<and> l_flow l then
       (case ch_recv ch (pm_messages p) of
          None \<Rightarrow> None
        | Some (m, q) \<Rightarrow>
            (let message_count = l_message_count l + 1;
                 p' = p\<lparr>pm_messages := q, pm_loop := Some (l\<lparr>l_message_count := message_count\<rparr>)\<rparr>
             in case published of
                  Ok _ \<Rightarrow> Some (p'\<lparr>pm_unconfirmed := pm_unconfirmed p @ [(message_count, m)]\<rparr>)
                | Err _ \<Rightarrow> Some (leave_ok ProcessingPendingConfirmations (p'\<lparr>pm_messages := ch_send ch m q\<rparr>))))
     else None)"

text \<open>One iteration of the loop; \<open>None\<close>: the branch is not enabled.\<close>

definition ok_state_iteration :: "(message, 'q) mpsc \<Rightarrow> (publisher_confirm, 'r) mpsc \<Rightarrow> 'e ok_branch \<Rightarrow>
    ok_locals \<Rightarrow> ('c, 'q, 'r) producer_machine \<Rightarrow> ('c, 'q, 'r) producer_machine option" where
  "ok_state_iteration ch cch branch l p =
    (case branch of
       ConnectionChanged \<Rightarrow> Some (leave_ok WaitingForConnection p)
     | FlowChanged \<Rightarrow> Some (p\<lparr>pm_loop := Some (l\<lparr>l_flow := pm_flow_tx p\<rparr>)\<rparr>)
     | BlockedChanged b \<Rightarrow> Some (p\<lparr>pm_loop := Some (l\<lparr>l_blocked := b\<rparr>)\<rparr>)
     | ConfirmReceived \<Rightarrow>
         (case ch_recv cch (pm_confirms p) of
            None \<Rightarrow> None
          | Some (c, r) \<Rightarrow>
              (case process_confirm ch c (pm_unconfirmed p) (pm_messages p) of
                 (us, q) \<Rightarrow> Some (p\<lparr>pm_confirms := r, pm_unconfirmed := us, pm_messages := q\<rparr>)))
     | MessageReceived published \<Rightarrow> publish ch published l p)"

subsection \<open>Recovery\<close>

text \<open>The values read from the connection's \<open>watch\<close> channel, until one is a connection.\<close>

partial_function (option) waiting_for_connection_state :: "(nat \<Rightarrow> 'c option) \<Rightarrow> nat \<Rightarrow>
    ('c, 'q, 'r) producer_machine \<Rightarrow> ('c, 'q, 'r) producer_machine option" where
  "waiting_for_connection_state reads k p =
    (case reads k of
       Some c \<Rightarrow> Some (p\<lparr>pm_connection := Some c, pm_state := ProcessingPendingConfirmations\<rparr>)
     | None \<Rightarrow> waiting_for_connection_state reads (Suc k) (p\<lparr>pm_connection := None\<rparr>))"

partial_function (option) process_remaining :: "(message, 'q) mpsc \<Rightarrow> (publisher_confirm, 'r) mpsc \<Rightarrow>
    'r \<Rightarrow> unconfirmed \<Rightarrow> 'q \<Rightarrow> ('r \<times> unconfirmed \<times> 'q) option" where
  "process_remaining ch cch r us q =
    (if ch_is_empty cch r then Some (r, us, q)
     else (case ch_recv cch r of
             None \<Rightarrow> None
           | Some (c, r') \<Rightarrow>
               (case process_confirm ch c us q of (us', q') \<Rightarrow> process_remaining ch cch r' us' q')))"

fun resend_unconfirmed :: "(message, 'q) mpsc \<Rightarrow> unconfirmed \<Rightarrow> 'q \<Rightarrow> 'q" where
  "resend_unconfirmed ch [] q = q"
| "resend_unconfirmed ch ((_, m) # us) q = resend_unconfirmed ch us (ch_send ch m q)"

definition processing_pending_confirmations_state :: "(message, 'q) mpsc \<Rightarrow> (publisher_confirm, 'r) mpsc \<Rightarrow>
    ('c, 'q, 'r) producer_machine \<Rightarrow> ('c, 'q, 'r) producer_machine option" where
  "processing_pending_confirmations_state ch cch p =
    (case process_remaining ch cch (pm_confirms p) (pm_unconfirmed p) (pm_messages p) of
       None \<Rightarrow> None
     | Some (r, us, q) \<Rightarrow>
         Some (p\<lparr>pm_confirms := r, pm_unconfirmed := [], pm_messages := resend_unconfirmed ch us q,
                 pm_state := RecreatingChannel\<rparr>))"

text \<open>
  The branches of the recovery \<open>select!\<close>s. With no connection the recreation panics at
  \<open>self.connection.as_ref().unwrap()\<close>. A change of the connection may cancel it after the new channel
  has been opened and the flow reset.
\<close>

datatype 'e recreate_branch = RecreateConnectionChanged bool
  | Recreate "nat \<Rightarrow> ('e, unit) result" "nat \<Rightarrow> ('e, unit) result"

definition recreating_channel_state :: "'e recreate_branch \<Rightarrow> ('c, 'q, 'r) producer_machine \<Rightarrow>
    (panic, ('c, 'q, 'r) producer_machine) result option" where
  "recreating_channel_state branch p =
    (case branch of
       RecreateConnectionChanged opened \<Rightarrow>
         Some (Ok (p\<lparr>pm_flow_tx := pm_flow_tx p \<or> opened, pm_state := WaitingForConnection\<rparr>))
     | Recreate opens registers \<Rightarrow>
         (case pm_connection p of
            None \<Rightarrow> Some (Err Panic)
          | Some _ \<Rightarrow>
              (case retry opens of
                 None \<Rightarrow> None
               | Some _ \<Rightarrow>
                   map_option (\<lambda>_. Ok (p\<lparr>pm_flow_tx := True, pm_state := RestoringProducer\<rparr>))
                     (retry registers))))"

definition try_restore_producer :: "('e, unit) result \<Rightarrow> ('e, unit) result \<Rightarrow> (string, unit) result" where
  "try_restore_producer declared selected =
     and_then (map_err (\<lambda>_. ''failed to recreate exchange'') declared)
       (\<lambda>_. map_err (\<lambda>_. ''failed to enable publisher confirms'') selected)"

datatype 'e restore_branch = RestoreConnectionChanged | Restore "('e, unit) result" "('e, unit) result"

definition restoring_producer_state :: "'e restore_branch \<Rightarrow> ('c, 'q, 'r) producer_machine \<Rightarrow>
    ('c, 'q, 'r) producer_machine" where
  "restoring_producer_state branch p =
    (case branch of
       RestoreConnectionChanged \<Rightarrow> p\<lparr>pm_state := WaitingForConnection\<rparr>
     | Restore declared selected \<Rightarrow>
         (case try_restore_producer declared selected of
            Ok _ \<Rightarrow> p\<lparr>pm_state := ProducerOk\<rparr>
          | Err _ \<Rightarrow> p\<lparr>pm_state := RecreatingChannel\<rparr>))"

section \<open>What a confirm does\<close>

text \<open>The entries a confirm is about: the one with its tag or, if multiple, all up to it.\<close>

definition selects :: "publisher_confirm \<Rightarrow> u64 \<times> message \<Rightarrow> bool" where
  "selects c e \<longleftrightarrow> (if multiple c then fst e \<le> delivery_tag c else fst e = delivery_tag c)"

definition resent :: "publisher_confirm \<Rightarrow> unconfirmed \<Rightarrow> message list" where
  "resent c us = (case variant c of Ack \<Rightarrow> [] | Nack \<Rightarrow> map snd (filter (selects c) us))"

definition acked :: "publisher_confirm \<Rightarrow> unconfirmed \<Rightarrow> message list" where
  "acked c us = (case variant c of Ack \<Rightarrow> map snd (filter (selects c) us) | Nack \<Rightarrow> [])"

fun all_acked :: "publisher_confirm list \<Rightarrow> unconfirmed \<Rightarrow> message list" where
  "all_acked [] us = []"
| "all_acked (c # cs) us = acked c us @ all_acked cs (filter (\<lambda>e. \<not> selects c e) us)"

abbreviation tags :: "unconfirmed \<Rightarrow> u64 list" where
  "tags us \<equiv> map fst us"

lemma sorted_filter_tags: "sorted_wrt (<) (tags us) \<Longrightarrow> sorted_wrt (<) (tags (filter p us))"
  by (auto simp: sorted_wrt_map intro: sorted_wrt_filter)

lemma mset_resent_acked:
  "mset (map snd us) = mset (map snd (filter (\<lambda>e. \<not> selects c e) us)) + mset (resent c us) + mset (acked c us)"
proof -
  have "mset (map snd us) = mset (map snd (filter (selects c) us)) + mset (map snd (filter (\<lambda>e. \<not> selects c e) us))"
    by (induction us) auto
  then show ?thesis by (cases "variant c") (simp_all add: resent_def acked_def)
qed

section \<open>Runs\<close>

datatype ('e, 'c) producer_event =
    Send message
  | Flow bool
  | Confirm confirm_variant u64 bool
  | EnterOk bool
  | InOk "'e ok_branch"
  | Wait "nat \<Rightarrow> 'c option"
  | ProcessPending
  | InRecreating "'e recreate_branch"
  | InRestoring "'e restore_branch"

inductive producer_step :: "(message, 'q) mpsc \<Rightarrow> (publisher_confirm, 'r) mpsc \<Rightarrow>
    ('c, 'q, 'r) producer_machine \<Rightarrow> ('e, 'c) producer_event \<Rightarrow> ('c, 'q, 'r) producer_machine \<Rightarrow> bool"
  for ch cch where
  send: "producer_step ch cch p (Send m) (producer_send ch m p)"
| flow: "producer_step ch cch p (Flow b) (callback_flow b p)"
| confirm: "producer_step ch cch p (Confirm v t b) (callback_confirm cch v t b p)"
| enter: "pm_state p = ProducerOk \<Longrightarrow> pm_loop p = None \<Longrightarrow>
    producer_step ch cch p (EnterOk b) (ok_state_enter b p)"
| iteration: "pm_state p = ProducerOk \<Longrightarrow> pm_loop p = Some l \<Longrightarrow>
    ok_state_iteration ch cch br l p = Some p' \<Longrightarrow> producer_step ch cch p (InOk br) p'"
| wait: "pm_state p = WaitingForConnection \<Longrightarrow> waiting_for_connection_state reads 0 p = Some p' \<Longrightarrow>
    producer_step ch cch p (Wait reads) p'"
| pending: "pm_state p = ProcessingPendingConfirmations \<Longrightarrow>
    processing_pending_confirmations_state ch cch p = Some p' \<Longrightarrow> producer_step ch cch p ProcessPending p'"
| recreate: "pm_state p = RecreatingChannel \<Longrightarrow> recreating_channel_state rb p = Some (Ok p') \<Longrightarrow>
    producer_step ch cch p (InRecreating rb) p'"
| restore: "pm_state p = RestoringProducer \<Longrightarrow>
    producer_step ch cch p (InRestoring sb) (restoring_producer_state sb p)"

inductive_cases producer_stepE: "producer_step ch cch p e p'"

text \<open>The messages a step removes because the server acknowledged them.\<close>

definition acked_in :: "(publisher_confirm, 'r) mpsc \<Rightarrow> ('e, 'c) producer_event \<Rightarrow>
    ('c, 'q, 'r) producer_machine \<Rightarrow> message list" where
  "acked_in cch e p = (case e of
     InOk ConfirmReceived \<Rightarrow>
       (case ch_items cch (pm_confirms p) of [] \<Rightarrow> [] | c # _ \<Rightarrow> acked c (pm_unconfirmed p))
   | ProcessPending \<Rightarrow> all_acked (ch_items cch (pm_confirms p)) (pm_unconfirmed p)
   | _ \<Rightarrow> [])"

definition sent_in :: "('e, 'c) producer_event \<Rightarrow> message list" where
  "sent_in e = (case e of Send m \<Rightarrow> [m] | _ \<Rightarrow> [])"

text \<open>A run with its length, the messages handed to \<open>send\<close> and the messages acknowledged.\<close>

inductive producer_run :: "(message, 'q) mpsc \<Rightarrow> (publisher_confirm, 'r) mpsc \<Rightarrow>
    ('c, 'q, 'r) producer_machine \<Rightarrow> ('e, 'c) producer_event list \<Rightarrow> message multiset \<Rightarrow>
    message multiset \<Rightarrow> ('c, 'q, 'r) producer_machine \<Rightarrow> bool"
  for ch cch p0 where
  start: "producer_run ch cch p0 [] {#} {#} p0"
| step: "producer_run ch cch p0 es S A p \<Longrightarrow> producer_step ch cch p e p' \<Longrightarrow>
    producer_run ch cch p0 (es @ [e]) (S + mset (sent_in e)) (A + mset (acked_in cch e p)) p'"

definition pending_messages :: "(message, 'q) mpsc \<Rightarrow> ('c, 'q, 'r) producer_machine \<Rightarrow> message multiset" where
  "pending_messages ch p = mset (ch_items ch (pm_messages p)) + mset (map snd (pm_unconfirmed p))"

text \<open>
  The invariant: unconfirmed entries belong to the current channel, sorted by delivery tag; there
  is a connection whenever a channel is recreated.
\<close>

definition producer_wf :: "nat \<Rightarrow> ('c, 'q, 'r) producer_machine \<Rightarrow> bool" where
  "producer_wf n p \<longleftrightarrow> pm_connection p \<noteq> None \<and> sorted_wrt (<) (tags (pm_unconfirmed p)) \<and>
     (pm_state p \<in> {RecreatingChannel, RestoringProducer} \<longrightarrow> pm_unconfirmed p = []) \<and>
     (case pm_loop p of
        None \<Rightarrow> pm_state p = ProducerOk \<longrightarrow> pm_unconfirmed p = []
      | Some l \<Rightarrow> pm_state p = ProducerOk \<and> unat (l_message_count l) \<le> n \<and>
          list_all (\<lambda>t. t \<le> l_message_count l) (tags (pm_unconfirmed p)))"

lemma waiting_for_connection_Some:
  assumes "waiting_for_connection_state reads k p = Some p'"
  shows "\<exists>c. p' = p\<lparr>pm_connection := Some c, pm_state := ProcessingPendingConfirmations\<rparr>"
  using assms
proof (rule waiting_for_connection_state.raw_induct [rotated, where P = "\<lambda>reads k p p'.
    \<exists>c. p' = p\<lparr>pm_connection := Some c, pm_state := ProcessingPendingConfirmations\<rparr>"])
  fix loop reads k p p'
  assume IH: "\<And>reads k p p'. loop reads k p = Some p' \<Longrightarrow>
      \<exists>c. p' = p\<lparr>pm_connection := Some c, pm_state := ProcessingPendingConfirmations\<rparr>"
    and step: "(case reads k of
        None \<Rightarrow> loop reads (Suc k) (p\<lparr>pm_connection := None\<rparr>)
      | Some c \<Rightarrow> Some (p\<lparr>pm_connection := Some c, pm_state := ProcessingPendingConfirmations\<rparr>)) = Some p'"
  show "\<exists>c. p' = p\<lparr>pm_connection := Some c, pm_state := ProcessingPendingConfirmations\<rparr>"
    using step IH [of reads "Suc k" "p\<lparr>pm_connection := None\<rparr>"] by (cases "reads k") auto
qed

locale producer_channels = messages: unbounded_channel ch + confirms: unbounded_channel cch
  for ch :: "(message, 'q) mpsc" and cch :: "(publisher_confirm, 'r) mpsc"
begin

lemma items_on_remove [simp]:
  "ch_items ch (on_remove ch v m q) = ch_items ch q @ (case v of Ack \<Rightarrow> [] | Nack \<Rightarrow> [m])"
  by (cases v) (simp_all add: on_remove_def)

lemma confirm_multiple_spec:
  "sorted_wrt (<) (tags us) \<Longrightarrow> confirm_multiple ch v t us q = (us', q') \<Longrightarrow>
     us' = filter (\<lambda>e. \<not> fst e \<le> t) us \<and>
     ch_items ch q' = ch_items ch q @ (case v of Ack \<Rightarrow> [] | Nack \<Rightarrow> map snd (filter (\<lambda>e. fst e \<le> t) us))"
proof (induction us arbitrary: q)
  case Nil
  then show ?case by (cases v) simp_all
next
  case (Cons e us)
  obtain n m where e: "e = (n, m)" by (cases e)
  show ?case
  proof (cases "n \<le> t")
    case True
    with Cons e show ?thesis by (cases v) auto
  next
    case False
    with Cons.prems e have "\<forall>x \<in> set us. \<not> fst x \<le> t" by auto
    then have "filter (\<lambda>x. \<not> fst x \<le> t) us = us" and "filter (\<lambda>x. fst x \<le> t) us = []"
      by (simp_all add: filter_id_conv filter_empty_conv)
    with False Cons.prems e show ?thesis by (cases v) auto
  qed
qed

lemma confirm_single_spec:
  assumes "sorted_wrt (<) (tags us)" and "confirm_single ch v t us q = (us', q')"
  shows "us' = filter (\<lambda>e. fst e \<noteq> t) us \<and>
     ch_items ch q' = ch_items ch q @ (case v of Ack \<Rightarrow> [] | Nack \<Rightarrow> map snd (filter (\<lambda>e. fst e = t) us))"
proof (cases "position (\<lambda>(n, _). n = t) us")
  case None
  then have "\<forall>e \<in> set us. fst e \<noteq> t" by (auto simp: position_None_iff)
  then have "filter (\<lambda>e. fst e \<noteq> t) us = us" and "filter (\<lambda>e. fst e = t) us = []"
    by (simp_all add: filter_id_conv filter_empty_conv)
  with None assms(2) show ?thesis by (cases v) (auto simp: confirm_single_def)
next
  case (Some i)
  from remove_at_position [OF this] obtain ys x zs where us: "us = ys @ x # zs"
    and x: "(\<lambda>(n, _). n = t) x" and ys: "\<forall>y \<in> set ys. \<not> (\<lambda>(n, _). n = t) y"
    and rem: "remove_at i us = Some (x, ys @ zs)" by blast
  obtain m where xm: "x = (t, m)" using x by (cases x) auto
  have "\<forall>y \<in> set ys. fst y \<noteq> t" using ys by auto
  moreover have "\<forall>z \<in> set zs. fst z \<noteq> t"
    using assms(1) us xm by (auto simp: sorted_wrt_append)
  ultimately have "filter (\<lambda>e. fst e \<noteq> t) us = ys @ zs" and "filter (\<lambda>e. fst e = t) us = [x]"
    by (simp_all add: us xm filter_id_conv filter_empty_conv)
  with Some rem xm assms(2) show ?thesis by (cases v) (auto simp: confirm_single_def)
qed

text \<open>On a queue sorted by tag, removing from the front until the first larger tag is filtering.\<close>

lemma process_confirm_spec:
  assumes "sorted_wrt (<) (tags us)" and "process_confirm ch c us q = (us', q')"
  shows "us' = filter (\<lambda>e. \<not> selects c e) us" and "ch_items ch q' = ch_items ch q @ resent c us"
  using confirm_multiple_spec [OF assms(1), of "variant c" "delivery_tag c" q us' q']
    confirm_single_spec [OF assms(1), of "variant c" "delivery_tag c" q us' q'] assms(2)
  by (cases "multiple c"; cases "variant c"; simp add: process_confirm_def selects_def [abs_def] resent_def)+

lemma process_remaining_spec:
  assumes "ch_items cch r = cs" and "sorted_wrt (<) (tags us)"
  shows "\<exists>r' us' q'. process_remaining ch cch r us q = Some (r', us', q') \<and> ch_items cch r' = [] \<and>
    sorted_wrt (<) (tags us') \<and> set us' \<subseteq> set us \<and>
    mset (ch_items ch q) + mset (map snd us) =
      mset (ch_items ch q') + mset (map snd us') + mset (all_acked cs us)"
  using assms
proof (induction cs arbitrary: r us q)
  case Nil
  then show ?case by (subst process_remaining.simps) simp
next
  case (Cons c cs)
  from confirms.recv_cases [OF Cons.prems(1)] obtain r1
    where r1: "ch_recv cch r = Some (c, r1)" "ch_items cch r1 = cs" by blast
  obtain us1 q1 where p: "process_confirm ch c us q = (us1, q1)" by fastforce
  note spec = process_confirm_spec [OF Cons.prems(2) p]
  have "sorted_wrt (<) (tags us1)" using spec(1) Cons.prems(2) by (simp add: sorted_filter_tags)
  from Cons.IH [OF r1(2) this, of q1] obtain r' us' q'
    where step: "process_remaining ch cch r1 us1 q1 = Some (r', us', q')" "ch_items cch r' = []"
      "sorted_wrt (<) (tags us')" "set us' \<subseteq> set us1"
      "mset (ch_items ch q1) + mset (map snd us1) =
        mset (ch_items ch q') + mset (map snd us') + mset (all_acked cs us1)" by blast
  have "process_remaining ch cch r us q = process_remaining ch cch r1 us1 q1"
    by (subst process_remaining.simps) (simp add: Cons.prems(1) r1 p)
  moreover have "set us' \<subseteq> set us" using step(4) spec(1) by auto
  moreover have "mset (ch_items ch q) + mset (map snd us) =
      mset (ch_items ch q') + mset (map snd us') + mset (all_acked (c # cs) us)"
    using step(5) mset_resent_acked [of us c] by (simp add: spec ac_simps)
  ultimately show ?case using step by (intro exI [of _ r'] exI [of _ us'] exI [of _ q']) simp
qed

lemma items_resend_unconfirmed [simp]:
  "ch_items ch (resend_unconfirmed ch us q) = ch_items ch q @ map snd us"
  by (induction us arbitrary: q) auto

lemma publish_step:
  assumes wf: "producer_wf n p" and l: "pm_loop p = Some l" and n: "Suc n < 2 ^ 64"
    and run: "publish ch published l p = Some p'"
  shows "producer_wf (Suc n) p' \<and> pending_messages ch p' = pending_messages ch p"
proof -
  from run obtain m q where m: "ch_recv ch (pm_messages p) = Some (m, q)"
    by (auto simp: publish_def split: if_splits option.splits)
  note items = messages.recv_Some [OF m]
  from wf l have st: "pm_state p = ProducerOk" "unat (l_message_count l) \<le> n"
    "list_all (\<lambda>t. t \<le> l_message_count l) (tags (pm_unconfirmed p))"
    "sorted_wrt (<) (tags (pm_unconfirmed p))" "pm_connection p \<noteq> None"
    by (auto simp: producer_wf_def)
  from st(2) n have c: "unat (l_message_count l + 1) = Suc (unat (l_message_count l))"
    by (simp add: unat_word_ariths)
  then have lt: "l_message_count l < l_message_count l + 1" by (simp add: word_less_nat_alt)
  with st(3) have less: "list_all (\<lambda>t. t < l_message_count l + 1) (tags (pm_unconfirmed p))"
    by (auto simp: list_all_iff)
  then have le: "list_all (\<lambda>t. t \<le> l_message_count l + 1) (tags (pm_unconfirmed p))"
    by (auto simp: list_all_iff less_imp_le)
  have "sorted_wrt (<) (tags (pm_unconfirmed p) @ [l_message_count l + 1])"
    using st(4) less by (simp add: sorted_wrt_append list_all_iff)
  with run m items st(1,2,4,5) c le show ?thesis
    by (simp add: publish_def Let_def producer_wf_def pending_messages_def leave_ok_def ac_simps
        split: if_splits sum.splits) (auto simp: ac_simps)
qed

lemma producer_wf_Suc: "producer_wf n p \<Longrightarrow> producer_wf (Suc n) p"
  by (simp add: producer_wf_def split: option.splits)

lemma list_all_tags_filter: "list_all q (tags us) \<Longrightarrow> list_all q (tags (filter p us))"
  by (induction us) auto

lemma confirm_step:
  assumes wf: "producer_wf n p" and l: "pm_loop p = Some l"
    and run: "ok_state_iteration ch cch (ConfirmReceived :: 'e ok_branch) l p = Some p'"
    and e: "e = (InOk ConfirmReceived :: ('e, 'c) producer_event)"
  shows "producer_wf n p' \<and> pending_messages ch p = pending_messages ch p' + mset (acked_in cch e p)"
proof -
  from run obtain c r where c: "ch_recv cch (pm_confirms p) = Some (c, r)"
    by (auto simp: ok_state_iteration_def split: option.splits)
  obtain us q where pc: "process_confirm ch c (pm_unconfirmed p) (pm_messages p) = (us, q)" by fastforce
  from run c pc have p': "p' = p\<lparr>pm_confirms := r, pm_unconfirmed := us, pm_messages := q\<rparr>"
    by (simp add: ok_state_iteration_def)
  have sorted: "sorted_wrt (<) (tags (pm_unconfirmed p))" using wf by (simp add: producer_wf_def)
  note spec = process_confirm_spec [OF sorted pc]
  have "producer_wf n p'"
    using wf l by (simp add: producer_wf_def p' spec(1) sorted_filter_tags list_all_tags_filter del: list.pred_map)
  moreover have "pending_messages ch p = pending_messages ch p' + mset (acked c (pm_unconfirmed p))"
    using mset_resent_acked [of "pm_unconfirmed p" c]
    by (simp add: pending_messages_def p' spec ac_simps)
  ultimately show ?thesis by (simp add: acked_in_def confirms.recv_Some [OF c] e)
qed

lemma process_pending_step:
  assumes wf: "producer_wf n p" and st: "pm_state p = ProcessingPendingConfirmations"
    and run: "processing_pending_confirmations_state ch cch p = Some p'"
    and e: "e = ProcessPending"
  shows "producer_wf n p' \<and> pending_messages ch p = pending_messages ch p' + mset (acked_in cch e p)"
proof -
  have sorted: "sorted_wrt (<) (tags (pm_unconfirmed p))" using wf by (simp add: producer_wf_def)
  from process_remaining_spec [OF refl this, of "pm_confirms p" "pm_messages p"] obtain r us q
    where rem: "process_remaining ch cch (pm_confirms p) (pm_unconfirmed p) (pm_messages p) = Some (r, us, q)"
      and cons: "mset (ch_items ch (pm_messages p)) + mset (map snd (pm_unconfirmed p)) =
        mset (ch_items ch q) + mset (map snd us) + mset (all_acked (ch_items cch (pm_confirms p)) (pm_unconfirmed p))"
    by blast
  from run rem have p': "p' = p\<lparr>pm_confirms := r, pm_unconfirmed := [],
      pm_messages := resend_unconfirmed ch us q, pm_state := RecreatingChannel\<rparr>"
    by (simp add: processing_pending_confirmations_state_def)
  have "pm_loop p = None" using wf st by (auto simp: producer_wf_def split: option.splits)
  with wf have "producer_wf n p'" by (simp add: producer_wf_def p')
  with cons show ?thesis by (simp add: pending_messages_def p' acked_in_def e)
qed

text \<open>The drain loop always ends: the state is never stuck.\<close>

lemma process_pending_total:
  "sorted_wrt (<) (tags (pm_unconfirmed p)) \<Longrightarrow> processing_pending_confirmations_state ch cch p \<noteq> None"
  using process_remaining_spec [OF refl, of "pm_unconfirmed p" "pm_confirms p" "pm_messages p"]
  by (auto simp: processing_pending_confirmations_state_def)

lemma producer_step_wf:
  fixes e :: "('e, 'c) producer_event"
  assumes step: "producer_step ch cch p e p'" and wf: "producer_wf n p" and n: "Suc n < 2 ^ 64"
  shows "producer_wf (Suc n) p' \<and>
    pending_messages ch p + mset (sent_in e) = pending_messages ch p' + mset (acked_in cch e p)"
  using step
proof (cases rule: producer_step.cases)
  case (iteration l br)
  show ?thesis
  proof (cases br)
    case ConfirmReceived
    with iteration have run: "ok_state_iteration ch cch (ConfirmReceived :: 'e ok_branch) l p = Some p'"
      and e: "e = InOk ConfirmReceived" by simp_all
    from confirm_step [OF wf iteration(3) run e] show ?thesis
      by (simp add: sent_in_def e producer_wf_Suc)
  next
    case (MessageReceived x)
    with iteration publish_step [OF wf, of l x p'] n show ?thesis
      by (simp add: sent_in_def acked_in_def ok_state_iteration_def)
  qed (use iteration wf in \<open>auto simp: sent_in_def acked_in_def ok_state_iteration_def leave_ok_def
      producer_wf_def pending_messages_def\<close>)
next
  case pending
  from process_pending_step [OF wf pending(2,3,1)] show ?thesis
    by (simp add: sent_in_def pending(1) producer_wf_Suc)
next
  case (wait reads)
  from waiting_for_connection_Some [OF wait(3)] wait wf show ?thesis
    by (auto simp: sent_in_def acked_in_def pending_messages_def producer_wf_def split: option.splits)
qed (use wf in \<open>auto simp: producer_wf_def pending_messages_def sent_in_def acked_in_def producer_send_def
    callback_flow_def callback_confirm_def ok_state_enter_def recreating_channel_state_def
    restoring_producer_state_def split: option.splits recreate_branch.splits restore_branch.splits sum.splits\<close>)

lemma producer_run_conserves:
  assumes "producer_run ch cch p0 es S A p" and "producer_wf 0 p0" and "length es < 2 ^ 64"
  shows "producer_wf (length es) p \<and> pending_messages ch p0 + S = A + pending_messages ch p"
  using assms
proof (induction rule: producer_run.induct)
  case start
  then show ?case by simp
next
  case (step es S A p e p')
  then have wf: "producer_wf (length es) p" and eq: "pending_messages ch p0 + S = A + pending_messages ch p"
    by simp_all
  from producer_step_wf [OF step.hyps(2) wf] step.prems(2)
  have "producer_wf (Suc (length es)) p'"
    and "pending_messages ch p + mset (sent_in e) = pending_messages ch p' + mset (acked_in cch e p)"
    by simp_all
  with eq show ?case by (simp add: ac_simps) (metis add.assoc add.commute)
qed

lemma no_publish_when_blocked:
  "publish ch published l p = Some p' \<Longrightarrow> \<not> l_blocked l \<and> l_flow l"
  by (auto simp: publish_def split: if_splits)

lemma recreating_never_panics:
  "producer_wf n p \<Longrightarrow> recreating_channel_state b p \<noteq> Some (Err Panic)"
  by (auto simp: producer_wf_def recreating_channel_state_def split: recreate_branch.splits option.splits)

text \<open>
  Recovery: from the loss of the connection, when a connection comes back and every AMQP call
  succeeds at some attempt, the machine is in its working state again, and everything that was
  not acknowledged is queued for publishing.
\<close>

lemma producer_recovers:
  assumes wf: "producer_wf n p" and st: "pm_state p = ProcessingPendingConfirmations"
    and opens: "opens i = Ok ()" and registers: "registers j = Ok ()"
  shows "\<exists>p1 p2. processing_pending_confirmations_state ch cch p = Some p1 \<and>
    recreating_channel_state (Recreate opens registers) p1 = Some (Ok p2) \<and>
    (let p3 = restoring_producer_state (Restore (Ok ()) (Ok ())) p2
     in pm_state p3 = ProducerOk \<and> pm_unconfirmed p3 = [] \<and> pm_flow_tx p3 \<and>
        pending_messages ch p = mset (ch_items ch (pm_messages p3)) +
          mset (all_acked (ch_items cch (pm_confirms p)) (pm_unconfirmed p)))"
proof -
  have sorted: "sorted_wrt (<) (tags (pm_unconfirmed p))" using wf by (simp add: producer_wf_def)
  from process_pending_total [OF this] obtain p1
    where p1: "processing_pending_confirmations_state ch cch p = Some p1" by blast
  from process_pending_step [OF wf st p1 refl]
  have pend: "pending_messages ch p = pending_messages ch p1 +
      mset (all_acked (ch_items cch (pm_confirms p)) (pm_unconfirmed p))"
    and wf1: "producer_wf n p1" by (simp_all add: acked_in_def)
  have p1': "pm_state p1 = RecreatingChannel" "pm_unconfirmed p1 = []"
    using p1 by (auto simp: processing_pending_confirmations_state_def split: option.splits)
  obtain c where c: "pm_connection p1 = Some c" using wf1 by (auto simp: producer_wf_def)
  have o: "retry opens = Some ()" and g: "retry registers = Some ()"
    using retry_terminates_iff [of opens] retry_terminates_iff [of registers] opens registers by auto
  show ?thesis
    using p1 p1' c o g pend
    by (intro exI [of _ p1] exI [of _ "p1\<lparr>pm_flow_tx := True, pm_state := RestoringProducer\<rparr>"])
       (simp add: recreating_channel_state_def restoring_producer_state_def try_restore_producer_def
         pending_messages_def)
qed

end

interpretation list_channels: producer_channels list_channel list_channel
  by unfold_locales

lemma producer_new_wf:
  "producer_new c opened registered declared selected e q r = Ok p \<Longrightarrow>
     producer_wf 0 p \<and> pm_messages p = q \<and> pm_unconfirmed p = []"
  by (auto simp: producer_new_def and_then_Ok_iff ok_or_def producer_wf_def split: option.splits)

end
