(* ===== verification/Startup.thy ===== *)
theory Startup
  imports Configuration Topology Core_Invariants Ws_Server Deduplication Rabbit_Connection Rabbit_Producer
    Rabbit_Consumer
begin

text \<open>
  \<open>main.rs\<close> and \<open>application_state.rs\<close> of both programs up to the moment the listener is bound: the
  environment is parsed, the repository created, the RabbitMQ connection opened, its producer and
  consumer started, and the services put together. What the driver of MongoDB and \<open>amqprs\<close> do is
  the parameter \<open>db\<close> and the record \<open>amqp\<close>; errors other than those of the environment and of
  MongoDB are of the abstract type \<open>'e\<close>.
\<close>

section \<open>The libraries' calls\<close>

text \<open>
  Outcomes of the calls of \<open>amqprs\<close> while a program starts; \<open>messages\<close> and \<open>confirms\<close> are new channels. Producer and consumer open a channel
  each; what each sees of the connection when it starts is the current value of the \<open>watch\<close> channel,
  which is \<open>None\<close> when the connection has failed in between.
\<close>

record ('e, 'c) amqp =
  aq_arguments :: "string \<Rightarrow> ('e, unit) result"
  aq_open :: "string \<Rightarrow> ('e, 'c) result"
  aq_register_connection :: "('e, unit) result"
  aq_producer_connection :: "'c \<Rightarrow> 'c option"
  aq_producer_channel :: "('e, unit) result"
  aq_producer_register :: "('e, unit) result"
  aq_confirm_select :: "('e, unit) result"
  aq_consumer_connection :: "'c \<Rightarrow> 'c option"
  aq_consumer_channel :: "('e, unit) result"
  aq_consumer_register :: "('e, unit) result"
  aq_exchange_declare :: "exchange_declare_args \<Rightarrow> ('e, unit) result"
  aq_queue_declare :: "queue_declare_args \<Rightarrow> ('e, unit) result"
  aq_queue_bind :: "queue_bind_args \<Rightarrow> ('e, unit) result"
  aq_basic_consume :: "basic_consume_args \<Rightarrow> ('e, unit) result"
  aq_no_connection :: 'e

datatype 'e start_error = Environment env_error | Mongodb mongo_error | Library 'e

definition start_connection :: "('e, 'c) amqp \<Rightarrow> string \<Rightarrow> ('e, 'c connection_machine) result" where
  "start_connection Q connection_string =
    and_then (aq_arguments Q connection_string) (\<lambda>_.
    connection_new (aq_open Q connection_string) (aq_register_connection Q))"

definition start_producer :: "('e, 'c) amqp \<Rightarrow> 'q \<Rightarrow> 'r \<Rightarrow>
    'c connection_machine \<Rightarrow> exchange_declare_args \<Rightarrow> ('e, ('c, 'q, 'r) producer_machine) result" where
  "start_producer Q messages confirms k exchange =
    producer_new (aq_producer_connection Q (cm_connection k)) (aq_producer_channel Q) (aq_producer_register Q)
      (aq_exchange_declare Q exchange) (aq_confirm_select Q) (aq_no_connection Q) messages confirms"

definition start_consumer :: "('e, 'c) amqp \<Rightarrow> 'c connection_machine \<Rightarrow> consumer_args \<Rightarrow>
    ('e, 'c consumer_machine) result" where
  "start_consumer Q k args =
    consumer_new (aq_no_connection Q) (aq_consumer_connection Q (cm_connection k)) (aq_consumer_channel Q)
      (aq_consumer_register Q) (aq_exchange_declare Q (ca_exchange args)) (aq_queue_declare Q (ca_queue args))
      (map (aq_queue_bind Q) (ca_binds args)) (aq_basic_consume Q (ca_consume args))"

section \<open>The core\<close>

record ('w, 'c, 'q, 'r) core_state =
  st_app :: "('w, message list) core_app"
  st_connection :: "'c connection_machine"
  st_producer :: "('c, 'q, 'r) producer_machine"
  st_consumer :: "'c consumer_machine"

definition core_create_services :: "ext \<Rightarrow> prost \<Rightarrow> ('e, 'c) amqp \<Rightarrow> 'q \<Rightarrow> 'r \<Rightarrow> ('a, 'k) core_env \<Rightarrow> 'w notifications_repository \<Rightarrow>
    ('e, ('w, 'c, 'q, 'r) core_state) result" where
  "core_create_services X P Q messages confirms env repository =
    and_then (start_connection Q (ce_rabbitmq_connection_string env)) (\<lambda>connection.
    and_then (start_producer Q messages confirms connection
      (notifications_producer_exchange \<lparr>np_exchange_name = ce_rabbitmq_notifications_exchange_name env\<rparr>)) (\<lambda>producer.
    and_then (start_consumer Q connection
      (confirmations_consumer_args \<lparr>cc_exchange = ce_rabbitmq_confirmations_exchange_name env,
        cc_queue = ce_rabbitmq_confirmations_queue_name env\<rparr>)) (\<lambda>consumer.
    Ok \<lparr> st_app = \<lparr> app_ext = X, app_config = \<lparr>max_content_len = ce_max_notification_content_len env\<rparr>,
           app_repository = repository,
           app_producer = notifications_producer_service_impl X P \<rparr>,
         st_connection = connection, st_producer = producer, st_consumer = consumer \<rparr>)))"

definition core_create_state :: "ext \<Rightarrow> prost \<Rightarrow> (string \<Rightarrow> string \<Rightarrow> ('e, 'w mongo) result) \<Rightarrow> ('e, 'c) amqp \<Rightarrow>
    'q \<Rightarrow> 'r \<Rightarrow> ('a, 'k) core_env \<Rightarrow> 'w \<Rightarrow>
    ('e start_error, ('w, 'c, 'q, 'r) core_state) result \<times> 'w" where
  "core_create_state X P db Q messages confirms env w =
    (case db (ce_db_connection_string env) (ce_db_name env) of
       Err e \<Rightarrow> (Err (Library e), w)
     | Ok m \<Rightarrow>
         (case notifications_repository_new m w of
            (Err e, w') \<Rightarrow> (Err (Mongodb e), w')
          | (Ok _, w') \<Rightarrow>
              (map_err Library (core_create_services X P Q messages confirms env (notifications_repository_impl X m)), w')))"

text \<open>\<open>create_middleware\<close>: the authentication layer and the limit of a request's body.\<close>

record 'k jwt_auth_layer =
  la_key :: 'k
  la_algorithms :: "algorithm list"

record 'k application_middleware =
  am_auth :: "'k jwt_auth_layer"
  am_body_limit :: nat

definition core_create_middleware :: "('a, 'k) core_env \<Rightarrow> 'k application_middleware" where
  "core_create_middleware env =
    \<lparr> am_auth = \<lparr>la_key = ce_jwt_key env, la_algorithms = ce_jwt_algorithms env\<rparr>,
      am_body_limit = ce_max_http_content_len env \<rparr>"

text \<open>\<open>main\<close> up to the application; \<open>tracing\<close> is the outcome of \<open>setup_tracing\<close>.\<close>

definition core_start :: "ext \<Rightarrow> prost \<Rightarrow> 'k jwt \<Rightarrow> (string \<Rightarrow> 'a option) \<Rightarrow> (string \<Rightarrow> string \<Rightarrow> ('e, unit) result) \<Rightarrow>
    (string \<Rightarrow> string \<Rightarrow> ('e, 'w mongo) result) \<Rightarrow> ('e, 'c) amqp \<Rightarrow> 'q \<Rightarrow> 'r \<Rightarrow> (string \<Rightarrow> string option) \<Rightarrow> 'w \<Rightarrow>
    ('e start_error, ('w, 'c, 'q, 'r) core_state \<times> 'k application_middleware) result \<times> 'w" where
  "core_start X P J addr tracing db Q messages confirms vars w =
    (case core_env_parse J addr vars of
       Err e \<Rightarrow> (Err (Environment e), w)
     | Ok env \<Rightarrow>
         (case tracing (ce_log_directory env) (ce_log_filename env) of
            Err e \<Rightarrow> (Err (Library e), w)
          | Ok _ \<Rightarrow>
              (case core_create_state X P db Q messages confirms env w of
                 (r, w') \<Rightarrow> (and_then r (\<lambda>s. Ok (s, core_create_middleware env)), w'))))"

section \<open>The delivery\<close>

record ('w, 'b, 'c, 'q, 'r) ws_state =
  st_ws_app :: "'w ws_app"
  st_service :: "'b ws_service"
  st_last_updates :: last_updates
  st_ws_connection :: "'c connection_machine"
  st_ws_producer :: "('c, 'q, 'r) producer_machine"
  st_ws_consumer :: "'c consumer_machine"

definition ws_create_services :: "ext \<Rightarrow> ('e, 'c) amqp \<Rightarrow> 'q \<Rightarrow> 'r \<Rightarrow>
    ('a, 'k) ws_env \<Rightarrow> uuid \<Rightarrow> 'b \<Rightarrow> 'w tickets_repository \<Rightarrow>
    ('e, ('w, 'b, 'c, 'q, 'r) ws_state) result" where
  "ws_create_services X Q messages confirms env new_v4 channels repository =
    and_then (start_connection Q (we_rabbitmq_connection_string env)) (\<lambda>connection.
    and_then (start_producer Q messages confirms connection
      (confirmations_service_exchange \<lparr>cs_exchange = we_rabbitmq_confirmations_exchange_name env\<rparr>)) (\<lambda>producer.
    and_then (start_consumer Q connection
      (notifications_consumer_args X \<lparr>nc_exchange = we_rabbitmq_notifications_exchange_name env,
        nc_queue = we_rabbitmq_notifications_queue_name env\<rparr> new_v4)) (\<lambda>consumer.
    Ok \<lparr> st_ws_app = \<lparr> wa_ext = X, wa_ticket_lifespan = we_websocket_ticket_lifespan env,
           wa_tickets = repository \<rparr>,
         st_service = websockets_service_new
           \<lparr> ping_interval = we_websocket_ping_interval env, retry_max_count = we_websocket_retry_max_count env,
             retry_interval = we_websocket_retry_interval env,
             connection_buffer_size = we_websocket_connection_buffer_size env \<rparr> channels,
         st_last_updates = Map.empty,
         st_ws_connection = connection, st_ws_producer = producer, st_ws_consumer = consumer \<rparr>)))"

definition ws_create_state :: "ext \<Rightarrow> (string \<Rightarrow> string \<Rightarrow> ('e, 'w mongo) result) \<Rightarrow> ('e, 'c) amqp \<Rightarrow>
    'q \<Rightarrow> 'r \<Rightarrow> ('a, 'k) ws_env \<Rightarrow> uuid \<Rightarrow> 'b \<Rightarrow> 'w \<Rightarrow>
    ('e start_error, ('w, 'b, 'c, 'q, 'r) ws_state) result \<times> 'w" where
  "ws_create_state X db Q messages confirms env new_v4 channels w =
    (case db (we_db_connection_string env) (we_db_name env) of
       Err e \<Rightarrow> (Err (Library e), w)
     | Ok m \<Rightarrow>
         (case tickets_repository_new m w of
            (Err e, w') \<Rightarrow> (Err (Mongodb e), w')
          | (Ok _, w') \<Rightarrow>
              (map_err Library (ws_create_services X Q messages confirms env new_v4 channels (tickets_repository_impl X m)), w')))"

definition ws_create_middleware :: "('a, 'k) ws_env \<Rightarrow> 'k jwt_auth_layer" where
  "ws_create_middleware env = \<lparr>la_key = we_jwt_key env, la_algorithms = we_jwt_algorithms env\<rparr>"

definition ws_start :: "ext \<Rightarrow> 'k jwt \<Rightarrow> (string \<Rightarrow> 'a option) \<Rightarrow> (string \<Rightarrow> string \<Rightarrow> ('e, unit) result) \<Rightarrow>
    (string \<Rightarrow> string \<Rightarrow> ('e, 'w mongo) result) \<Rightarrow>
    ('e, 'c) amqp \<Rightarrow> 'q \<Rightarrow> 'r \<Rightarrow> (string \<Rightarrow> string option) \<Rightarrow>
    uuid \<Rightarrow> 'b \<Rightarrow> 'w \<Rightarrow>
    ('e start_error, ('w, 'b, 'c, 'q, 'r) ws_state \<times> 'k jwt_auth_layer) result \<times> 'w" where
  "ws_start X J addr tracing db Q messages confirms vars new_v4 channels w =
    (case ws_env_parse J addr vars of
       Err e \<Rightarrow> (Err (Environment e), w)
     | Ok env \<Rightarrow>
         (case tracing (we_log_directory env) (we_log_filename env) of
            Err e \<Rightarrow> (Err (Library e), w)
          | Ok _ \<Rightarrow>
              (case ws_create_state X db Q messages confirms env new_v4 channels w of
                 (r, w') \<Rightarrow> (and_then r (\<lambda>s. Ok (s, ws_create_middleware env)), w'))))"

section \<open>What a successful start means\<close>

lemma start_connection_Ok:
  assumes "start_connection Q s = Ok k"
  shows "aq_open Q s = Ok (cm_connection k)" "cm_connection_tx k = Some (cm_connection k)"
    "cm_blocked_tx k = False" "cm_state k = ConnectionOk"
  using assms by (auto simp: start_connection_def connection_new_def and_then_Ok_iff)

lemma start_producer_Ok:
  assumes "start_producer Q messages confirms k x = Ok p"
  shows "aq_exchange_declare Q x = Ok ()" "pm_connection p \<noteq> None" "pm_unconfirmed p = []"
    "pm_messages p = messages" "pm_loop p = None" "pm_state p = ProducerOk"
  using assms by (auto simp: start_producer_def producer_new_def and_then_Ok_iff)

lemma bind_all_Ok: "bind_all bs = Ok () \<longleftrightarrow> set bs \<subseteq> {Ok ()}"
  by (induction bs) (auto simp: and_then_Ok_iff)

lemma start_consumer_Ok:
  assumes "start_consumer Q k args = Ok c"
  shows "aq_exchange_declare Q (ca_exchange args) = Ok ()" "aq_queue_declare Q (ca_queue args) = Ok ()"
    "\<forall>b \<in> set (ca_binds args). aq_queue_bind Q b = Ok ()" "aq_basic_consume Q (ca_consume args) = Ok ()"
    "km_connection c \<noteq> None" "km_statuses c = []" "km_state c = ConsumerOk"
  using assms by (auto simp: start_consumer_def consumer_new_def and_then_Ok_iff bind_all_Ok)

end
