(* ===== verification/Core_Requests.thy ===== *)
theory Core_Requests
  imports Core_Invariants
begin

text \<open>
  The requests of \<open>tom-notifier-core\<close> as they interleave. A handler waits for the database and then
  goes on: what is left to do after its first call of the repository (announce the change, confirm
  what was polled, respond) is a value, \<open>unfinished\<close>, and running a handler is its beginning
  followed by its end. Any number of requests may be between the two, and one whose client
  disconnects is dropped there. The invariant: the announcements made and still to be made are about
  changes that are stored, each created notification and each deletion at most once, and exactly once
  when no request was dropped and no call of the database failed.
\<close>

section \<open>The two halves of a handler\<close>

datatype unfinished =
    ToAnnounceNew inserted_notification
  | ToAnnounceUpdated uuid object_id bool
  | ToAnnounceDeleted uuid object_id
  | ToConfirm uuid "repo_notification list"
  | ToRespond core_response

definition save_begin :: "service_config \<Rightarrow> 'w notifications_repository \<Rightarrow> uuid \<Rightarrow> input_notification \<Rightarrow>
    offset_date_time \<Rightarrow> offset_date_time \<Rightarrow> 'w \<Rightarrow> (core_error, unfinished) result \<times> 'w" where
  "save_begin cfg r producer_id n now_validation now_creation w =
    (case validate_save_notification cfg n now_validation of
       Err e \<Rightarrow> (Err e, w)
     | Ok _ \<Rightarrow>
         (case nr_insert r (in_user_ids n) now_creation (in_invalidate_at n) producer_id
             (in_producer_notification_id n) (in_content_type n) (in_content n) w of
            (Err e, w') \<Rightarrow> (Err (save_error e), w')
          | (Ok ins, w') \<Rightarrow> (Ok (ToAnnounceNew ins), w')))"

definition delete_begin :: "'w notifications_repository \<Rightarrow> object_id \<Rightarrow> uuid \<Rightarrow> 'w \<Rightarrow>
    (core_error, unfinished) result \<times> 'w" where
  "delete_begin r i u w =
    (case nr_delete r i u w of
       (Err e, w') \<Rightarrow> (Err (update_error e), w')
     | (Ok _, w') \<Rightarrow> (Ok (ToAnnounceDeleted u i), w'))"

definition seen_begin :: "'w notifications_repository \<Rightarrow> object_id \<Rightarrow> uuid \<Rightarrow> notification_seen \<Rightarrow> 'w \<Rightarrow>
    (core_error, unfinished) result \<times> 'w" where
  "seen_begin r i u seen w =
    (case nr_update_confirmation_seen r i u (new_seen seen) w of
       (Err e, w') \<Rightarrow> (Err (update_error e), w')
     | (Ok _, w') \<Rightarrow> (Ok (ToAnnounceUpdated u i (new_seen seen)), w'))"

text \<open>What has no second half but its response.\<close>

definition respond_begin :: "('a \<Rightarrow> core_response) \<Rightarrow> (core_error, 'a) result \<times> 'w \<times> unit \<Rightarrow>
    (core_error, unfinished) result \<times> 'w" where
  "respond_begin f rs = (case rs of (r, w, _) \<Rightarrow> (and_then r (\<lambda>x. Ok (ToRespond (f x))), w))"

definition with_role :: "user \<Rightarrow> (core_error, unfinished) result \<times> 'w \<Rightarrow> 'w \<Rightarrow>
    (core_error, unfinished) result \<times> 'w" where
  "with_role u rs w = (case require_all_roles u [ProduceNotifications] of Err e \<Rightarrow> (Err (Auth e), w) | Ok _ \<Rightarrow> rs)"

fun request_begin :: "('w, 's) core_app \<Rightarrow> user \<Rightarrow> core_request \<Rightarrow> clock \<Rightarrow> 'w \<Rightarrow>
    (core_error, unfinished) result \<times> 'w" where
  "request_begin A u (PostUndelivered n) c w =
     with_role u (save_begin (app_config A) (app_repository A) (user_id u) n (first_now c) (second_now c) w) w"
| "request_begin A u GetUndelivered c w =
     (case find_undelivered_begin (app_repository A) (user_id u) (first_now c) w of
        (res, w') \<Rightarrow> (and_then res (\<lambda>ns. Ok (ToConfirm (user_id u) ns)), w'))"
| "request_begin A u (PutInvalidateAt i ia) c w =
     with_role u (respond_begin (\<lambda>_. no_content)
       (update_notification_invalidate_at (app_repository A) i (user_id u) ia (first_now c) (w, ()))) w"
| "request_begin A u (GetDelivered pg fs) c w =
     respond_begin (\<lambda>ns. ok_json (NotificationsBody ns))
       (find_delivered_notifications (app_ext A) (app_repository A) (user_id u) pg fs (w, ()))"
| "request_begin A u (GetDeliveredOne i) c w =
     respond_begin (\<lambda>n. ok_json (NotificationBody n))
       (find_delivered_notification (app_ext A) (app_repository A) i (user_id u) (w, ()))"
| "request_begin A u (DeleteDelivered i) c w = delete_begin (app_repository A) i (user_id u) w"
| "request_begin A u (PutSeen i b) c w = seen_begin (app_repository A) i (user_id u) b w"

definition save_end :: "ext \<Rightarrow> 's notifications_producer_service \<Rightarrow> inserted_notification \<Rightarrow> 's \<Rightarrow>
    notification_id \<times> 's" where
  "save_end X ps ins s =
    (\<lparr>nid = oid_to_hex X (ins_id ins)\<rparr>,
     ps_send_new ps (ins_user_ids ins) (ins_id ins) (ins_created_at ins) (ins_producer_id ins) False
       (ins_content_type ins) (ins_content ins) s)"

definition delete_end :: "'s notifications_producer_service \<Rightarrow> uuid \<Rightarrow> object_id \<Rightarrow> offset_date_time \<Rightarrow> 's \<Rightarrow> 's" where
  "delete_end ps u i now s = ps_send_deleted ps u i now s"

definition seen_end :: "'s notifications_producer_service \<Rightarrow> uuid \<Rightarrow> object_id \<Rightarrow> bool \<Rightarrow> offset_date_time \<Rightarrow> 's \<Rightarrow> 's" where
  "seen_end ps u i b now s = ps_send_updated ps u i b now s"

fun request_end :: "('w, 's) core_app \<Rightarrow> unfinished \<Rightarrow> offset_date_time \<Rightarrow> 'w \<times> 's \<Rightarrow>
    (core_error, core_response) result \<times> 'w \<times> 's" where
  "request_end A (ToAnnounceNew ins) now (w, s) =
     (case save_end (app_ext A) (app_producer A) ins s of (i, s') \<Rightarrow> (Ok (ok_json (IdBody i)), w, s'))"
| "request_end A (ToAnnounceUpdated u i b) now (w, s) = (Ok no_content, w, seen_end (app_producer A) u i b now s)"
| "request_end A (ToAnnounceDeleted u i) now (w, s) = (Ok no_content, w, delete_end (app_producer A) u i now s)"
| "request_end A (ToConfirm u ns) now (w, s) =
     (case find_undelivered_end (app_ext A) (app_repository A) u now ns w of
        (res, w') \<Rightarrow> (and_then res (\<lambda>outs. Ok (ok_json (NotificationsBody outs))), w', s))"
| "request_end A (ToRespond resp) now (w, s) = (Ok resp, w, s)"

lemmas announce_defs [simp] = save_end_def delete_end_def seen_end_def

text \<open>The reading of the clock in the second half.\<close>

fun end_clock :: "core_request \<Rightarrow> clock \<Rightarrow> offset_date_time" where
  "end_clock GetUndelivered c = second_now c"
| "end_clock _ c = first_now c"

lemmas handler_defs = post_notifications_undelivered_def get_notifications_undelivered_def
  put_notifications_undelivered_invalidate_at_def get_notifications_delivered_def
  get_notification_delivered_def delete_notification_delivered_def put_notification_delivered_seen_def

lemmas service_defs = save_notification_def delete_notification_def update_notification_seen_def
  update_notification_invalidate_at_def find_delivered_notifications_def find_delivered_notification_def

lemma core_handler_halves:
  "core_handler A u req c (w, s) =
    (case request_begin A u req c w of
       (Err e, w') \<Rightarrow> (Err e, w', s)
     | (Ok rest, w') \<Rightarrow> request_end A rest (end_clock req c) (w', s))"
proof (cases req)
  case GetUndelivered
  then show ?thesis
    by (auto simp: get_notifications_undelivered_def respond_with_def find_undelivered_halves and_then_def
        split: sum.splits prod.splits)
qed (auto simp: handler_defs service_defs respond_with_def respond_begin_def with_role_def save_begin_def
    delete_begin_def seen_begin_def and_then_def ok_or_def split: sum.splits prod.splits option.splits)

section \<open>Interleaved requests\<close>

text \<open>
  \<open>cs_interrupted\<close> records that a call of the database failed or that a request was dropped between
  its halves: only then may a stored change stay unannounced.
\<close>

record ('w, 's) interleaved_state =
  cs_world :: 'w
  cs_announced :: 's
  cs_unfinished :: "unfinished list"
  cs_interrupted :: bool

definition database_failed :: "(core_error, 'a) result \<Rightarrow> bool" where
  "database_failed res = (case res of Err (Database _) \<Rightarrow> True | _ \<Rightarrow> False)"

definition left_to_do :: "(core_error, unfinished) result \<Rightarrow> unfinished list" where
  "left_to_do res = (case res of Ok rest \<Rightarrow> [rest] | Err _ \<Rightarrow> [])"

inductive core_interleaving :: "('w, 's) core_app \<Rightarrow> prost \<Rightarrow> 'w \<times> 's \<Rightarrow> ('w, 's) interleaved_state \<Rightarrow> bool"
  for A P ws where
  start: "core_interleaving A P ws
    \<lparr>cs_world = fst ws, cs_announced = snd ws, cs_unfinished = [], cs_interrupted = False\<rparr>"
| request: "core_interleaving A P ws st \<Longrightarrow> request_begin A u req c (cs_world st) = (res, w') \<Longrightarrow>
    core_interleaving A P ws (st\<lparr>cs_world := w', cs_unfinished := cs_unfinished st @ left_to_do res,
      cs_interrupted := cs_interrupted st \<or> database_failed res\<rparr>)"
| finish: "core_interleaving A P ws st \<Longrightarrow> cs_unfinished st = xs @ rest # ys \<Longrightarrow>
    request_end A rest now (cs_world st, cs_announced st) = (res, w', s') \<Longrightarrow>
    core_interleaving A P ws (st\<lparr>cs_world := w', cs_announced := s', cs_unfinished := xs @ ys\<rparr>)"
| drop: "core_interleaving A P ws st \<Longrightarrow> cs_unfinished st = xs @ rest # ys \<Longrightarrow>
    core_interleaving A P ws (st\<lparr>cs_unfinished := xs @ ys, cs_interrupted := True\<rparr>)"
| confirm: "core_interleaving A P ws st \<Longrightarrow>
    confirmation_callback (app_ext A) P (app_repository A) now cont (cs_world st) = (res', w') \<Longrightarrow>
    core_interleaving A P ws (st\<lparr>cs_world := w'\<rparr>)"

section \<open>What is stored and what is announced\<close>

text \<open>A change is the addressees, the notification and what is announced of it.\<close>

type_synonym announced_change = "uuid list \<times> object_id \<times> change"

definition change_of :: "announcement \<Rightarrow> announced_change" where
  "change_of a = (an_user_ids a, an_id a, an_change a)"

fun unannounced :: "unfinished \<Rightarrow> announced_change list" where
  "unannounced (ToAnnounceNew ins) = [(ins_user_ids ins, ins_id ins,
     New (ins_producer_id ins) False (ins_content_type ins) (ins_content ins))]"
| "unannounced (ToAnnounceUpdated u i b) = [([u], i, Updated b)]"
| "unannounced (ToAnnounceDeleted u i) = [([u], i, Deleted)]"
| "unannounced (ToConfirm u ns) = []"
| "unannounced (ToRespond resp) = []"

definition deleted_by :: "uuid \<Rightarrow> notification \<Rightarrow> bool" where
  "deleted_by u n \<longleftrightarrow> list_ex (\<lambda>c. c_user_id c = u \<and> c_deleted c) (n_confirmations n)"

text \<open>What a store states once and for all: a notification exists, a user has deleted it.\<close>

datatype fact = Exists object_id | DeletedBy uuid object_id

definition facts :: "notification list \<Rightarrow> fact set" where
  "facts ns = (\<Union>n \<in> set ns. insert (Exists (n_id n)) {DeletedBy u (n_id n) |u. deleted_by u n})"

definition facts_of :: "announced_change \<Rightarrow> fact list" where
  "facts_of c = (case c of (us, i, New _ _ _ _) \<Rightarrow> [Exists i] | (us, i, Deleted) \<Rightarrow> map (\<lambda>u. DeletedBy u i) us
     | (us, i, Updated _) \<Rightarrow> [])"

text \<open>A change is backed by the store when it announces the notification as it is stored.\<close>

definition backed_by :: "announced_change \<Rightarrow> notification \<Rightarrow> bool" where
  "backed_by c n = (case c of (us, i, ch) \<Rightarrow> n_id n = i \<and> (case ch of
       New p b ct co \<Rightarrow> \<not> b \<and> n_user_ids n = us \<and> n_producer_id n = p \<and> n_content_type n = ct \<and> n_content n = co
     | Updated _ \<Rightarrow> (case us of [u] \<Rightarrow> confirmed u n | _ \<Rightarrow> False)
     | Deleted \<Rightarrow> (case us of [u] \<Rightarrow> deleted_by u n | _ \<Rightarrow> False)))"

definition backed :: "notification list \<Rightarrow> announced_change \<Rightarrow> bool" where
  "backed ns c = list_ex (backed_by c) ns"

lemma facts_simps [simp]:
  "facts [] = {}" "facts (ns @ ms) = facts ns \<union> facts ms"
  "facts [n] = insert (Exists (n_id n)) {DeletedBy u (n_id n) |u. deleted_by u n}"
  by (auto simp: facts_def)

lemma deleted_by_evolves: "notification_evolves n k \<Longrightarrow> deleted_by u n \<Longrightarrow> deleted_by u k"
proof -
  assume ev: "notification_evolves n k" and "deleted_by u n"
  then obtain i where "i < length (n_confirmations n)" "c_user_id (n_confirmations n ! i) = u"
    "c_deleted (n_confirmations n ! i)"
    by (auto simp: deleted_by_def list_ex_iff in_set_conv_nth)
  with ev extends_nth [of confirmation_evolves "n_confirmations n" "n_confirmations k" i]
    extends_length [of confirmation_evolves "n_confirmations n" "n_confirmations k"]
  show "deleted_by u k"
    by (auto simp: notification_evolves_def confirmation_evolves_def deleted_by_def list_ex_iff
        intro!: bexI [of _ "n_confirmations k ! i"])
qed

lemma notification_evolves_fields:
  assumes "notification_evolves n k"
  shows "n_id k = n_id n" "n_user_ids k = n_user_ids n" "n_producer_id k = n_producer_id n"
    "n_content_type k = n_content_type n" "n_content k = n_content n"
proof -
  have "k\<lparr>n_confirmations := [], n_invalidate_at := None\<rparr> = n\<lparr>n_confirmations := [], n_invalidate_at := None\<rparr>"
    using assms by (simp add: notification_evolves_def)
  from arg_cong [OF this, of n_id] arg_cong [OF this, of n_user_ids] arg_cong [OF this, of n_producer_id]
    arg_cong [OF this, of n_content_type] arg_cong [OF this, of n_content]
  show "n_id k = n_id n" "n_user_ids k = n_user_ids n" "n_producer_id k = n_producer_id n"
    "n_content_type k = n_content_type n" "n_content k = n_content n" by simp_all
qed

lemma facts_evolve: "store_evolves ns ns' \<Longrightarrow> facts ns \<subseteq> facts ns'"
proof
  fix f assume ev: "store_evolves ns ns'" and "f \<in> facts ns"
  then obtain n where n: "n \<in> set ns" and f: "f = Exists (n_id n) \<or> (\<exists>u. f = DeletedBy u (n_id n) \<and> deleted_by u n)"
    by (auto simp: facts_def)
  from store_evolves_confirmed [OF ev n] obtain k where k: "k \<in> set ns'" "notification_evolves n k" by blast
  with f show "f \<in> facts ns'"
    by (auto simp: facts_def notification_evolves_fields(1) intro!: bexI [of _ k] dest: deleted_by_evolves)
qed

lemma backed_evolves: "store_evolves ns ns' \<Longrightarrow> backed ns c \<Longrightarrow> backed ns' c"
proof -
  assume ev: "store_evolves ns ns'" and "backed ns c"
  then obtain n where n: "n \<in> set ns" "backed_by c n" by (auto simp: backed_def list_ex_iff)
  from store_evolves_confirmed [OF ev n(1)] obtain k where k: "k \<in> set ns'" "notification_evolves n k" by blast
  have "backed_by c k"
    using n(2) notification_evolves_confirmed [OF k(2)] deleted_by_evolves [OF k(2)]
    by (auto simp: backed_by_def notification_evolves_fields [OF k(2)] split: prod.splits change.splits list.splits)
  with k(1) show "backed ns' c" by (auto simp: backed_def list_ex_iff)
qed

text \<open>Of the updates of the store, only a deletion adds a fact.\<close>

lemma deleted_by_operations [simp]:
  "deleted_by v (confirm u t n) \<longleftrightarrow> deleted_by v n"
  "deleted_by v (mark_seen u b n) \<longleftrightarrow> deleted_by v n"
  "deleted_by v (reinvalidate d n) \<longleftrightarrow> deleted_by v n"
proof -
  have "list_ex (\<lambda>c. c_user_id c = v \<and> c_deleted c) (update_first p (\<lambda>c. c\<lparr>c_seen := b\<rparr>) cs) =
      list_ex (\<lambda>c. c_user_id c = v \<and> c_deleted c) cs" for p cs
    by (induction cs) auto
  then show "deleted_by v (mark_seen u b n) \<longleftrightarrow> deleted_by v n"
    by (simp add: deleted_by_def mark_seen_def)
qed (auto simp: deleted_by_def confirm_def reinvalidate_def)

lemma facts_update_where:
  assumes "\<And>n. n_id (f n) = n_id n" and "\<And>u n. deleted_by u (f n) = deleted_by u n"
  shows "facts (update_where p f ns) = facts ns"
  by (auto simp: facts_def update_where_def assms)

lemma deleted_by_mark_deleted:
  assumes "well_formed_notification n" and "confirmed_some u n"
  shows "deleted_by v (mark_deleted u n) \<longleftrightarrow> v = u \<or> deleted_by v n" and "\<not> deleted_by u n"
proof -
  from assms(2) obtain c where c: "c \<in> set (n_confirmations n)" "c_user_id c = u" "\<not> c_deleted c"
    unfolding confirmed_some_def delivered_conf_def by (auto simp: find_None_iff conf_filter_def)
  have d: "distinct (map c_user_id (n_confirmations n))"
    using assms(1) by (simp add: well_formed_notification_def)
  have "distinct (map c_user_id cs) \<Longrightarrow> c \<in> set cs \<Longrightarrow>
      (list_ex (\<lambda>c. c_user_id c = v \<and> c_deleted c) (update_first (\<lambda>c. c_user_id c = u) (\<lambda>c. c\<lparr>c_deleted := True\<rparr>) cs)
        \<longleftrightarrow> v = u \<or> list_ex (\<lambda>c. c_user_id c = v \<and> c_deleted c) cs)" for cs
    by (induction cs) (use c(2,3) in \<open>auto simp: list_ex_iff image_iff\<close>)
  with c(1) d show "deleted_by v (mark_deleted u n) \<longleftrightarrow> v = u \<or> deleted_by v n"
    by (simp add: deleted_by_def mark_deleted_def)
  show "\<not> deleted_by u n"
    using d c by (force simp: deleted_by_def list_ex_iff distinct_map inj_on_def)
qed

lemma facts_delete:
  assumes "well_formed ns" and "list_ex (id_of i (confirmed_some u)) ns"
  shows "facts (update_where (id_of i (confirmed_some u)) (mark_deleted u) ns) = insert (DeletedBy u i) (facts ns)"
    and "DeletedBy u i \<notin> facts ns"
proof -
  from assms(2) obtain n xs ys where ns: "ns = xs @ n # ys" and n: "n_id n = i" "confirmed_some u n"
    by (auto simp: list_ex_iff id_of_def dest: split_list)
  have wn: "well_formed_notification n" using well_formedD(3) [OF assms(1), of n] by (simp add: ns)
  have "update_where (\<lambda>n. n_id n = i \<and> confirmed_some u n) (mark_deleted u) ns = xs @ mark_deleted u n # ys"
    by (rule update_where_one [OF assms(1) ns n(1), where p = "confirmed_some u", OF n(2)])
  moreover have "id_of i (confirmed_some u) = (\<lambda>n. n_id n = i \<and> confirmed_some u n)"
    by (rule ext) (simp add: id_of_def)
  ultimately show "facts (update_where (id_of i (confirmed_some u)) (mark_deleted u) ns) = insert (DeletedBy u i) (facts ns)"
    using n(1) by (auto simp: ns facts_def deleted_by_mark_deleted(1) [OF wn n(2)])
  have "n_id k \<noteq> i" if "k \<in> set xs \<union> set ys" for k
    using well_formedD(1) [OF assms(1)] that by (auto simp: ns n(1) in_set_conv_decomp)
  then show "DeletedBy u i \<notin> facts ns"
    using deleted_by_mark_deleted(2) [OF wn n(2)] by (auto simp: ns facts_def)
qed

section \<open>Every change is explained\<close>

definition stated :: "announced_change list \<Rightarrow> fact list" where
  "stated cs = concat (map facts_of cs)"

definition to_announce :: "unfinished list \<Rightarrow> announced_change list" where
  "to_announce rests = concat (map unannounced rests)"

text \<open>
  The changes \<open>cs\<close> explain how the store went from \<open>ns\<close> to \<open>ns'\<close>: all are backed, none states a fact
  twice or one that was there before, and all new facts are stated unless something was interrupted.
\<close>

definition explained :: "notification list \<Rightarrow> notification list \<Rightarrow> announced_change list \<Rightarrow> bool \<Rightarrow> bool" where
  "explained ns ns' cs interrupted \<longleftrightarrow> list_all (backed ns') cs \<and> distinct (stated cs) \<and>
     set (stated cs) \<subseteq> facts ns' - facts ns \<and> (facts ns' - facts ns \<subseteq> set (stated cs) \<or> interrupted)"

lemma stated_simps [simp]: "stated [] = []" "stated (c # cs) = facts_of c @ stated cs"
  "stated (cs @ ds) = stated cs @ stated ds"
  by (simp_all add: stated_def)

lemma to_announce_simps [simp]: "to_announce [] = []" "to_announce (r # rs) = unannounced r @ to_announce rs"
  "to_announce (rs @ ss) = to_announce rs @ to_announce ss"
  by (simp_all add: to_announce_def)

lemma left_to_do_simps [simp]: "left_to_do (Ok rest) = [rest]" "left_to_do (Err e) = []"
  by (simp_all add: left_to_do_def)

lemma database_failed_simps [simp]: "\<not> database_failed (Ok rest)" "database_failed (Err (Database e))"
  by (simp_all add: database_failed_def)

lemma explained_nothing: "facts ns' = facts ns \<Longrightarrow> explained ns ns' [] b"
  by (simp add: explained_def)

lemma explained_failure: "explained ns ns' [] True"
  by (simp add: explained_def)

lemma explained_perm: "explained ns ns' cs b \<Longrightarrow> mset cs = mset ds \<Longrightarrow> explained ns ns' ds b"
proof -
  assume ex: "explained ns ns' cs b" and m: "mset cs = mset ds"
  have "mset (stated zs) = \<Sum>\<^sub># (image_mset (\<lambda>c. mset (facts_of c)) (mset zs))" for zs
    by (induction zs) simp_all
  then have "mset (stated cs) = mset (stated ds)" by (simp add: m)
  then have "set (stated cs) = set (stated ds)" and "distinct (stated cs) = distinct (stated ds)"
    by (rule mset_eq_setD, rule mset_eq_imp_distinct_iff)
  with ex mset_eq_setD [OF m] show ?thesis by (simp add: explained_def list_all_iff)
qed

lemma explained_drop: "explained ns ns' (cs @ xs @ ds) b \<Longrightarrow> explained ns ns' (cs @ ds) True"
  by (auto simp: explained_def)

lemma explained_trans:
  assumes "explained ns ns1 cs b" and "explained ns1 ns2 ds b'"
    and "store_evolves ns ns1" and "store_evolves ns1 ns2"
  shows "explained ns ns2 (cs @ ds) (b \<or> b')"
  using assms(1,2) facts_evolve [OF assms(3)] facts_evolve [OF assms(4)] backed_evolves [OF assms(4)]
  unfolding explained_def list_all_iff by (auto 0 3)

lemma explained_created:
  assumes "fresh n ns" and "n_confirmations n = []"
  shows "explained ns (ns @ [n]) [(n_user_ids n, n_id n, New (n_producer_id n) False (n_content_type n) (n_content n))] b"
  using assms by (auto simp: explained_def backed_def backed_by_def facts_of_def fresh_def facts_def deleted_by_def)

lemma explained_deleted:
  assumes "well_formed ns" and "list_ex (id_of i (confirmed_some u)) ns"
  shows "explained ns (update_where (id_of i (confirmed_some u)) (mark_deleted u) ns) [([u], i, Deleted)] b"
proof -
  let ?ns = "update_where (id_of i (confirmed_some u)) (mark_deleted u) ns"
  have f: "facts ?ns = insert (DeletedBy u i) (facts ns)" by (rule facts_delete(1) [OF assms])
  then have "DeletedBy u i \<in> facts ?ns" by simp
  then have "backed ?ns ([u], i, Deleted)"
    by (auto simp: facts_def backed_def backed_by_def list_ex_iff)
  with f facts_delete(2) [OF assms] show ?thesis by (auto simp: explained_def facts_of_def)
qed

lemma explained_seen:
  assumes "list_ex (id_of i (confirmed_some u)) ns"
  shows "explained ns (update_where (id_of i (confirmed_some u)) (mark_seen u b) ns) [([u], i, Updated b)] c"
proof -
  let ?ns = "update_where (id_of i (confirmed_some u)) (mark_seen u b) ns"
  from assms obtain n where n: "n \<in> set ns" "n_id n = i" "confirmed_some u n" by (auto simp: list_ex_iff id_of_def)
  then have "mark_seen u b n \<in> set ?ns" by (auto simp: set_update_where id_of_def)
  moreover have "confirmed u n"
    using n(3) unfolding confirmed_some_def delivered_conf_def
    by (auto simp: find_None_iff conf_filter_def confirmed_def list_ex_iff)
  ultimately have "backed ?ns ([u], i, Updated b)"
    using n(2) by (auto simp: backed_def backed_by_def list_ex_iff intro!: bexI [of _ "mark_seen u b n"])
  moreover have "facts ?ns = facts ns" by (rule facts_update_where) simp_all
  ultimately show ?thesis by (simp add: explained_def facts_of_def)
qed

section \<open>Over whole runs\<close>

definition begun :: "('w \<Rightarrow> notification list \<Rightarrow> bool) \<Rightarrow> notification list \<Rightarrow>
    (core_error, unfinished) result \<Rightarrow> 'w \<Rightarrow> bool" where
  "begun H ns res w' \<longleftrightarrow> (\<exists>ns'. H w' ns' \<and> store_evolves ns ns' \<and>
     explained ns ns' (to_announce (left_to_do res)) (database_failed res))"

lemma begunI: "H w' ns' \<Longrightarrow> store_evolves ns ns' \<Longrightarrow>
    explained ns ns' (to_announce (left_to_do res)) (database_failed res) \<Longrightarrow> begun H ns res w'"
  by (auto simp: begun_def)

lemma begun_quiet: "H w' ns' \<Longrightarrow> store_evolves ns ns' \<Longrightarrow> facts ns' = facts ns \<Longrightarrow> begun H ns (Err e) w'"
    "H w' ns' \<Longrightarrow> store_evolves ns ns' \<Longrightarrow> facts ns' = facts ns \<Longrightarrow> begun H ns (Ok (ToRespond resp)) w'"
  by (auto intro!: begunI explained_nothing)

lemma begun_unchanged: "H w' ns \<Longrightarrow> begun H ns (Err e) w'" "H w' ns \<Longrightarrow> begun H ns (Ok (ToRespond resp)) w'"
    "H w' ns \<Longrightarrow> begun H ns (Ok (ToConfirm u xs)) w'"
  by (auto intro!: begunI explained_nothing)

lemma begun_failed: "kept H ns w' \<Longrightarrow> begun H ns (Err (Database e)) w'"
  by (auto simp: begun_def kept_def explained_failure)

context notifications_repository
begin

text \<open>An update that states no new fact leaves the facts as they are, whatever its outcome.\<close>

lemma quiet_update:
  assumes "update_outcome holds p f ns res w'" and "\<And>n. notification_evolves n (f n)"
    and "\<And>n. n_id (f n) = n_id n" and "\<And>u n. deleted_by u (f n) = deleted_by u n"
  shows "\<exists>ns'. holds w' ns' \<and> store_evolves ns ns' \<and> facts ns' = facts ns"
proof -
  have "store_evolves ns (update_where p f ns)" by (rule store_evolves_update_where [OF assms(2)])
  moreover have "facts (update_where p f ns) = facts ns" by (rule facts_update_where [OF assms(3,4)])
  ultimately show ?thesis
    using assms(1) by (force simp: update_outcome_def split: sum.splits repo_error.splits)
qed

lemma confirming_keeps_facts:
  assumes h: "holds w ns"
  shows "confirmation_callback Y P r now cont w = (res, w') \<Longrightarrow>
      \<exists>ns'. holds w' ns' \<and> store_evolves ns ns' \<and> facts ns' = facts ns"
    and "find_undelivered_end Y r u now xs w = (res', w') \<Longrightarrow>
      \<exists>ns'. holds w' ns' \<and> store_evolves ns ns' \<and> facts ns' = facts ns"
proof -
  have stay: "\<exists>ns'. holds w ns' \<and> store_evolves ns ns' \<and> facts ns' = facts ns" using h by auto
  have one: "\<exists>ns'. holds v ns' \<and> store_evolves ns ns' \<and> facts ns' = facts ns"
    if "nr_insert_confirmation r i u now w = (x, v)" for i u x v
    by (rule quiet_update [OF insert_confirmation [OF h that]]) simp_all
  show "\<exists>ns'. holds w' ns' \<and> store_evolves ns ns' \<and> facts ns' = facts ns"
    if "confirmation_callback Y P r now cont w = (res, w')"
    using that one stay
    by (auto simp: confirmation_callback_def split: option.splits sum.splits prod.splits repo_error.splits)
  have many: "\<exists>ns'. holds v ns' \<and> store_evolves ns ns' \<and> facts ns' = facts ns"
    if "nr_insert_many_confirmations r is u now w = (x, v)" for "is" x v
  proof -
    have "facts (update_where p (confirm u t) ns) = facts ns" for p t by (rule facts_update_where) simp_all
    then show ?thesis
      using that insert_many_confirmations_Ok [OF h, of "is" u now v]
        insert_many_confirmations_Err [OF h, of "is" u now _ v]
      by (cases x) (auto intro: update_where_evolves(1))
  qed
  show "\<exists>ns'. holds w' ns' \<and> store_evolves ns ns' \<and> facts ns' = facts ns"
    if "find_undelivered_end Y r u now xs w = (res', w')"
    using that many stay by (auto simp: find_undelivered_end_def split: if_splits sum.splits prod.splits)
qed

lemma save_begin_begun:
  assumes "holds w ns" and "save_begin cfg r p n nv nc w = (res, w')"
  shows "begun holds ns res w'"
proof (cases "validate_save_notification cfg n nv")
  case (Inl e)
  then show ?thesis using assms by (auto simp: save_begin_def intro: begun_unchanged)
next
  case (Inr x)
  obtain res1 w1 where run: "nr_insert r (in_user_ids n) nc (in_invalidate_at n) p
      (in_producer_notification_id n) (in_content_type n) (in_content n) w = (res1, w1)" by fastforce
  show ?thesis
  proof (cases res1)
    case (Inr ins)
    from insert_Ok [OF assms(1) run [unfolded Inr]] obtain i
      where i: "ins_id ins = i" "ins_user_ids ins = in_user_ids n" "ins_producer_id ins = p"
        "ins_content_type ins = in_content_type n" "ins_content ins = in_content n"
      and new: "fresh (new_notification X i (in_user_ids n) nc (in_invalidate_at n) p
          (in_producer_notification_id n) (in_content_type n) (in_content n)) ns"
        "holds w1 (ns @ [new_notification X i (in_user_ids n) nc (in_invalidate_at n) p
          (in_producer_notification_id n) (in_content_type n) (in_content n)])" by auto
    from explained_created [OF new(1), of False] new(2) run Inr \<open>validate_save_notification cfg n nv = Inr x\<close> assms(2)
    show ?thesis by (auto simp: save_begin_def new_notification_def i intro!: begunI)
  next
    case (Inl e)
    with run \<open>validate_save_notification cfg n nv = Inr x\<close> assms(2)
    have res: "res = Err (save_error e)" "w' = w1" by (simp_all add: save_begin_def)
    show ?thesis
    proof (cases e)
      case InsertUniqueViolation
      with insert_duplicate [OF assms(1)] run Inl res show ?thesis by (auto intro: begun_unchanged)
    qed (use repository_after(1) [OF assms(1) run] insert_Err [OF assms(1) run [unfolded Inl]] res
        in \<open>auto intro: begun_failed\<close>)
  qed
qed

lemma update_begun:
  assumes "update_outcome holds p f ns res1 w'" and "\<And>n. notification_evolves n (f n)"
    and "list_ex p ns \<Longrightarrow> explained ns (update_where p f ns) (unannounced rest) False"
    and "res = and_then (map_err update_error res1) (\<lambda>_. Ok rest)"
  shows "begun holds ns res w'"
proof (cases res1)
  case (Inr x)
  with assms show ?thesis
    by (auto simp: update_outcome_def intro!: begunI store_evolves_update_where)
next
  case (Inl e)
  with assms(1,4) update_outcome_after [OF assms(1,2)] show ?thesis
    by (cases e) (auto simp: update_outcome_def intro: begun_unchanged begun_failed)
qed

lemma request_begin_begun:
  assumes h: "holds w ns" and wf: "well_formed ns" and A: "app_repository A = r"
    and run: "request_begin A u req c w = (res, w')"
  shows "begun holds ns res w'"
proof (cases req)
  case (PostUndelivered n)
  with run h save_begin_begun [OF h] show ?thesis
    by (auto simp: with_role_def A split: sum.splits intro: begun_unchanged)
next
  case GetUndelivered
  with run queries_keep(3) [OF h, of "user_id u" "first_now c"] show ?thesis
    by (auto simp: find_undelivered_begin_def A and_then_def map_err_def split: prod.splits sum.splits
        intro!: begun_unchanged)
next
  case (PutInvalidateAt i ia)
  obtain res1 w1 where up: "nr_update_invalidate_at r i (user_id u) (new_invalidate_at ia) w = (res1, w1)" by fastforce
  have "\<exists>ns'. holds w1 ns' \<and> store_evolves ns ns' \<and> facts ns' = facts ns"
    by (rule quiet_update [OF update_invalidate_at [OF h up]]) simp_all
  with PutInvalidateAt run h up show ?thesis
    by (auto simp: with_role_def respond_begin_def update_notification_invalidate_at_def A and_then_def
        split: sum.splits prod.splits intro: begun_unchanged begun_quiet)
next
  case (GetDelivered pg fs)
  with run queries_keep(2) [OF h, of "user_id u" pg fs] show ?thesis
    by (auto simp: respond_begin_def find_delivered_notifications_def A and_then_def split: prod.splits sum.splits
        intro!: begun_unchanged)
next
  case (GetDeliveredOne i)
  with run queries_keep(1) [OF h, of i "user_id u"] show ?thesis
    by (auto simp: respond_begin_def find_delivered_notification_def A and_then_def ok_or_def
        split: prod.splits sum.splits option.splits intro!: begun_unchanged)
next
  case (DeleteDelivered i)
  obtain res1 where d: "nr_delete r i (user_id u) w = (res1, w')"
    using run DeleteDelivered by (auto simp: delete_begin_def A split: prod.splits sum.splits)
  show ?thesis
    by (rule update_begun [OF delete [OF h d], where rest = "ToAnnounceDeleted (user_id u) i"])
      (use run DeleteDelivered d in \<open>auto simp: explained_deleted [OF wf] delete_begin_def A split: sum.splits\<close>)
next
  case (PutSeen i b)
  obtain res1 where d: "nr_update_confirmation_seen r i (user_id u) (new_seen b) w = (res1, w')"
    using run PutSeen by (auto simp: seen_begin_def A split: prod.splits sum.splits)
  show ?thesis
    by (rule update_begun [OF update_confirmation_seen [OF h d], where rest = "ToAnnounceUpdated (user_id u) i (new_seen b)"])
      (use run PutSeen d in \<open>auto simp: explained_seen seen_begin_def A split: sum.splits\<close>)
qed

end

context notifications_service
begin

lemma request_end_announces:
  assumes "app_repository A = r" and "app_producer A = ps" and "holds w ns"
    and "request_end A rest now (w, s) = (res, w', s')"
  shows "\<exists>ns'. holds w' ns' \<and> store_evolves ns ns' \<and> facts ns' = facts ns"
    and "\<exists>as. log s' = log s @ map Some as \<and> map change_of as = unannounced rest"
proof -
  have one: "\<exists>as. [Some a] = map Some as \<and> map change_of as = [c]" if "change_of a = c" for a c
    using that by (intro exI [of _ "[a]"]) simp
  show "\<exists>as. log s' = log s @ map Some as \<and> map change_of as = unannounced rest"
    using assms(4)
    by (cases rest)
      (auto simp: assms(2) announce_new announce_updated announce_deleted change_of_def split: prod.splits intro!: one)
  show "\<exists>ns'. holds w' ns' \<and> store_evolves ns ns' \<and> facts ns' = facts ns"
    using assms confirming_keeps_facts(2) [OF assms(3)]
    by (cases rest) (auto split: prod.splits)
qed

lemma interleaving_explained:
  assumes wf: "\<And>w ns. holds w ns \<Longrightarrow> well_formed ns" and h: "holds w0 ns"
    and A: "app_repository A = r" "app_producer A = ps" and run: "core_interleaving A P (w0, s0) st"
  shows "\<exists>ns' as. holds (cs_world st) ns' \<and> store_evolves ns ns' \<and> log (cs_announced st) = log s0 @ map Some as \<and>
    explained ns ns' (map change_of as @ to_announce (cs_unfinished st)) (cs_interrupted st)"
  using run
proof (induction rule: core_interleaving.induct)
  case start
  show ?case using h by (intro exI [of _ ns] exI [of _ "[]"]) (simp add: explained_nothing)
next
  case (request st u req c res w')
  then obtain ns1 as where IH: "holds (cs_world st) ns1" "store_evolves ns ns1"
    "log (cs_announced st) = log s0 @ map Some as"
    "explained ns ns1 (map change_of as @ to_announce (cs_unfinished st)) (cs_interrupted st)" by blast
  from request_begin_begun [OF IH(1) wf [OF IH(1)] A(1) request.hyps(2)] obtain ns2
    where ns2: "holds w' ns2" "store_evolves ns1 ns2"
      "explained ns1 ns2 (to_announce (left_to_do res)) (database_failed res)" by (auto simp: begun_def)
  from explained_trans [OF IH(4) ns2(3) IH(2) ns2(2)] ns2(1) store_evolves_trans [OF IH(2) ns2(2)] IH(3)
  show ?case by (intro exI [of _ ns2] exI [of _ as]) simp
next
  case (finish st xs rest ys now res w' s')
  then obtain ns1 as where IH: "holds (cs_world st) ns1" "store_evolves ns ns1"
    "log (cs_announced st) = log s0 @ map Some as"
    "explained ns ns1 (map change_of as @ to_announce (cs_unfinished st)) (cs_interrupted st)" by blast
  from request_end_announces(1) [OF A IH(1) finish.hyps(3)] obtain ns2
    where ns2: "holds w' ns2" "store_evolves ns1 ns2" "facts ns2 = facts ns1" by blast
  from request_end_announces(2) [OF A IH(1) finish.hyps(3)] obtain bs
    where bs: "log s' = log (cs_announced st) @ map Some bs" "map change_of bs = unannounced rest" by blast
  have "explained ns ns2 (map change_of as @ to_announce (cs_unfinished st)) (cs_interrupted st)"
    using explained_trans [OF IH(4) explained_nothing [OF ns2(3), of False] IH(2) ns2(2)] by simp
  then have "explained ns ns2 (map change_of (as @ bs) @ to_announce (xs @ ys)) (cs_interrupted st)"
    by (rule explained_perm) (simp add: finish.hyps(2) bs(2) ac_simps)
  with ns2 store_evolves_trans [OF IH(2) ns2(2)] IH(3) bs(1)
  show ?case by (intro exI [of _ ns2] exI [of _ "as @ bs"]) simp
next
  case (drop st xs rest ys)
  then obtain ns1 as where IH: "holds (cs_world st) ns1" "store_evolves ns ns1"
    "log (cs_announced st) = log s0 @ map Some as"
    "explained ns ns1 (map change_of as @ to_announce (cs_unfinished st)) (cs_interrupted st)" by blast
  have "explained ns ns1 ((map change_of as @ to_announce xs) @ to_announce ys) True"
    by (rule explained_drop [where xs = "unannounced rest"]) (use IH(4) in \<open>simp add: drop.hyps(2)\<close>)
  with IH(1-3) show ?case by (intro exI [of _ ns1] exI [of _ as]) simp
next
  case (confirm st now cont res' w')
  then obtain ns1 as where IH: "holds (cs_world st) ns1" "store_evolves ns ns1"
    "log (cs_announced st) = log s0 @ map Some as"
    "explained ns ns1 (map change_of as @ to_announce (cs_unfinished st)) (cs_interrupted st)" by blast
  from confirming_keeps_facts(1) [OF IH(1) confirm.hyps(2) [unfolded A(1)]] obtain ns2
    where ns2: "holds w' ns2" "store_evolves ns1 ns2" "facts ns2 = facts ns1" by blast
  from explained_trans [OF IH(4) explained_nothing [OF ns2(3), of False] IH(2) ns2(2)]
    ns2(1) store_evolves_trans [OF IH(2) ns2(2)] IH(3)
  show ?case by (intro exI [of _ ns2] exI [of _ as]) simp
qed

end

end
