(* ===== verification/Instances.thy ===== *)
theory Instances
  imports Core_Requests Tickets Websockets_Service
begin

text \<open>
  Concrete values for the witnesses: databases of the reference server that store given
  notifications and tickets, two users, a notification, a token check that accepts two tokens, an
  application over them.
\<close>

definition store_world :: "notification list \<Rightarrow> ticket_entity list \<Rightarrow> ref_world" where
  "store_world ns ts =
    \<lparr> w_docs = (\<lambda>c. if c = NOTIFICATIONS then map encode ns else if c = TICKETS then map encode_ticket ts else []),
      w_indexes = (\<lambda>c. if c = NOTIFICATIONS then [unique_producer_notification_index]
        else if c = TICKETS then [unique_ticket_index] else []),
      w_next = 100 \<rparr>"

lemma stored_world: "well_formed ns \<Longrightarrow> stored ref_server (store_world ns ts) ns"
  by (simp add: stored_def store_world_def producer_index_only_def)

lemma tickets_stored_world: "well_formed_tickets ts \<Longrightarrow> tickets_stored ref_server (store_world ns ts) ts"
  by (simp add: tickets_stored_def store_world_def ticket_index_only_def NOTIFICATIONS_def TICKETS_def
      unique_ticket_index_def)

definition alice :: uuid where "alice = Uuid 1"
definition bob :: uuid where "bob = Uuid 2"

lemma alice_bob [simp]: "alice \<noteq> bob" "bob \<noteq> alice"
  by (simp_all add: alice_def bob_def)

text \<open>A broadcast with identifier 7, which \<open>bob\<close> has and \<open>alice\<close> has not.\<close>

definition hello :: notification where
  "hello = \<lparr>n_id = ObjectId 7, n_created_at = 5, n_invalidate_at = None, n_user_ids = [], n_producer_id = bob,
     n_producer_notification_id = 1, n_content_type = ''text'', n_content = [104, 105],
     n_confirmations = [\<lparr>c_user_id = bob, c_delivered_at = 6, c_seen = False, c_deleted = False\<rparr>]\<rparr>"

lemma hello_well_formed: "well_formed [hello]"
  by (simp add: well_formed_def well_formed_notification_def hello_def recipient_def)

lemmas hello_stored = stored_world [OF hello_well_formed, of "[]"]

text \<open>A ticket of \<open>alice\<close> that expires after 10 milliseconds.\<close>

definition alice_ticket :: ticket_entity where
  "alice_ticket = \<lparr>te_id = ObjectId 8, te_ticket = ''t'', te_user_id = alice, te_issued_at = 0,
     te_expire_at = 10, te_used_at = None\<rparr>"

lemma alice_ticket_stored: "tickets_stored ref_server (store_world ns [alice_ticket]) [alice_ticket]"
  by (rule tickets_stored_world) (simp add: well_formed_tickets_def)

text \<open>The tokens \<open>a\<close> (a producer and administrator) and \<open>b\<close> (a user without roles).\<close>

definition ref_jwt :: "unit jwt" where
  "ref_jwt =
    \<lparr> header_to_str = (\<lambda>bs. Some (map (\<lambda>b. char_of (unat b)) bs)),
      decode_claims = (\<lambda>t _ _.
        if t = ''a'' then Some \<lparr>sub = alice,
          realm_roles = [''tom_notifier_produce_notifications'', ''tom_notifier_admin'']\<rparr>
        else if t = ''b'' then Some \<lparr>sub = bob, realm_roles = []\<rparr> else None),
      algorithm_from_str = (\<lambda>s. if s = ''HS256'' then Some HS256 else None),
      from_secret = (\<lambda>_. ()), from_ec_pem = (\<lambda>_. Some ()), from_rsa_pem = (\<lambda>_. Some ()) \<rparr>"

definition bearer :: "string \<Rightarrow> bytes option" where
  "bearer token = Some (map (\<lambda>c. word_of_nat (of_char c)) (''Bearer '' @ token))"

definition alice_admin :: user where
  "alice_admin = \<lparr>user_id = alice, roles = [''tom_notifier_produce_notifications'', ''tom_notifier_admin'']\<rparr>"

lemma bearer_tokens:
  "parse_authorization_header ref_jwt () algs (bearer ''a'') = Ok alice_admin"
  "parse_authorization_header ref_jwt () algs (bearer ''b'') = Ok \<lparr>user_id = bob, roles = []\<rparr>"
proof -
  have "header_to_str ref_jwt (map (\<lambda>c. word_of_nat (of_char c)) v) = Some v" for v
    by (simp add: ref_jwt_def comp_def unat_of_nat map_idI)
  then show "parse_authorization_header ref_jwt () algs (bearer ''a'') = Ok alice_admin"
    and "parse_authorization_header ref_jwt () algs (bearer ''b'') = Ok \<lparr>user_id = bob, roles = []\<rparr>"
    by (simp_all add: parse_authorization_header_def bearer_def starts_with_def get_from_def ref_jwt_def
        alice_admin_def del: list.map)
qed

definition ref_app :: "(ref_world, message list) core_app" where
  "ref_app = \<lparr> app_ext = ref_ext, app_config = \<lparr>max_content_len = 16\<rparr>,
     app_repository = notifications_repository_impl ref_ext ref_server,
     app_producer = notifications_producer_service_impl ref_ext ref_prost \<rparr>"

end
