(* ===== verification/Startup_Properties.thy ===== *)
theory Startup_Properties
  imports Startup Instances
begin

text \<open>
  What starting the core means: the error that stops it, or an application that keeps the store,
  with the configured limit and a producer and a consumer at work.
\<close>

lemma ok_or_Ok_iff: "ok_or e x = Ok y \<longleftrightarrow> x = Some y"
  by (cases x) simp_all

lemma first_Some: "first xs = Some a \<longleftrightarrow> xs \<noteq> [] \<and> a = hd xs"
  by (cases xs) (auto simp: first_def)





text \<open>An environment in which every variable is \<open>8\<close>, but for the algorithms.\<close>

definition eight_vars :: "string \<Rightarrow> string option" where
  "eight_vars v = Some (if v = ''TOM_NOTIFIER_CORE_JWT_ALGORITHMS'' \<or> v = ''TOM_NOTIFIER_WS_DELIVERY_JWT_ALGORITHMS'' then ''HS256'' else ''8'')"

definition quiet_amqp :: "(string, unit) amqp" where
  "quiet_amqp =
    \<lparr> aq_arguments = (\<lambda>_. Ok ()), aq_open = (\<lambda>_. Ok ()), aq_register_connection = Ok (),
      aq_producer_connection = Some, aq_producer_channel = Ok (), aq_producer_register = Ok (),
      aq_confirm_select = Ok (), aq_consumer_connection = Some, aq_consumer_channel = Ok (),
      aq_consumer_register = Ok (), aq_exchange_declare = (\<lambda>_. Ok ()), aq_queue_declare = (\<lambda>_. Ok ()),
      aq_queue_bind = (\<lambda>_. Ok ()), aq_basic_consume = (\<lambda>_. Ok ()), aq_no_connection = ''no connection'' \<rparr>"


lemma demo_texts:
  "parse_jwt_algorithms ref_jwt ''HS256'' = Ok [HS256]"
  "parse_unsigned 18446744073709551616 ''8'' = Some 8" "parse_unsigned 256 ''8'' = Some 8"
  by (simp_all add: parse_jwt_algorithms_def ref_jwt_def parse_unsigned_def digit_of_def)



section \<open>The delivery\<close>

lemma ws_env_Ok:
  assumes "ws_env_parse J addr vars = Ok env"
  shows "Option.bind (vars ''TOM_NOTIFIER_WS_DELIVERY_WEBSOCKET_TICKET_LIFESPAN'') (parse_unsigned (2 ^ 64)) =
      Some (we_websocket_ticket_lifespan env div 1000000000)"
    "Option.bind (vars ''TOM_NOTIFIER_WS_DELIVERY_WEBSOCKET_RETRY_MAX_COUNT'') (parse_unsigned (2 ^ 8)) =
      Some (unat (we_websocket_retry_max_count env))"
    "Option.bind (vars ''TOM_NOTIFIER_WS_DELIVERY_WEBSOCKET_CONNECTION_BUFFER_SIZE'') (parse_unsigned (2 ^ 8)) =
      Some (unat (we_websocket_connection_buffer_size env))"
    "we_jwt_algorithms env \<noteq> []"
proof -
  have u8: "unat (word_of_nat n :: u8) = n" if "parse_unsigned 256 t = Some n" for n t
    using parse_unsigned_less [OF _ that] by (simp add: unat_of_nat)
  show "Option.bind (vars ''TOM_NOTIFIER_WS_DELIVERY_WEBSOCKET_TICKET_LIFESPAN'') (parse_unsigned (2 ^ 64)) =
      Some (we_websocket_ticket_lifespan env div 1000000000)"
    "Option.bind (vars ''TOM_NOTIFIER_WS_DELIVERY_WEBSOCKET_RETRY_MAX_COUNT'') (parse_unsigned (2 ^ 8)) =
      Some (unat (we_websocket_retry_max_count env))"
    "Option.bind (vars ''TOM_NOTIFIER_WS_DELIVERY_WEBSOCKET_CONNECTION_BUFFER_SIZE'') (parse_unsigned (2 ^ 8)) =
      Some (unat (we_websocket_connection_buffer_size env))"
    "we_jwt_algorithms env \<noteq> []"
    using assms
    by (auto simp: ws_env_parse_def and_then_Ok_iff parsed_def env_var_def ok_or_Ok_iff first_Some u8 from_secs_def)
qed

lemma ws_create_services_Ok:
  assumes "ws_create_services X Q messages confirms env new_v4 channels r = Ok s"
  shows "wa_ticket_lifespan (st_ws_app s) = we_websocket_ticket_lifespan env"
    "wa_tickets (st_ws_app s) = r"
    "retry_max_count (ws_config (st_service s)) = we_websocket_retry_max_count env"
    "connection_buffer_size (ws_config (st_service s)) = we_websocket_connection_buffer_size env"
    "ws_users (st_service s) = []" "ws_network_ok (st_service s)"
    "pm_state (st_ws_producer s) = ProducerOk" "km_state (st_ws_consumer s) = ConsumerOk"
  using assms start_producer_Ok start_consumer_Ok
  unfolding ws_create_services_def and_then_Ok_iff websockets_service_new_def
  by fastforce+

lemma ws_create_state_Ok:
  assumes "ws_create_state X db Q messages confirms env new_v4 channels w = (Ok s, w')"
  obtains m where "db (we_db_connection_string env) (we_db_name env) = Ok m"
    "tickets_repository_new m w = (Ok (), w')"
    "ws_create_services X Q messages confirms env new_v4 channels (tickets_repository_impl X m) = Ok s"
  using assms unfolding ws_create_state_def by (auto split: sum.splits prod.splits)

text \<open>C34. The delivery stops at the first environment variable that is not set, before it touches the
  database. It serves only when all are set, with the ticket lifespan (in seconds), the number of
  retransmissions and the buffer size of connections configured, with nobody connected, producer
  and consumer at work, and the tickets that were in the database.\<close>

theorem ws_starts:
  assumes "\<And>c n m. db c n = Ok m \<Longrightarrow> mongo_server m \<and> docs m TICKETS w = map encode_ticket ts \<and>
      ticket_index_only (indexes m TICKETS w)"
    and "well_formed_tickets ts"
    and "ws_start X J addr tracing db Q messages confirms vars new_v4 channels w = (r, w')"
  shows "case r of
      Err (Environment e) \<Rightarrow> w' = w \<and>
        (\<forall>v. e = NotSet v \<longrightarrow> find (\<lambda>u. vars u = None) ws_variables = Some v)
    | Err _ \<Rightarrow> list_all (\<lambda>v. vars v \<noteq> None) ws_variables
    | Ok (s, mw) \<Rightarrow> list_all (\<lambda>v. vars v \<noteq> None) ws_variables \<and> la_algorithms mw \<noteq> [] \<and>
        Option.bind (vars ''TOM_NOTIFIER_WS_DELIVERY_WEBSOCKET_TICKET_LIFESPAN'') (parse_unsigned (2 ^ 64)) =
          Some (wa_ticket_lifespan (st_ws_app s) div 1000000000) \<and>
        Option.bind (vars ''TOM_NOTIFIER_WS_DELIVERY_WEBSOCKET_RETRY_MAX_COUNT'') (parse_unsigned (2 ^ 8)) =
          Some (unat (retry_max_count (ws_config (st_service s)))) \<and>
        Option.bind (vars ''TOM_NOTIFIER_WS_DELIVERY_WEBSOCKET_CONNECTION_BUFFER_SIZE'') (parse_unsigned (2 ^ 8)) =
          Some (unat (connection_buffer_size (ws_config (st_service s)))) \<and>
        ws_users (st_service s) = [] \<and> ws_network_ok (st_service s) \<and>
        pm_state (st_ws_producer s) = ProducerOk \<and> km_state (st_ws_consumer s) = ConsumerOk \<and>
        (\<exists>c n m. db c n = Ok m \<and> wa_tickets (st_ws_app s) = tickets_repository_impl X m \<and> tickets_stored m w' ts)"
proof (cases "ws_env_parse J addr vars")
  case (Inl e)
  with assms(3) ws_env_reads [of vars J addr] show ?thesis
    by (auto simp: ws_start_def reads_def)
next
  case (Inr env)
  with ws_env_reads [of vars J addr] have set_vars: "list_all (\<lambda>v. vars v \<noteq> None) ws_variables"
    by (simp add: reads_def)
  consider e where "r = Err (Library e)"
    | r' where "ws_create_state X db Q messages confirms env new_v4 channels w = (r', w')"
      "r = and_then r' (\<lambda>s. Ok (s, ws_create_middleware env))"
    using assms(3) Inr by (auto simp: ws_start_def split: prod.splits sum.splits)
  then show ?thesis
  proof cases
    case 1
    with set_vars show ?thesis by simp
  next
    case cs: (2 r')
    show ?thesis
    proof (cases r')
      case err: (Inl e)
      have "\<And>e'. e \<noteq> Environment e'"
        using cs(1) err unfolding ws_create_state_def map_err_def by (auto split: sum.splits prod.splits)
      with cs(2) err set_vars show ?thesis by (cases e) (simp_all del: start_error.inject, blast)
    next
      case ok: (Inr s)
      from ws_create_state_Ok [OF cs(1) [unfolded ok]] obtain m
        where m: "db (we_db_connection_string env) (we_db_name env) = Ok m"
          and new: "tickets_repository_new m w = (Ok (), w')"
          and sv: "ws_create_services X Q messages confirms env new_v4 channels (tickets_repository_impl X m) = Ok s" .
      have "tickets_stored m w' ts"
        using assms(1) [OF m] mongo_server.new_tickets_stored [OF _ _ assms(2) _ new] by blast
      with m have "\<exists>c n m. db c n = Ok m \<and> wa_tickets (st_ws_app s) = tickets_repository_impl X m \<and>
          tickets_stored m w' ts" using ws_create_services_Ok(2) [OF sv] by blast
      with ws_create_services_Ok [OF sv] ws_env_Ok [OF Inr] set_vars cs(2) ok show ?thesis by (simp add: ws_create_middleware_def)
    qed
  qed
qed

definition demo_ws_start :: "(string start_error, (ref_world, unit, unit, message list, publisher_confirm list) ws_state \<times>
    unit jwt_auth_layer) result \<times> ref_world" where
  "demo_ws_start = ws_start ref_ext ref_jwt (\<lambda>_. Some ()) (\<lambda>_ _. Ok ()) (\<lambda>_ _. Ok ref_server) quiet_amqp [] [] eight_vars
     (Uuid 1) () (store_world [] [alice_ticket])"

lemma demo_ws_start_Ok: "\<exists>s mw w'. demo_ws_start = (Ok (s, mw), w')"
proof -
  have "\<exists>env. ws_env_parse ref_jwt (\<lambda>_. Some ()) eight_vars = Ok env \<and> we_jwt_algorithms env = [HS256]"
    by (simp add: ws_env_parse_def env_var_def eight_vars_def parsed_def demo_texts first_def parse_jwt_key_def)
  then obtain env where env: "ws_env_parse ref_jwt (\<lambda>_. Some ()) eight_vars = Ok env"
    "we_jwt_algorithms env = [HS256]" by blast
  obtain w' where w': "tickets_repository_new ref_server (store_world [] [alice_ticket]) = (Ok (), w')"
    by (simp add: tickets_repository_new_def create_index_unless_def store_world_def TICKETS_def NOTIFICATIONS_def)
  have "\<exists>s. ws_create_services ref_ext quiet_amqp ([] :: message list) ([] :: publisher_confirm list) env (Uuid 1) ()
      (tickets_repository_impl ref_ext ref_server) = Ok s"
    by (simp add: ws_create_services_def start_connection_def start_producer_def start_consumer_def
        connection_new_def producer_new_def consumer_new_def quiet_amqp_def notifications_consumer_args_def Let_def)
  then obtain s where s: "ws_create_services ref_ext quiet_amqp ([] :: message list) ([] :: publisher_confirm list) env
      (Uuid 1) () (tickets_repository_impl ref_ext ref_server) = Ok s" by blast
  show ?thesis by (simp add: demo_ws_start_def ws_start_def ws_create_state_def env w' s)
qed

theorem ws_starts_witness:
  "case fst demo_ws_start of
     Ok (s, mw) \<Rightarrow> unat (retry_max_count (ws_config (st_service s))) = 8 \<and>
       wa_ticket_lifespan (st_ws_app s) div 1000000000 = 8 \<and> km_state (st_ws_consumer s) = ConsumerOk
   | Err _ \<Rightarrow> False"
proof -
  obtain s mw w' where run: "demo_ws_start = (Ok (s, mw), w')" using demo_ws_start_Ok by blast
  have db: "mongo_server m \<and> docs m TICKETS (store_world [] [alice_ticket]) = map encode_ticket [alice_ticket] \<and>
      ticket_index_only (indexes m TICKETS (store_world [] [alice_ticket]))"
    if "(Ok ref_server :: (string, ref_world mongo) result) = Ok m" for m
    using that alice_ticket_stored [where ns = "[]"] ref.mongo_server_axioms by (simp add: tickets_stored_def)
  have "well_formed_tickets [alice_ticket]" by (simp add: well_formed_tickets_def)
  from ws_starts [where db = "\<lambda>_ _. Ok ref_server", OF db this run [unfolded demo_ws_start_def]]
  have "8 = wa_ticket_lifespan (st_ws_app s) div 1000000000" "8 = unat (retry_max_count (ws_config (st_service s)))"
    "km_state (st_ws_consumer s) = ConsumerOk"
    by (simp_all add: eight_vars_def demo_texts)
  then show ?thesis by (simp add: run)
qed

end
