(* ===== verification/Core_Properties.thy ===== *)
theory Core_Properties
  imports Instances
begin

text \<open>
  The properties of \<open>tom-notifier-core\<close>, stated over the repository implementation on any server
  with the documented behaviour; each rests on the contracts' lemmas. Witnesses run on the
  reference server.
\<close>

section \<open>The repository\<close>

text \<open>C4. The repository implementation refines the abstract store: every operation, on every
  outcome including database errors, does to the stored notifications what the contract says.\<close>

theorem repository_refines_store:
  assumes "mongo_server m"
  shows "notifications_repository (notifications_repository_impl X m) X (stored m)"
  using assms by (rule mongo_server.repository_contract)

theorem repository_refines_store_witness:
  "mongo_server ref_server \<and>
   notifications_repository (notifications_repository_impl ref_ext ref_server) ref_ext (stored ref_server)"
  using ref.mongo_server_axioms repository_refines_store [OF ref.mongo_server_axioms, of ref_ext] by blast


section \<open>The service\<close>

text \<open>C5. A saved notification passed the validation, is stored under a fresh identifier with a
  fresh producer key, and is announced as it is stored, once.\<close>

theorem save_stores_and_announces:
  assumes "mongo_server m" and "identifiers_ok X" and "prost_ok P" and "stored m w ns"
    and "save_notification X cfg (notifications_repository_impl X m) (notifications_producer_service_impl X P)
      p n nv nc (w, s) = (Ok out, w', s')"
  shows "\<exists>i. out = \<lparr>nid = oid_to_hex X i\<rparr> \<and>
    (let new = new_notification X i (in_user_ids n) nc (in_invalidate_at n) p
           (in_producer_notification_id n) (in_content_type n) (in_content n)
     in fresh new ns \<and> stored m w' (ns @ [new])) \<and>
    map (read_announcement X P) s' = map (read_announcement X P) s @
      [Some \<lparr>an_user_ids = in_user_ids n, an_id = i, an_timestamp = timestamp_of X nc,
        an_change = New p False (in_content_type n) (in_content n)\<rparr>] \<and>
    validate_save_notification cfg n nv = Ok ()"
  using notifications_service.save_notification_Ok [OF notifications_service_impl [OF assms(1-3)] assms(4,5)] .

definition greeting :: input_notification where
  "greeting = \<lparr>in_invalidate_at = None, in_user_ids = [alice], in_producer_notification_id = 2,
     in_content_type = ''text'', in_content = [104]\<rparr>"

definition save_greeting :: "(core_error, notification_id) result \<times> ref_world \<times> message list" where
  "save_greeting = save_notification ref_ext \<lparr>max_content_len = 16\<rparr>
     (notifications_repository_impl ref_ext ref_server) (notifications_producer_service_impl ref_ext ref_prost)
     bob greeting 10 11 (store_world [hello] [], [])"

lemma save_greeting_Ok:
  "save_greeting = (Ok \<lparr>nid = oid_to_hex ref_ext (ObjectId 100)\<rparr>, fst (snd save_greeting), snd (snd save_greeting))"
proof -
  have "producer_key hello \<noteq> (bob, 2)" by (simp add: producer_key_def hello_def)
  then show ?thesis
    by (simp add: save_greeting_def save_notification_def validate_save_notification_def greeting_def
        validate_invalidate_at_not_passed_def validate_content_not_too_long_def repo_insert_def Let_def
        r_insert_one_def store_world_def duplicate_key_def unique_producer_notification_index_def same_key_def
        insert_entity_fields_def encode_def encode_fields_def hello_def prod_eq_iff del: prod.collapse)
qed

theorem save_stores_and_announces_witness:
  "\<exists>i. map (read_announcement ref_ext ref_prost) (snd (snd save_greeting)) =
     [Some \<lparr>an_user_ids = [alice], an_id = i, an_timestamp = timestamp_of ref_ext 11,
        an_change = New bob False ''text'' [104]\<rparr>] \<and>
   (\<exists>new. fresh new [hello] \<and> n_id new = i \<and> stored ref_server (fst (snd save_greeting)) [hello, new])"
  using save_stores_and_announces [OF ref.mongo_server_axioms ref_identifiers_ok ref_prost_ok hello_stored
      save_greeting_Ok [unfolded save_greeting_def]]
  unfolding save_greeting_def Let_def by (fastforce simp: greeting_def)





text \<open>C10. A poll returns exactly the user's undelivered notifications, oldest first, and confirms
  those still valid when the confirmations are written.\<close>

theorem poll_returns_and_confirms:
  assumes "mongo_server m" and "dt_mono X" and "stored m w ns" and "nf \<le> nc"
    and "find_undelivered_notifications X (notifications_repository_impl X m) u nf nc (w, s) = (Ok outs, w', s')"
  shows "s' = s \<and> stored m w' (update_where (undelivered u (dt_from X nc)) (confirm u (dt_from X nc)) ns) \<and>
    (\<exists>ms. mset ms = mset (filter (undelivered u (dt_from X nf)) ns) \<and>
      sorted_wrt (\<lambda>a b. n_created_at a \<le> n_created_at b) ms \<and>
      outs = map (\<lambda>n. output_of_repo X (view X False n)) ms)"
  using notifications_repository.find_undelivered_Ok [OF mongo_server.repository_contract [OF assms(1)]
      assms(3,2,4,5)] .

definition poll_alice :: "offset_date_time \<Rightarrow> ref_world \<Rightarrow>
    (core_error, output_notification list) result \<times> ref_world \<times> unit" where
  "poll_alice t w = find_undelivered_notifications ref_ext (notifications_repository_impl ref_ext ref_server)
     alice t t (w, ())"

text \<open>The reference server reports no errors.\<close>

lemma poll_alice_Ok:
  assumes "stored ref_server w ns"
  shows "\<exists>outs. poll_alice t w = (Ok outs, fst (snd (poll_alice t w)), ())"
proof -
  let ?f = "Doc (undelivered_filter alice (dt_from ref_ext t))"
  let ?o = "\<lparr>projection = Doc undelivered_projection, sort_by = Some (''created_at'', 1), skip = 0, limit = 0\<rparr>"
  obtain ds where ds: "find_many ref_server NOTIFICATIONS ?f ?o w = (Ok ds, w)"
    by (simp add: r_find_many_def)
  have "read_document ref_ext (project ref_server (projection ?o) ?f (encode n)) = Ok (view ref_ext False n)" for n
    using mongo_updates.read_undelivered [OF ref_updates.mongo_updates_axioms, of ref_ext ?f n] by simp
  from mongo_server.find_many_stored [OF ref.mongo_server_axioms assms ds
      mongo_queries.matches_undelivered(2) [OF ref_queries.mongo_queries_axioms] this]
  obtain xs where "try_map (read_document ref_ext) ds = Ok xs" by blast
  with ds have "nr_find_many_undelivered (notifications_repository_impl ref_ext ref_server) alice t w = (Ok xs, w)"
    by (simp add: repo_find_many_undelivered_def)
  then show ?thesis
    by (simp add: poll_alice_def find_undelivered_notifications_def repo_insert_many_confirmations_def
        updated_if_def r_update_many_def Let_def)
qed

theorem poll_returns_and_confirms_witness:
  "\<exists>ms outs. fst (poll_alice 9 (store_world [hello] [])) = Ok outs \<and>
     mset ms = mset (filter (undelivered alice (dt_from ref_ext 9)) [hello]) \<and>
     outs = map (\<lambda>n. output_of_repo ref_ext (view ref_ext False n)) ms"
proof -
  obtain outs where "poll_alice 9 (store_world [hello] []) = (Ok outs, fst (snd (poll_alice 9 (store_world [hello] []))), ())"
    using poll_alice_Ok [OF hello_stored] by blast
  with poll_returns_and_confirms [OF ref.mongo_server_axioms ref_dt_mono hello_stored order_refl
      this [unfolded poll_alice_def]]
  show ?thesis by (metis fst_conv)
qed

text \<open>Polling delivers a notification at most once: with no operation in between, a second poll
  returns nothing.\<close>

theorem poll_twice_returns_nothing:
  assumes "mongo_server m" and "dt_mono X" and "stored m w ns" and "nf \<le> nc" "nc \<le> nf'" "nf' \<le> nc'"
    and "find_undelivered_notifications X (notifications_repository_impl X m) u nf nc (w, s) = (Ok outs, w', s')"
    and "find_undelivered_notifications X (notifications_repository_impl X m) u nf' nc' (w', s') = (Ok outs', w'', s'')"
  shows "outs' = []"
  using notifications_repository.find_undelivered_twice [OF mongo_server.repository_contract [OF assms(1)]
      assms(3,2,4-8)] .

theorem poll_twice_returns_nothing_witness:
  "fst (poll_alice 10 (fst (snd (poll_alice 9 (store_world [hello] []))))) = Ok []"
proof -
  let ?w = "store_world [hello] []" and ?w1 = "fst (snd (poll_alice 9 (store_world [hello] [])))"
  obtain outs where 1: "poll_alice 9 ?w = (Ok outs, ?w1, ())" using poll_alice_Ok [OF hello_stored] by blast
  have "\<exists>ns. stored ref_server ?w1 ns"
    using notifications_repository.find_undelivered_Ok [OF mongo_server.repository_contract [OF ref.mongo_server_axioms]
        hello_stored ref_dt_mono order_refl 1 [unfolded poll_alice_def]]
    by (auto simp: poll_alice_def)
  then obtain outs' w2 where 2: "poll_alice 10 ?w1 = (Ok outs', w2, ())" using poll_alice_Ok by metis
  have "outs' = []"
    by (rule poll_twice_returns_nothing [OF ref.mongo_server_axioms ref_dt_mono hello_stored order_refl _ order_refl
        1 [unfolded poll_alice_def] 2 [unfolded poll_alice_def]]) simp
  with 2 show ?thesis by simp
qed

text \<open>C13. A poll among other requests, of any instance: whatever runs between its two halves and after it,
  each notification it returns is confirmed for its user, and no later poll returns it again, unless
  it had expired between the halves.\<close>

theorem interleaved_poll:
  assumes "mongo_server m" and "stored m w ns" and "app_repository A = notifications_repository_impl X m"
    and "find_undelivered_begin (notifications_repository_impl X m) u nf w = (Ok xs, w1)"
    and "core_run A P J key algs (w1, s1) (w2, s2)"
    and "find_undelivered_end X (notifications_repository_impl X m) u nc xs w2 = (Ok outs, w3)"
    and "core_run A P J key algs (w3, s3) (w4, s4)"
    and "find_undelivered_begin (notifications_repository_impl X m) u nf' w4 = (Ok ys, w5)"
  shows "outs = map (output_of_repo X) xs \<and>
    (\<exists>ns3. stored m w3 ns3 \<and> store_evolves ns ns3 \<and>
      (\<forall>x \<in> set xs. \<exists>k \<in> set ns3. n_id k = rn_id x \<and>
        (\<not> valid_at (dt_from X nc) k \<or> confirmed u k \<and> rn_id x \<notin> rn_id ` set ys)))"
proof -
  note repo = mongo_server.repository_contract [OF assms(1), of X]
  note poll = notifications_repository.interleaved_poll_confirms [OF repo assms(2-6)]
  from poll(2) obtain ns3 where ns3: "stored m w3 ns3" "store_evolves ns ns3"
    and conf: "\<forall>x \<in> set xs. \<exists>k \<in> set ns3. n_id k = rn_id x \<and> (confirmed u k \<or> \<not> valid_at (dt_from X nc) k)"
    by blast
  have "n_id k \<notin> rn_id ` set ys" if "k \<in> set ns3" "confirmed u k" for k
    by (rule notifications_repository.later_poll_excludes [OF repo _ ns3(1) assms(3,7,8) that])
      (simp add: stored_def)
  with conf have "\<forall>x \<in> set xs. \<exists>k \<in> set ns3. n_id k = rn_id x \<and>
        (\<not> valid_at (dt_from X nc) k \<or> confirmed u k \<and> rn_id x \<notin> rn_id ` set ys)" by metis
  with poll(1) ns3 show ?thesis by blast
qed

lemma hello_undelivered: "undelivered alice t hello"
  by (simp add: undelivered_def recipient_def valid_at_def confirmed_def hello_def)

theorem interleaved_poll_witness:
  "\<exists>xs outs ys w1 w3 w5. find_undelivered_begin (app_repository ref_app) alice 9 (store_world [hello] []) = (Ok xs, w1) \<and>
     ObjectId 7 \<in> rn_id ` set xs \<and>
     find_undelivered_end ref_ext (app_repository ref_app) alice 9 xs w1 = (Ok outs, w3) \<and>
     find_undelivered_begin (app_repository ref_app) alice 10 w3 = (Ok ys, w5) \<and> ObjectId 7 \<notin> rn_id ` set ys"
proof -
  let ?r = "notifications_repository_impl ref_ext ref_server" and ?w = "store_world [hello] []"
  let ?w3 = "fst (snd (poll_alice 9 ?w))"
  have A: "app_repository ref_app = ?r" by (simp add: ref_app_def)
  obtain outs where p: "poll_alice 9 ?w = (Ok outs, ?w3, ())" using poll_alice_Ok [OF hello_stored] by blast
  then obtain xs w1 where b: "find_undelivered_begin ?r alice 9 ?w = (Ok xs, w1)"
    and e: "find_undelivered_end ref_ext ?r alice 9 xs w1 = (Ok outs, ?w3)"
    by (auto simp: poll_alice_def find_undelivered_halves split: prod.splits sum.splits)
  note repo = mongo_server.repository_contract [OF ref.mongo_server_axioms, of ref_ext]
  have st: "stored ref_server ?w3 [confirm alice (dt_from ref_ext 9) hello]"
    using notifications_repository.find_undelivered_Ok [OF repo hello_stored ref_dt_mono order_refl p [unfolded poll_alice_def]]
    by (simp add: poll_alice_def update_where_def hello_undelivered)
  obtain outs' w5 where "poll_alice 10 ?w3 = (Ok outs', w5, ())" using poll_alice_Ok [OF st] by metis
  then obtain ys w4 where b': "find_undelivered_begin ?r alice 10 ?w3 = (Ok ys, w4)"
    by (auto simp: poll_alice_def find_undelivered_halves split: prod.splits sum.splits)
  have "nr_find_many_undelivered ?r alice 9 ?w = (Ok xs, w1)"
    using b by (auto simp: find_undelivered_begin_def split: prod.splits)
  from notifications_repository.find_many_undelivered [OF repo hello_stored this]
  have xs: "xs = [view ref_ext False hello]" by (auto simp: hello_undelivered)
  from interleaved_poll [OF ref.mongo_server_axioms hello_stored A b core_run.start e core_run.start b'] obtain ns3 k
    where "stored ref_server ?w3 ns3" "k \<in> set ns3" "\<not> valid_at (dt_from ref_ext 9) k \<or> ObjectId 7 \<notin> rn_id ` set ys"
    by (auto simp: xs view_def hello_def)
  moreover from stored_unique [OF st this(1)] this(2) have "k = confirm alice (dt_from ref_ext 9) hello" by auto
  then have "valid_at (dt_from ref_ext 9) k" by (simp add: valid_at_def confirm_def hello_def)
  ultimately have "ObjectId 7 \<notin> rn_id ` set ys" by blast
  with b b' e A xs show ?thesis
    by (intro exI [of _ xs] exI [of _ outs] exI [of _ ys] exI [of _ w1] exI [of _ ?w3] exI [of _ w4]) (simp add: view_def, simp add: hello_def)
qed

text \<open>A deletion that succeeds marks the user's confirmation deleted and is announced to the
  user, once; one that fails announces nothing, and \<open>404\<close> means there was nothing to delete.\<close>

theorem delete_marks_and_announces:
  assumes "mongo_server m" and "identifiers_ok X" and "prost_ok P" and "stored m w ns"
  shows "case delete_notification (notifications_repository_impl X m) (notifications_producer_service_impl X P)
      i u now (w, s) of
      (Inr _, w', s') \<Rightarrow> list_ex (id_of i (confirmed_some u)) ns \<and>
        stored m w' (update_where (id_of i (confirmed_some u)) (mark_deleted u) ns) \<and>
        map (read_announcement X P) s' = map (read_announcement X P) s @
          [Some \<lparr>an_user_ids = [u], an_id = i, an_timestamp = timestamp_of X now, an_change = Deleted\<rparr>]
    | (Inl e, w', s') \<Rightarrow> s' = s \<and>
        (e = NotificationNotExist \<longrightarrow> \<not> list_ex (id_of i (confirmed_some u)) ns \<and> stored m w' ns)"
  using notifications_service.delete_notification_outcome [OF notifications_service_impl [OF assms(1-3)] assms(4)]
  by (auto split: prod.splits sum.splits)

definition bob_deletes :: "(core_error, unit) result \<times> ref_world \<times> message list" where
  "bob_deletes = delete_notification (notifications_repository_impl ref_ext ref_server)
     (notifications_producer_service_impl ref_ext ref_prost) (ObjectId 7) bob 20 (store_world [hello] [], [])"

lemma extract_one: "List.extract p [x] = (if p x then Some ([], x, []) else None)"
  by (simp add: extract_Cons_code extract_Nil_code)

lemma hello_bob_filter:
  "r_matches (Doc [(''_id'', Oid (ObjectId 7)),
     (''confirmations'', Doc [(''$elemMatch'', Doc [(''user_id'', UuidBin bob)])])]) (encode hello)"
  "r_matches (Doc [(''_id'', Oid (ObjectId 7)), (''confirmations'', Doc [(''$elemMatch'', Doc
     [(''user_id'', UuidBin bob), (''notification_deleted'', Bool False)])])]) (encode hello)"
  by (simp_all add: encode_def encode_fields_def hello_def encode_confirmation_def)

lemma hello_bob_changed:
  "r_apply (Doc [(''_id'', Oid (ObjectId 7)),
     (''confirmations'', Doc [(''$elemMatch'', Doc [(''user_id'', UuidBin bob)])])])
     (Doc [(''$set'', Doc [(''confirmations.$.notification_deleted'', Bool True)])]) (encode hello) \<noteq> encode hello"
proof -
  have "mark_deleted bob hello \<noteq> hello" by (simp add: mark_deleted_def hello_def)
  then show ?thesis
    using mongo_updates.apply_set_deleted [OF ref_updates.mongo_updates_axioms, of bob hello "ObjectId 7"]
    by (simp add: encode_inj confirmed_def hello_def)
qed

lemma bob_deletes_Ok: "fst bob_deletes = Ok ()"
  using hello_bob_filter(1) hello_bob_changed
  by (simp add: bob_deletes_def delete_notification_def repo_delete_def updated_if_def r_update_one_def
      store_world_def extract_one)

theorem delete_marks_and_announces_witness:
  "\<exists>w s. bob_deletes = (Ok (), w, s) \<and> stored ref_server w [mark_deleted bob hello] \<and>
     map (read_announcement ref_ext ref_prost) s = [Some \<lparr>an_user_ids = [bob], an_id = ObjectId 7,
       an_timestamp = timestamp_of ref_ext 20, an_change = Deleted\<rparr>]"
proof -
  have "update_where (id_of (ObjectId 7) (confirmed_some bob)) (mark_deleted bob) [hello] = [mark_deleted bob hello]"
    by (simp add: update_where_def id_of_def confirmed_some_def delivered_conf_def conf_filter_def hello_def)
  then show ?thesis
    using delete_marks_and_announces [OF ref.mongo_server_axioms ref_identifiers_ok ref_prost_ok hello_stored,
        where i = "ObjectId 7" and u = bob and now = 20 and s = "[]"] bob_deletes_Ok
    by (cases bob_deletes) (auto simp: bob_deletes_def)
qed

text \<open>The same for the seen flag: it is stored and announced together, or neither.\<close>

theorem seen_marks_and_announces:
  assumes "mongo_server m" and "identifiers_ok X" and "prost_ok P" and "stored m w ns"
  shows "case update_notification_seen (notifications_repository_impl X m) (notifications_producer_service_impl X P)
      i u b now (w, s) of
      (Inr _, w', s') \<Rightarrow> list_ex (id_of i (confirmed_some u)) ns \<and>
        stored m w' (update_where (id_of i (confirmed_some u)) (mark_seen u (new_seen b)) ns) \<and>
        map (read_announcement X P) s' = map (read_announcement X P) s @
          [Some \<lparr>an_user_ids = [u], an_id = i, an_timestamp = timestamp_of X now,
             an_change = Updated (new_seen b)\<rparr>]
    | (Inl e, w', s') \<Rightarrow> s' = s \<and>
        (e = NotificationNotExist \<longrightarrow> \<not> list_ex (id_of i (confirmed_some u)) ns \<and> stored m w' ns)"
  using notifications_service.update_notification_seen_outcome
    [OF notifications_service_impl [OF assms(1-3)] assms(4)]
  by (auto split: prod.splits sum.splits)

definition bob_sees :: "(core_error, unit) result \<times> ref_world \<times> message list" where
  "bob_sees = update_notification_seen (notifications_repository_impl ref_ext ref_server)
     (notifications_producer_service_impl ref_ext ref_prost) (ObjectId 7) bob \<lparr>new_seen = True\<rparr> 20
     (store_world [hello] [], [])"

lemma bob_sees_Ok: "fst bob_sees = Ok ()"
  using hello_bob_filter(2)
  by (simp add: bob_sees_def update_notification_seen_def repo_update_confirmation_seen_def updated_if_def
      r_update_one_def store_world_def extract_one)

theorem seen_marks_and_announces_witness:
  "\<exists>w s. bob_sees = (Ok (), w, s) \<and> stored ref_server w [mark_seen bob True hello] \<and>
     map (read_announcement ref_ext ref_prost) s = [Some \<lparr>an_user_ids = [bob], an_id = ObjectId 7,
       an_timestamp = timestamp_of ref_ext 20, an_change = Updated True\<rparr>]"
proof -
  have "update_where (id_of (ObjectId 7) (confirmed_some bob)) (mark_seen bob True) [hello] = [mark_seen bob True hello]"
    by (simp add: update_where_def id_of_def confirmed_some_def delivered_conf_def conf_filter_def hello_def)
  then show ?thesis
    using seen_marks_and_announces [OF ref.mongo_server_axioms ref_identifiers_ok ref_prost_ok hello_stored,
        where i = "ObjectId 7" and u = bob and now = 20 and s = "[]" and b = "\<lparr>new_seen = True\<rparr>"] bob_sees_Ok
    by (cases bob_sees) (auto simp: bob_sees_def)
qed

text \<open>C40. A page of the delivered notifications: those of the user with the seen flag asked for, newest
  first, from the product of the page's index and size on, where the product is taken modulo
  \<open>2^32\<close>; a page size of 0 means all of them. Nothing changes.\<close>

theorem delivered_page_is_returned:
  assumes "mongo_server m" and "stored m w ns"
    and "find_delivered_notifications X (notifications_repository_impl X m) u pg fs (w, s) = (Ok outs, w', s')"
  shows "s' = s \<and> stored m w' ns \<and>
    (\<exists>ms. mset ms = mset (filter (\<lambda>n. delivered_conf u (filter_seen fs) n \<noteq> None) ns) \<and>
      sorted_wrt (\<lambda>a b. n_created_at b \<le> n_created_at a) ms \<and>
      outs = map (\<lambda>n. output_of_repo X (delivered_view X u (filter_seen fs) n))
        (let rest = drop ((unat (page_size pg) * unat (page_idx pg)) mod 2 ^ 32) ms
         in if page_size pg = 0 then rest else take (unat (page_size pg)) rest))"
  using notifications_repository.find_delivered_notifications_Ok
    [OF mongo_server.repository_contract [OF assms(1)] assms(2,3)]
  by (simp add: page_of_def page_skip_mod)

text \<open>The page with index and size 65536 is the first one.\<close>

definition bobs_page :: "(core_error, output_notification list) result \<times> ref_world \<times> unit" where
  "bobs_page = find_delivered_notifications ref_ext (notifications_repository_impl ref_ext ref_server) bob
     \<lparr>page_idx = 65536, page_size = 65536\<rparr> \<lparr>filter_seen = Some False\<rparr> (store_world [hello] [], ())"

lemma bobs_page_Ok: "\<exists>outs. bobs_page = (Ok outs, fst (snd bobs_page), ())"
proof -
  let ?pg = "\<lparr>page_idx = 65536, page_size = 65536\<rparr>" and ?fs = "\<lparr>filter_seen = Some False\<rparr>"
  obtain ds where "find_many ref_server NOTIFICATIONS (delivered_query bob ?fs) (delivered_options ?pg)
      (store_world [hello] []) = (Ok ds, store_world [hello] [])"
    by (simp add: r_find_many_def)
  from mongo_server.found_many_delivered [OF ref.mongo_server_axioms hello_stored this, of ref_ext]
  obtain xs where "repo_find_many_delivered ref_ext ref_server bob ?pg ?fs (store_world [hello] []) =
      (Ok xs, store_world [hello] [])" by blast
  then show ?thesis by (simp add: bobs_page_def find_delivered_notifications_def)
qed

theorem delivered_page_is_returned_witness:
  "fst bobs_page = Ok [output_of_repo ref_ext (delivered_view ref_ext bob (Some False) hello)]"
proof -
  obtain outs where run: "bobs_page = (Ok outs, fst (snd bobs_page), ())" using bobs_page_Ok by blast
  have "delivered_conf bob (Some False) hello \<noteq> None"
    by (simp add: delivered_conf_def conf_filter_def hello_def)
  with delivered_page_is_returned [OF ref.mongo_server_axioms hello_stored run [unfolded bobs_page_def]]
  have "outs = [output_of_repo ref_ext (delivered_view ref_ext bob (Some False) hello)]"
    by (auto simp: Let_def)
  with run show ?thesis by (metis fst_conv)
qed



section \<open>The confirmations consumer\<close>

definition received_confirmation :: "ext \<Rightarrow> prost \<Rightarrow> bytes \<Rightarrow> confirmation_dto option" where
  "received_confirmation X P cont = (case decode_rabbitmq_confirmation P cont of
     None \<Rightarrow> None
   | Some message \<Rightarrow> (case confirmation_try_from X message of Inl _ \<Rightarrow> None | Inr c \<Rightarrow> Some c))"

lemma confirmation_callback_outcome:
  assumes "mongo_server m" and st: "stored m w ns"
    and run: "confirmation_callback X P (notifications_repository_impl X m) now cont w = (res, w')"
  shows "case received_confirmation X P cont of
      None \<Rightarrow> res = Err \<lparr>requeue = False\<rparr> \<and> w' = w
    | Some c \<Rightarrow>
        (let ns' = update_where (id_of (cd_id c) (undelivered (cd_user_id c) (dt_from X now)))
           (confirm (cd_user_id c) (dt_from X now)) ns
         in case res of Inr _ \<Rightarrow> stored m w' ns'
            | Inl e \<Rightarrow> e = \<lparr>requeue = True\<rparr> \<and> (stored m w' ns \<or> stored m w' ns'))"
proof (cases "received_confirmation X P cont")
  case None
  with run show ?thesis
    by (auto simp: received_confirmation_def confirmation_callback_def split: option.splits sum.splits)
next
  case (Some c)
  let ?p = "id_of (cd_id c) (undelivered (cd_user_id c) (dt_from X now))"
  let ?f = "confirm (cd_user_id c) (dt_from X now)"
  obtain rr w1 where rr: "repo_insert_confirmation X m (cd_id c) (cd_user_id c) now w = (rr, w1)" by fastforce
  have out: "update_outcome (stored m) ?p ?f ns rr w1"
    by (rule mongo_server.impl_insert_confirmation [OF assms(1) st rr])
  have idle: "\<not> list_ex ?p ns \<Longrightarrow> update_where ?p ?f ns = ns"
    by (rule update_where_idle) (auto simp: list_ex_iff)
  show ?thesis
    using run Some rr out idle
    by (auto simp: received_confirmation_def confirmation_callback_def update_outcome_def Let_def
        split: option.splits sum.splits repo_error.splits)
qed

text \<open>C22. A confirmation that is malformed is refused for good and changes nothing; a well-formed one
  that is acknowledged has confirmed the notification if it was still undelivered; one that meets a
  database error is requeued.\<close>

theorem confirmation_confirms:
  assumes "mongo_server m" and "stored m w ns"
  shows "case confirmation_callback X P (notifications_repository_impl X m) now cont w of (res, w') \<Rightarrow>
    (case received_confirmation X P cont of
      None \<Rightarrow> res = Err \<lparr>requeue = False\<rparr> \<and> w' = w
    | Some c \<Rightarrow>
        (let ns' = update_where (id_of (cd_id c) (undelivered (cd_user_id c) (dt_from X now)))
           (confirm (cd_user_id c) (dt_from X now)) ns
         in case res of Inr _ \<Rightarrow> stored m w' ns'
            | Inl e \<Rightarrow> e = \<lparr>requeue = True\<rparr> \<and> (stored m w' ns \<or> stored m w' ns')))"
  using confirmation_callback_outcome [OF assms] by (auto split: prod.splits)

definition alice_confirms :: bytes where
  "alice_confirms = encode_rabbitmq_confirmation ref_prost
     \<lparr>rcp_user_id = uuid_to_string ref_ext alice, rcp_id = oid_to_hex ref_ext (ObjectId 7)\<rparr>"

lemma alice_confirms_received:
  "received_confirmation ref_ext ref_prost alice_confirms = Some \<lparr>cd_user_id = alice, cd_id = ObjectId 7\<rparr>"
  by (simp add: received_confirmation_def alice_confirms_def prost_okD(2) [OF ref_prost_ok]
      confirmation_try_from_def identifiers_okD [OF ref_identifiers_ok])

definition consume_alice :: "offset_date_time \<Rightarrow> ref_world \<Rightarrow> (consume_error, unit) result \<times> ref_world" where
  "consume_alice t w =
     confirmation_callback ref_ext ref_prost (notifications_repository_impl ref_ext ref_server) t alice_confirms w"

lemma consume_alice_Ok: "consume_alice t w = (Ok (), snd (consume_alice t w))"
proof -
  from alice_confirms_received obtain message where
    "decode_rabbitmq_confirmation ref_prost alice_confirms = Some message"
    "confirmation_try_from ref_ext message = Ok \<lparr>cd_user_id = alice, cd_id = ObjectId 7\<rparr>"
    by (auto simp: received_confirmation_def split: option.splits sum.splits)
  then show ?thesis
    by (auto simp: consume_alice_def confirmation_callback_def repo_insert_confirmation_def updated_if_def
        r_update_one_def split: option.splits)
qed

lemma hello_alice_confirmed:
  "update_where (id_of (ObjectId 7) (undelivered alice t)) (confirm alice t') [hello] = [confirm alice t' hello]"
  by (simp add: update_where_def id_of_def undelivered_def recipient_def valid_at_def confirmed_def hello_def)

theorem confirmation_confirms_witness:
  "fst (consume_alice 9000000 (store_world [hello] [])) = Ok () \<and>
   stored ref_server (snd (consume_alice 9000000 (store_world [hello] []))) [confirm alice 9 hello]"
proof -
  have "dt_from ref_ext 9000000 = 9" by (simp add: ref_ext_def)
  then show ?thesis
    using confirmation_confirms [OF ref.mongo_server_axioms hello_stored, where X = ref_ext and P = ref_prost
        and now = 9000000 and cont = alice_confirms]
      consume_alice_Ok [of 9000000 "store_world [hello] []"]
    by (cases "consume_alice 9000000 (store_world [hello] [])")
      (simp add: consume_alice_def alice_confirms_received hello_alice_confirmed)
qed

text \<open>RabbitMQ may deliver a confirmation twice: processing it again changes nothing.\<close>

theorem confirmation_idempotent:
  assumes "mongo_server m" and "dt_mono X" and "stored m w ns" and "now \<le> now'"
    and "confirmation_callback X P (notifications_repository_impl X m) now cont w = (Ok (), w')"
    and "confirmation_callback X P (notifications_repository_impl X m) now' cont w' = (Ok (), w'')"
  shows "\<exists>ns'. stored m w' ns' \<and> stored m w'' ns'"
proof -
  from confirmation_callback_outcome [OF assms(1,3,5)] obtain c
    where c: "received_confirmation X P cont = Some c" by (auto split: option.splits)
  let ?p = "\<lambda>t. id_of (cd_id c) (undelivered (cd_user_id c) (dt_from X t))"
  let ?f = "\<lambda>t. confirm (cd_user_id c) (dt_from X t)"
  have 1: "stored m w' (update_where (?p now) (?f now) ns)"
    using confirmation_callback_outcome [OF assms(1,3,5)] c by (simp add: Let_def)
  then have "stored m w'' (update_where (?p now') (?f now') (update_where (?p now) (?f now) ns))"
    using confirmation_callback_outcome [OF assms(1) 1 assms(6)] c by (simp add: Let_def)
  moreover have "update_where (?p now') (?f now') (update_where (?p now) (?f now) ns) =
      update_where (?p now) (?f now) ns"
  proof (rule update_where_idle)
    fix n
    assume "n \<in> set (update_where (?p now) (?f now) ns)"
    then obtain n0 where n: "n = (if ?p now n0 then ?f now n0 else n0)"
      unfolding update_where_def set_map by blast
    have later: "undelivered (cd_user_id c) (dt_from X now') n0 \<Longrightarrow> undelivered (cd_user_id c) (dt_from X now) n0"
      using undelivered_earlier dt_monoD [OF assms(2,4)] by blast
    have "\<not> ?p now' n" using later by (auto simp: n id_of_def undelivered_def)
    then show "?p now' n \<Longrightarrow> ?f now' n = n" by blast
  qed
  ultimately show ?thesis using 1 by auto
qed

theorem confirmation_idempotent_witness:
  "\<exists>ns. stored ref_server (snd (consume_alice 8000000 (store_world [hello] []))) ns \<and>
     stored ref_server (snd (consume_alice 9000000 (snd (consume_alice 8000000 (store_world [hello] []))))) ns"
  by (rule confirmation_idempotent [OF ref.mongo_server_axioms ref_dt_mono hello_stored _
        consume_alice_Ok [unfolded consume_alice_def] consume_alice_Ok [unfolded consume_alice_def],
        folded consume_alice_def]) simp

section \<open>The server\<close>

definition requires_producer :: "core_request \<Rightarrow> bool" where
  "requires_producer req = (case req of PostUndelivered _ \<Rightarrow> True | PutInvalidateAt _ _ \<Rightarrow> True | _ \<Rightarrow> False)"

text \<open>C24. Without a valid token a request is answered 401, and without the producer role a request to
  produce or to change an expiry is answered 403; neither touches the database or sends a message.\<close>

theorem access_is_checked:
  "case parse_authorization_header J key algs (authorization req) of
     Inl _ \<Rightarrow> core_serve A J key algs c req st = (\<lparr>response_status = UNAUTHORIZED, response_body = None\<rparr>, st)
   | Inr u \<Rightarrow> requires_producer (body req) \<longrightarrow> ProduceNotifications \<notin> set (roles u) \<longrightarrow>
       core_serve A J key algs c req st = (\<lparr>response_status = FORBIDDEN, response_body = None\<rparr>, st)"
proof (cases "parse_authorization_header J key algs (authorization req)")
  case (Inl e)
  then show ?thesis by (simp add: core_serve_def call_def)
next
  case (Inr u)
  have "ProduceNotifications \<notin> set (roles u) \<Longrightarrow> require_all_roles u [ProduceNotifications] =
      Err \<lparr>missing_role = ProduceNotifications\<rparr>" by (simp add: list_ex_iff)
  with Inr show ?thesis
    by (auto simp: core_serve_def call_def core_route_def requires_producer_def into_response_def
        error_response_def post_notifications_undelivered_def put_notifications_undelivered_invalidate_at_def
        split: core_request.splits)
qed

theorem access_is_checked_witness:
  "core_serve ref_app ref_jwt () [HS256] \<lparr>first_now = 9, second_now = 9\<rparr>
     \<lparr>authorization = bearer ''b'', extension = None, body = PostUndelivered greeting\<rparr> (store_world [] [], []) =
   (\<lparr>response_status = FORBIDDEN, response_body = None\<rparr>, (store_world [] [], []))"
  using access_is_checked [where J = ref_jwt and key = "()" and algs = "[HS256]" and A = ref_app and c = "\<lparr>first_now = 9, second_now = 9\<rparr>"
      and req = "\<lparr>authorization = bearer ''b'', extension = None, body = PostUndelivered greeting\<rparr>"
      and st = "(store_world [] [], [])"]
  by (simp add: bearer_tokens requires_producer_def)

text \<open>C9. Over any run of requests, halves of polls and confirmations in any order, errors included, the store stays well-formed
  and only evolves: no notification or confirmation is lost or rewritten, but for the expiry and
  the seen flag, and a deleted one stays deleted.\<close>

theorem runs_keep_the_store:
  assumes "mongo_server m" and "stored m w ns" and "app_repository A = notifications_repository_impl X m"
    and "core_run A P J key algs (w, s) st"
  shows "\<exists>ns'. stored m (fst st) ns' \<and> store_evolves ns ns'"
  using notifications_repository.core_run_after [OF mongo_server.repository_contract [OF assms(1)] assms(4,2,3)]
  unfolding kept_def .

theorem runs_keep_the_store_witness:
  "\<exists>ns. stored ref_server (fst (snd (core_serve ref_app ref_jwt () [HS256] \<lparr>first_now = 9, second_now = 9\<rparr>
       \<lparr>authorization = bearer ''b'', extension = None, body = DeleteDelivered (ObjectId 7)\<rparr>
       (store_world [hello] [], [])))) ns \<and> store_evolves [hello] ns"
proof (rule runs_keep_the_store [OF ref.mongo_server_axioms hello_stored])
  show "app_repository ref_app = notifications_repository_impl ref_ext ref_server" by (simp add: ref_app_def)
  show "core_run ref_app ref_prost ref_jwt () [HS256] (store_world [hello] [], [])
      (snd (core_serve ref_app ref_jwt () [HS256] \<lparr>first_now = 9, second_now = 9\<rparr>
       \<lparr>authorization = bearer ''b'', extension = None, body = DeleteDelivered (ObjectId 7)\<rparr>
       (store_world [hello] [], [])))"
    by (rule core_run.serve [OF core_run.start prod.collapse [symmetric]])
qed

section \<open>Interleaved requests\<close>

text \<open>C6. Let requests interleave at every wait for the database, and be dropped there when their clients
  disconnect. What is announced, or still to be, is about the store: a NEW message says the stored
  notification, a DELETED one is to a user who has deleted it; each new notification and each
  deletion is announced at most once, and exactly once if no request was dropped and no call failed.\<close>

theorem changes_are_announced_once:
  assumes "mongo_server m" and "identifiers_ok X" and "prost_ok P" and "stored m w ns"
    and "app_repository A = notifications_repository_impl X m"
    and "app_producer A = notifications_producer_service_impl X P"
    and "core_interleaving A P (w, s) st"
  shows "\<exists>ns' as. stored m (cs_world st) ns' \<and>
    map (read_announcement X P) (cs_announced st) = map (read_announcement X P) s @ map Some as \<and>
    (let cs = map change_of as @ to_announce (cs_unfinished st)
     in list_all (backed ns') cs \<and> distinct (stated cs) \<and> set (stated cs) \<subseteq> facts ns' - facts ns \<and>
       (facts ns' - facts ns = set (stated cs) \<or> cs_interrupted st))"
proof -
  from notifications_service.interleaving_explained [OF notifications_service_impl [OF assms(1-3)] _ assms(4-7)]
  obtain ns' as where "stored m (cs_world st) ns'"
    "map (read_announcement X P) (cs_announced st) = map (read_announcement X P) s @ map Some as"
    and ex: "explained ns ns' (map change_of as @ to_announce (cs_unfinished st)) (cs_interrupted st)"
    by (auto simp: stored_def)
  then show ?thesis using ex [unfolded explained_def] unfolding Let_def by (intro exI [of _ ns'] exI [of _ as]) blast
qed

definition bob_user :: user where
  "bob_user = \<lparr>user_id = bob, roles = []\<rparr>"

definition at_twenty :: clock where
  "at_twenty = \<lparr>first_now = 20, second_now = 20\<rparr>"

lemma bob_begins_deletion:
  "\<exists>w. request_begin ref_app bob_user (DeleteDelivered (ObjectId 7)) at_twenty (store_world [hello] []) =
     (Ok (ToAnnounceDeleted bob (ObjectId 7)), w)"
  using hello_bob_filter(1) hello_bob_changed
  by (simp add: bob_user_def ref_app_def delete_begin_def repo_delete_def updated_if_def r_update_one_def
      store_world_def extract_one)

theorem changes_are_announced_once_witness:
  "\<exists>(st :: (ref_world, message list) interleaved_state) ns'. core_interleaving ref_app ref_prost (store_world [hello] [], []) st \<and>
     map (read_announcement ref_ext ref_prost) (cs_announced st) = [Some \<lparr>an_user_ids = [bob], an_id = ObjectId 7,
       an_timestamp = timestamp_of ref_ext 30, an_change = Deleted\<rparr>] \<and>
     stored ref_server (cs_world st) ns' \<and> facts ns' - facts [hello] = {DeletedBy bob (ObjectId 7)}"
proof -
  let ?ws = "(store_world [hello] [], [] :: message list)"
  let ?ps = "notifications_producer_service_impl ref_ext ref_prost"
  obtain w where w: "request_begin ref_app bob_user (DeleteDelivered (ObjectId 7)) at_twenty (store_world [hello] []) =
     (Ok (ToAnnounceDeleted bob (ObjectId 7)), w)" using bob_begins_deletion by blast
  let ?s = "ps_send_deleted ?ps bob (ObjectId 7) 30 []"
  let ?st = "\<lparr>cs_world = w, cs_announced = ?s, cs_unfinished = [], cs_interrupted = False\<rparr>"
  have run: "core_interleaving ref_app ref_prost ?ws ?st"
    using core_interleaving.finish [OF core_interleaving.request [OF core_interleaving.start [of ref_app ref_prost ?ws],
        simplified, OF w], where xs = "[]" and ys = "[]" and now = 30]
    by (simp add: ref_app_def)
  have log: "map (read_announcement ref_ext ref_prost) ?s = [Some \<lparr>an_user_ids = [bob], an_id = ObjectId 7,
       an_timestamp = timestamp_of ref_ext 30, an_change = Deleted\<rparr>]"
    using ref_announcements.announce_deleted [of bob "ObjectId 7" 30 "[]"] by simp
  have A: "app_repository ref_app = notifications_repository_impl ref_ext ref_server" "app_producer ref_app = ?ps"
    by (simp_all add: ref_app_def)
  have "\<exists>ns'. stored ref_server w ns' \<and> facts ns' - facts [hello] = {DeletedBy bob (ObjectId 7)}"
    using changes_are_announced_once [OF ref.mongo_server_axioms ref_identifiers_ok ref_prost_ok hello_stored A run]
    by (auto simp: log Let_def change_of_def facts_of_def simp del: facts_simps)
  with run log show ?thesis by (intro exI [of _ ?st]) (simp del: facts_simps)
qed

lemma mark_seen_read: "confirmed_some u n \<Longrightarrow> rn_seen (delivered_view X u None (mark_seen u b n)) = b"
proof -
  have "find (conf_filter u None) cs \<noteq> None \<Longrightarrow>
      map_option c_seen (find (conf_filter u None) (update_first (conf_filter u None) (\<lambda>c. c\<lparr>c_seen := b\<rparr>) cs)) = Some b" for cs
    by (induction cs) (auto simp: conf_filter_def)
  from this [of "n_confirmations n"] show "confirmed_some u n \<Longrightarrow> rn_seen (delivered_view X u None (mark_seen u b n)) = b"
    by (auto simp: confirmed_some_def delivered_conf_def mark_seen_def delivered_view_def view_def split: option.splits)
qed


end
