(* ===== verification/Client_Properties.thy ===== *)
theory Client_Properties
  imports Rabbit_Connection Rabbit_Producer Rabbit_Consumer Instances
begin

text \<open>
  The properties of the shared crates: the RabbitMQ client (\<open>shared/rabbitmq_client\<close>) and the
  authentication middleware (\<open>shared/jwt_auth\<close>), with their witnesses.
\<close>

section \<open>Retry\<close>

text \<open>C32. \<open>retry\<close> returns exactly when some attempt succeeds, and then the first success.\<close>

theorem retry_returns_first_success:
  "(retry f = Some x \<longleftrightarrow> (\<exists>n. f n = Ok x \<and> (\<forall>i < n. \<exists>e. f i = Err e))) \<and>
   (retry f \<noteq> None \<longleftrightarrow> (\<exists>n y. f n = Ok y))"
  by (intro conjI retry_Some_iff retry_terminates_iff)

theorem retry_returns_first_success_witness:
  "retry (\<lambda>n. if n < 3 then Err () else Ok n) = Some (3::nat) \<and> retry (\<lambda>n. Err () :: (unit, nat) result) = None"
  using retry_returns_first_success [of "\<lambda>n. if n < 3 then Err () else Ok n" 3]
    retry_returns_first_success [of "\<lambda>n. Err () :: (unit, nat) result" 0] by auto

section \<open>The connection\<close>



text \<open>C29. After a failure the machine is back in its working state in four steps whenever opening and
  registering each succeed at some attempt, and publishes the first connection that opened, unblocked.\<close>

theorem connection_is_restored:
  assumes "cm_state m = ConnectionOk" and "opens i = Ok c" and "registers j = Ok ()"
  shows "\<exists>m' d. connection_run m [ConnectionFailed, ConnectionClosed r, ConnectionOpens opens,
      CallbackBranch (Registrations registers)] m' \<and> cm_state m' = ConnectionOk \<and>
    retry opens = Some d \<and> cm_connection m' = d \<and> cm_connection_tx m' = Some d \<and> \<not> cm_blocked_tx m'"
  using assms by (rule connection_recovers)

theorem connection_is_restored_witness:
  "\<exists>m' d. connection_run
      \<lparr>cm_connection = 0 :: nat, cm_connection_tx = Some 0, cm_blocked_tx = True, cm_state = ConnectionOk\<rparr>
      [ConnectionFailed, ConnectionClosed (Err ()), ConnectionOpens (\<lambda>n. if n < 2 then Err () else Ok n),
       CallbackBranch (Registrations (\<lambda>n. Ok ()))] m' \<and> cm_state m' = ConnectionOk \<and>
    retry (\<lambda>n. if n < 2 then Err () else Ok n) = Some d \<and> cm_connection m' = d \<and>
    cm_connection_tx m' = Some d \<and> \<not> cm_blocked_tx m'"
  by (rule connection_is_restored [where i = 2 and j = 0 and c = 2]) simp_all

section \<open>The producer\<close>

text \<open>C7. A producer neither loses nor invents a message: in every run from a successful start, what was
  handed to \<open>send\<close> is what the server acknowledged plus what is queued or awaits its confirm.\<close>

theorem producer_conserves_messages:
  fixes p0 p :: "('c, 'q, 'r) producer_machine" and es :: "('e, 'c) producer_event list"
  assumes "unbounded_channel ch" and "unbounded_channel cch"
    and "producer_new conn opened registered declared selected e q r = Ok p0" and "ch_items ch q = []"
    and "producer_run ch cch p0 es S A p" and "length es < 2 ^ 64"
  shows "S = A + pending_messages ch p"
proof -
  note new = producer_new_wf [OF assms(3)]
  have "pending_messages ch p0 = {#}" using new assms(4) by (simp add: pending_messages_def)
  with producer_channels.producer_run_conserves [OF producer_channels.intro [OF assms(1,2)] assms(5) _ assms(6)] new
  show ?thesis by simp
qed

definition hi :: message where
  "hi = \<lparr>routing_key = ''NEW'', persistent = True, content = [1]\<rparr>"

definition fresh_producer :: "(nat, message list, publisher_confirm list) producer_machine" where
  "fresh_producer = \<lparr>pm_connection = Some 0, pm_unconfirmed = [], pm_messages = [], pm_confirms = [],
     pm_flow_tx = True, pm_loop = None, pm_state = ProducerOk\<rparr>"

text \<open>One message is sent, published as number 1, and confirmed.\<close>

lemma hi_run:
  "\<exists>es p. length es = 5 \<and> producer_run list_channel list_channel fresh_producer
     (es :: (string, nat) producer_event list) {#hi#} {#hi#} p \<and> pm_messages p = [] \<and> pm_unconfirmed p = []"
proof -
  let ?S = "Send hi :: (string, nat) producer_event"
  let ?E = "EnterOk False :: (string, nat) producer_event"
  let ?P = "InOk (MessageReceived (Ok ())) :: (string, nat) producer_event"
  let ?K = "Confirm Ack 1 False :: (string, nat) producer_event"
  let ?C = "InOk ConfirmReceived :: (string, nat) producer_event"
  let ?l0 = "\<lparr>l_flow = True, l_blocked = False, l_message_count = 0\<rparr>"
  let ?l1 = "\<lparr>l_flow = True, l_blocked = False, l_message_count = 1\<rparr>"
  let ?p1 = "fresh_producer\<lparr>pm_messages := [hi]\<rparr>"
  let ?p2 = "?p1\<lparr>pm_loop := Some ?l0\<rparr>"
  let ?p3 = "fresh_producer\<lparr>pm_unconfirmed := [(1, hi)], pm_loop := Some ?l1\<rparr>"
  let ?p4 = "?p3\<lparr>pm_confirms := [\<lparr>delivery_tag = 1, multiple = False, variant = Ack\<rparr>]\<rparr>"
  let ?p5 = "fresh_producer\<lparr>pm_loop := Some ?l1\<rparr>"
  note defs = producer_send_def list_channel_def fresh_producer_def ok_state_enter_def ok_state_iteration_def
    publish_def Let_def callback_confirm_def process_confirm_def confirm_single_def on_remove_def
  have 1: "producer_step list_channel list_channel fresh_producer ?S ?p1"
    using producer_step.send [of list_channel list_channel fresh_producer hi] by (simp add: defs)
  have 2: "producer_step list_channel list_channel ?p1 ?E ?p2"
    using producer_step.enter [of ?p1 list_channel list_channel False] by (simp add: defs)
  have 3: "producer_step list_channel list_channel ?p2 ?P ?p3"
    by (rule producer_step.iteration [where l = ?l0]) (simp_all add: defs)
  have 4: "producer_step list_channel list_channel ?p3 ?K ?p4"
    using producer_step.confirm [of list_channel list_channel ?p3 Ack 1 False] by (simp add: defs)
  have 5: "producer_step list_channel list_channel ?p4 ?C ?p5"
    by (rule producer_step.iteration [where l = ?l1]) (simp_all add: defs)
  note step = producer_run.step
  have run: "producer_run list_channel list_channel fresh_producer (((([?S] @ [?E]) @ [?P]) @ [?K]) @ [?C])
     {#hi#} {#hi#} ?p5"
    using step [OF step [OF step [OF step [OF step [OF producer_run.start 1] 2] 3] 4] 5]
    by (simp add: sent_in_def acked_in_def acked_def selects_def list_channel_def)
  show ?thesis
    by (intro exI [of _ "(((([?S] @ [?E]) @ [?P]) @ [?K]) @ [?C])"] exI [of _ ?p5] conjI run)
      (simp_all add: fresh_producer_def)
qed

theorem producer_conserves_messages_witness:
  "\<exists>(es :: (string, nat) producer_event list) p.
     producer_run list_channel list_channel fresh_producer es {#hi#} {#hi#} p \<and> pending_messages list_channel p = {#}"
proof -
  from hi_run obtain es :: "(string, nat) producer_event list" and p where len: "length es = 5"
    and run: "producer_run list_channel list_channel fresh_producer es {#hi#} {#hi#} p" by blast
  have new: "producer_new (Some 0) (Ok ()) (Ok ()) (Ok ()) (Ok ()) () [] [] = Ok fresh_producer"
    by (simp add: producer_new_def fresh_producer_def)
  have "{#hi#} = {#hi#} + pending_messages list_channel p"
    by (rule producer_conserves_messages [OF list_channel.unbounded_channel_axioms
          list_channel.unbounded_channel_axioms new _ run])
      (simp_all add: list_channel_def len)
  then have "pending_messages list_channel p = {#}" by simp
  with run show ?thesis by blast
qed

text \<open>C16. On the producer's queue, sorted by delivery tag, the loops of \<open>process_confirm\<close> remove exactly
  the entries the confirm is about and queue exactly those not acknowledged for resending, in order.\<close>

theorem confirm_is_filter:
  assumes "unbounded_channel ch" and "sorted_wrt (<) (map fst us)" and "process_confirm ch c us q = (us', q')"
  shows "us' = filter (\<lambda>e. \<not> selects c e) us \<and>
    ch_items ch q' = ch_items ch q @ (case variant c of Ack \<Rightarrow> [] | Nack \<Rightarrow> map snd (filter (selects c) us))"
  using producer_channels.process_confirm_spec
    [OF producer_channels.intro [OF assms(1) list_channel.unbounded_channel_axioms] assms(2,3)]
  by (simp add: resent_def)

theorem confirm_is_filter_witness:
  "process_confirm list_channel \<lparr>delivery_tag = 2, multiple = True, variant = Nack\<rparr>
     [(1, hi), (2, hi\<lparr>content := []\<rparr>), (3, hi)] [] = ([(3, hi)], [hi, hi\<lparr>content := []\<rparr>])"
proof -
  let ?c = "\<lparr>delivery_tag = 2, multiple = True, variant = Nack\<rparr>"
  obtain us q where run: "process_confirm list_channel ?c [(1, hi), (2, hi\<lparr>content := []\<rparr>), (3, hi)] [] = (us, q)"
    by fastforce
  have "us = [(3, hi)]" and "q = [hi, hi\<lparr>content := []\<rparr>]"
    using confirm_is_filter [OF list_channel.unbounded_channel_axioms _ run]
    by (simp_all add: selects_def list_channel_def)
  with run show ?thesis by simp
qed

text \<open>The \<open>unwrap\<close> of the connection in the producer's recovery never panics, in any run from a
  successful start.\<close>

theorem producer_never_panics:
  fixes p0 p :: "('c, 'q, 'r) producer_machine" and es :: "('e, 'c) producer_event list"
  assumes "unbounded_channel ch" and "unbounded_channel cch"
    and "producer_new conn opened registered declared selected e q r = Ok p0"
    and "producer_run ch cch p0 es S A p" and "length es < 2 ^ 64"
  shows "recreating_channel_state b p \<noteq> Some (Err Panic)"
proof -
  have "producer_wf (length es) p"
    using producer_channels.producer_run_conserves [OF producer_channels.intro [OF assms(1,2)] assms(4) _ assms(5)]
      producer_new_wf [OF assms(3)] by blast
  then show ?thesis
    by (rule producer_channels.recreating_never_panics [OF producer_channels.intro [OF assms(1,2)]])
qed

theorem producer_never_panics_witness:
  "recreating_channel_state (Recreate (\<lambda>_. Err ()) (\<lambda>_. Ok ())) fresh_producer \<noteq> Some (Err Panic)"
proof -
  have new: "producer_new (Some 0) (Ok ()) (Ok ()) (Ok ()) (Ok ()) () [] [] = Ok fresh_producer"
    by (simp add: producer_new_def fresh_producer_def)
  show ?thesis
    by (rule producer_never_panics [OF list_channel.unbounded_channel_axioms list_channel.unbounded_channel_axioms
        new producer_run.start [where ?'e = unit]]) simp
qed

text \<open>C17. After a lost connection the producer works again whenever opening and registering each succeed
  at some attempt; then nothing is unconfirmed, and all that was not acknowledged is queued again.\<close>

theorem producer_is_restored:
  assumes "unbounded_channel ch" and "unbounded_channel cch"
    and "producer_wf n p" and "pm_state p = ProcessingPendingConfirmations"
    and "opens i = Ok ()" and "registers j = Ok ()"
  shows "\<exists>p1 p2. processing_pending_confirmations_state ch cch p = Some p1 \<and>
    recreating_channel_state (Recreate opens registers) p1 = Some (Ok p2) \<and>
    (let p3 = restoring_producer_state (Restore (Ok ()) (Ok ())) p2
     in pm_state p3 = ProducerOk \<and> pm_unconfirmed p3 = [] \<and> pm_flow_tx p3 \<and>
        pending_messages ch p = mset (ch_items ch (pm_messages p3)) +
          mset (all_acked (ch_items cch (pm_confirms p)) (pm_unconfirmed p)))"
  by (rule producer_channels.producer_recovers [OF producer_channels.intro [OF assms(1,2)] assms(3,4),
      where opens = opens and i = i and registers = registers and j = j]) (fact assms)+

theorem producer_is_restored_witness:
  "\<exists>p1 p2. processing_pending_confirmations_state list_channel list_channel
      (fresh_producer\<lparr>pm_unconfirmed := [(1, hi)], pm_state := ProcessingPendingConfirmations\<rparr>) = Some p1 \<and>
    recreating_channel_state (Recreate (\<lambda>_. Ok ()) (\<lambda>_. Ok () :: (unit, unit) result)) p1 = Some (Ok p2) \<and>
    mset (ch_items list_channel (pm_messages (restoring_producer_state
      (Restore (Ok () :: (unit, unit) result) (Ok ())) p2))) = {#hi#}"
proof -
  have wf: "producer_wf 1 (fresh_producer\<lparr>pm_unconfirmed := [(1, hi)], pm_state := ProcessingPendingConfirmations\<rparr>)"
    by (simp add: producer_wf_def fresh_producer_def)
  show ?thesis
    using producer_is_restored [OF list_channel.unbounded_channel_axioms list_channel.unbounded_channel_axioms wf,
        of "\<lambda>_. Ok () :: (unit, unit) result" 0 "\<lambda>_. Ok ()" 0]
    by (auto simp: Let_def pending_messages_def list_channel_def fresh_producer_def)
qed

section \<open>The consumer\<close>

text \<open>C18. In every run from a successful start the status callback is told \<open>Consuming\<close> first and then
  \<open>Recovering\<close> and \<open>Consuming\<close> in turns, the last one being \<open>Consuming\<close> exactly in the working state.\<close>

theorem consumer_statuses_are_true:
  assumes "consumer_new e c opened registered exchange queue binds cons = Ok k0" and "consumer_step\<^sup>*\<^sup>* k0 k"
  shows "alternating (km_statuses k) \<and>
    (if km_statuses k = [] then \<not> km_in_ok k
     else hd (km_statuses k) = Consuming \<and> (last (km_statuses k) = Consuming \<longleftrightarrow> km_in_ok k))"
  using consumer_run_wf [OF assms(2) consumer_new_wf [OF assms(1)]] by (auto simp: consumer_wf_def)

definition fresh_consumer :: "nat consumer_machine" where
  "fresh_consumer = \<lparr>km_connection = Some 0, km_in_ok = False, km_statuses = [], km_state = ConsumerOk\<rparr>"

lemma fresh_consumer_new:
  "consumer_new () (Some 0) (Ok ()) (Ok ()) (Ok ()) (Ok ()) [Ok ()] (Ok ()) = Ok fresh_consumer"
  by (simp add: consumer_new_def fresh_consumer_def)

lemma fresh_consumer_enters: "consumer_step\<^sup>*\<^sup>* fresh_consumer (consumer_ok_enter fresh_consumer)"
  by (rule r_into_rtranclp, rule consumer_step.enter) (simp_all add: fresh_consumer_def)

theorem consumer_statuses_are_true_witness:
  "alternating (km_statuses (consumer_ok_enter fresh_consumer)) \<and>
   last (km_statuses (consumer_ok_enter fresh_consumer)) = Consuming"
  using consumer_statuses_are_true [OF fresh_consumer_new fresh_consumer_enters]
  by (simp add: consumer_ok_enter_def fresh_consumer_def)



text \<open>C19. While the consumer lives every delivery is in processing, has its response queued, or was
  answered, and when nothing is left to do each was answered once; even when the consumer is
  dropped no delivery is answered twice.\<close>

theorem deliveries_are_answered_once:
  assumes "unbounded_channel ch" and "delivery_run ch callback d0 ts d"
    and "d_tasks d0 = []" and "ch_items ch (d_responses d0) = []" and "d_sent d0 = []"
  shows "mset (map response_tag (d_sent d)) \<subseteq># mset ts \<and>
    (d_alive d \<longrightarrow> delivery_tags ch d = mset ts \<and>
      (d_tasks d = [] \<longrightarrow> ch_items ch (d_responses d) = [] \<longrightarrow> mset (map response_tag (d_sent d)) = mset ts))"
proof -
  have 0: "delivery_tags ch d0 = {#}" using assms(3-5) by (simp add: delivery_tags_def)
  have "mset (map response_tag (d_sent d)) \<subseteq># delivery_tags ch d" by (simp add: delivery_tags_def)
  also have "\<dots> \<subseteq># mset ts" using delivery_run_conserves [OF assms(1,2)] 0 by simp
  finally have sent: "mset (map response_tag (d_sent d)) \<subseteq># mset ts" .
  have all: "d_alive d \<Longrightarrow> delivery_tags ch d = mset ts"
    using delivery_run_conserves [OF assms(1,2)] 0 by simp
  show ?thesis
  proof (intro conjI impI sent all)
    assume "d_alive d" "d_tasks d = []" "ch_items ch (d_responses d) = []"
    with all show "mset (map response_tag (d_sent d)) = mset ts" by (simp add: delivery_tags_def)
  qed
qed

theorem deliveries_are_answered_once_witness:
  "delivery_tags list_channel (consume 2 [] (consume 1 [] \<lparr>d_tasks = [], d_responses = [], d_alive = True,
     d_sent = [], d_world = ()\<rparr>)) = {#1, 2#}"
proof -
  let ?d = "\<lparr>d_tasks = [], d_responses = [], d_alive = True, d_sent = [], d_world = ()\<rparr>"
  have "delivery_run list_channel (\<lambda>_ s. (Ok (), s)) ?d (([] @ [1]) @ [2]) (consume 2 [] (consume 1 [] ?d))"
    by (intro delivery_run.consume delivery_run.start)
  from deliveries_are_answered_once [OF list_channel.unbounded_channel_axioms this]
  show ?thesis by (simp add: list_channel_def consume_def)
qed

section \<open>Authentication\<close>


end
