(* ===== verification/Client_Run.thy ===== *)
theory Client_Run
  imports Websockets_Service
begin

text \<open>
  A WebSocket connection together with the service: the connection takes the messages of its
  receiver in the order they were sent (\<open>broadcast::Receiver::recv\<close>), while all operations of the
  service and all other connections go on in between. What the connection has received is then
  what the service sent it, up to the point it has reached.
\<close>

section \<open>Runs of a connection and the service\<close>

definition live_receiver :: "(websocket_message, 'b) broadcast \<Rightarrow> nat \<Rightarrow> 'b ws_service \<Rightarrow> bool" where
  "live_receiver bc r s \<longleftrightarrow> (\<exists>tx. r \<in> bc_receivers bc tx (ws_channels s))"

text \<open>The service's steps while a receiver lives.\<close>

definition live_step :: "(websocket_message, 'b) broadcast \<Rightarrow> ext \<Rightarrow> prost \<Rightarrow> nat \<Rightarrow> 'b ws_system \<Rightarrow> 'b ws_system \<Rightarrow> bool" where
  "live_step bc X P r y y' \<longleftrightarrow> ws_system_step bc X P y y' \<and> live_receiver bc r (sys_service y')"

text \<open>
  \<open>recv\<close> yields the next message sent to the receiver, or an error; the receiver is dropped with the
  connection only. The channel is \<open>Closed\<close> when its sender is gone, which is kept in the registry,
  and every message has been taken.
\<close>

definition registered :: "(websocket_message, 'b) broadcast \<Rightarrow> nat \<Rightarrow> 'b ws_service \<Rightarrow> bool" where
  "registered bc r s \<longleftrightarrow> (\<exists>u. connected bc u r s)"

definition recv_ok :: "websocket_message list \<Rightarrow> nat \<Rightarrow> bool \<Rightarrow> ws_branch \<Rightarrow> bool" where
  "recv_ok sent n open_channel b \<longleftrightarrow>
     (case b of
        NewMessage (Ok m) \<Rightarrow> n < length sent \<and> m = sent ! n
      | NewMessage (Err Closed) \<Rightarrow> length sent \<le> n \<and> \<not> open_channel
      | _ \<Rightarrow> True)"

inductive client_run :: "(websocket_message, 'b) broadcast \<Rightarrow> ext \<Rightarrow> prost \<Rightarrow> websockets_service_config \<Rightarrow> nat \<Rightarrow>
    'b ws_system \<Rightarrow> websocket_connection \<Rightarrow> callback_world \<Rightarrow> instant \<Rightarrow>
    'b ws_system \<Rightarrow> instant \<Rightarrow> (ws_connection_error, unit) result \<Rightarrow> websocket_connection \<Rightarrow> callback_world \<Rightarrow>
    ws_log \<Rightarrow> bool"
  for bc X P cfg rx y0 c0 k0 t0 where
  start: "client_run bc X P cfg rx y0 c0 k0 t0 y0 t0 (Ok ()) c0 k0 empty_log"
| service: "client_run bc X P cfg rx y0 c0 k0 t0 y t (Ok ()) c k l \<Longrightarrow> ws_system_step bc X P y y' \<Longrightarrow>
    live_receiver bc rx (sys_service y') \<Longrightarrow> client_run bc X P cfg rx y0 c0 k0 t0 y' t (Ok ()) c k l"
| connection: "client_run bc X P cfg rx y0 c0 k0 t0 y t (Ok ()) c k l \<Longrightarrow> t \<le> t' \<Longrightarrow>
    recv_ok (history bc rx (sys_service y)) (length (log_received l)) (registered bc rx (sys_service y)) b \<Longrightarrow>
    try_run_iteration X P cfg t' sent b c k = Some (r, c', k', fs) \<Longrightarrow>
    client_run bc X P cfg rx y0 c0 k0 t0 y t' r c' k'
      \<lparr>log_frames = log_frames l @ fs, log_transmitted = log_transmitted l @ transmitted b c,
       log_received = log_received l @ received b, log_confirmed = log_confirmed l @ confirmed_message X P b c\<rparr>"
| others: "client_run bc X P cfg rx y0 c0 k0 t0 y t (Ok ()) c k l \<Longrightarrow>
    client_run bc X P cfg rx y0 c0 k0 t0 y t (Ok ()) c k' l"

text \<open>Seen from the connection it is a run of the connection alone.\<close>

lemma client_run_connection:
  "client_run bc X P cfg rx y0 c0 k0 t0 y t r c k l \<Longrightarrow> ws_run X P cfg c0 k0 t0 t r c k l"
  by (induction rule: client_run.induct) (auto intro: ws_run.intros)

section \<open>What a receiver was sent only grows\<close>

context ws_broadcast
begin

lemma handle_client_history:
  assumes "handle_client bc X P now mid user s = (rx, s')" and "ws_wf bc s" and "live_receiver bc r s"
  shows "\<exists>ms. history bc r s' = history bc r s @ ms"
proof (rule handle_client_cases [OF assms(1,2)])
  fix tx s1
  assume old: "\<And>r. r \<noteq> rx \<Longrightarrow> history bc r s1 = history bc r s"
    and new: "\<And>t. rx \<notin> bc_receivers bc t (ws_channels s)"
    and s': "s' = (if ws_network_ok s then s1
      else case create_message X P now mid NetworkError None s1 of (m, s2) \<Rightarrow> send_on bc m tx s2)"
  have "r \<noteq> rx" using assms(3) new by (auto simp: live_receiver_def)
  from old [OF this] show ?thesis
    using create_message_frame(2) [of X P now mid NetworkError None s1]
    by (auto simp: s' send_on_def send_history split: prod.splits)
qed

lemma ws_system_step_wf: "ws_system_step bc X P y y' \<Longrightarrow> ws_wf bc (sys_service y) \<Longrightarrow> ws_wf bc (sys_service y')"
  by (erule ws_system_step.cases) (auto intro: operations_wf)

lemma ws_system_step_history:
  assumes "ws_system_step bc X P y y'" and wf: "ws_wf bc (sys_service y)" and live: "live_receiver bc r (sys_service y)"
  shows "\<exists>ms. history bc r (sys_service y') = history bc r (sys_service y) @ ms"
  using assms(1)
proof (cases rule: ws_system_step.cases)
  case (client now mid user rx s')
  from handle_client_history [OF client(2) wf live] show ?thesis by (simp add: client(1))
next
  case (finished user rx)
  then show ?thesis by (auto simp: connection_finished_def Let_def drop_history split: option.splits)
next
  case (close user)
  then show ?thesis by (simp add: close_connections_def)
next
  case (send now mid us n)
  obtain m s1 where "create_message X P now mid NetworkOk (Some n) (sys_service y) = (m, s1)" by fastforce
  from ws_send_history [OF wf this] show ?thesis by (simp add: send)
next
  case (store st)
  then show ?thesis by (simp add: store_network_status_def)
next
  case (broadcast st now mid)
  obtain m s1 where "create_message X P now mid st None (sys_service y) = (m, s1)" by fastforce
  with create_message_frame(2) [OF this] show ?thesis
    by (simp add: broadcast broadcast_network_status_def send_broadcast_def fold_send_history)
qed

lemma client_run_received:
  assumes "client_run bc X P cfg rx y0 c0 k0 t0 y t r c k l"
    and "ws_wf bc (sys_service y0)" and "live_receiver bc rx (sys_service y0)"
  shows "ws_wf bc (sys_service y) \<and> live_receiver bc rx (sys_service y) \<and>
    length (log_received l) \<le> length (history bc rx (sys_service y)) \<and>
    log_received l = take (length (log_received l)) (history bc rx (sys_service y))"
  using assms
proof (induction rule: client_run.induct)
  case start
  then show ?case by (simp add: empty_log_def)
next
  case (service y t c k l y')
  then have wf: "ws_wf bc (sys_service y)" and live: "live_receiver bc rx (sys_service y)" by simp_all
  obtain ms where "history bc rx (sys_service y') = history bc rx (sys_service y) @ ms"
    using ws_system_step_history [OF service.hyps(2) wf live] by blast
  with service ws_system_step_wf [OF service.hyps(2) wf] show ?case by simp
next
  case (connection y t c k l t' b sent r c' k' fs)
  have "received b = [] \<or> length (log_received l) < length (history bc rx (sys_service y)) \<and>
      received b = [history bc rx (sys_service y) ! length (log_received l)]"
    using connection.hyps(3) by (auto simp: recv_ok_def received_def split: ws_branch.splits sum.splits)
  with connection show ?case by (auto simp: take_Suc_conv_app_nth)
next
  case (others y t c k l k')
  then show ?case by simp
qed

text \<open>
  A connection that is no longer registered stays so and is sent nothing more, whatever the service
  does while it lives.
\<close>

lemma handle_client_unregistered:
  assumes hc: "handle_client bc X P now mid user s = (rx, s')" and wf: "ws_wf bc s"
    and live: "live_receiver bc r s" and gone: "\<not> registered bc r s"
  shows "\<not> registered bc r s' \<and> history bc r s' = history bc r s"
proof (rule handle_client_cases [OF hc wf])
  fix tx s1
  assume tx: "map_of (ws_users s1) user = Some tx"
    and old: "\<And>r. r \<noteq> rx \<Longrightarrow> history bc r s1 = history bc r s"
    and new: "\<And>t. rx \<notin> bc_receivers bc t (ws_channels s)"
    and s': "s' = (if ws_network_ok s then s1
      else case create_message X P now mid NetworkError None s1 of (m, s2) \<Rightarrow> send_on bc m tx s2)"
  obtain m s2 where cm: "create_message X P now mid NetworkError None s1 = (m, s2)" by fastforce
  have r: "r \<noteq> rx" using live new by (auto simp: live_receiver_def)
  then have un: "\<not> registered bc r s'" using gone handle_client_connected [OF wf hc] by (auto simp: registered_def)
  have "connected bc user r s'" if "r \<in> bc_receivers bc tx (ws_channels s1)"
    using that tx create_message_frame [OF cm] by (simp add: s' cm connected_def send_on_def send_receivers)
  with un have "r \<notin> bc_receivers bc tx (ws_channels s1)" by (auto simp: registered_def)
  then have "history bc r s' = history bc r s1"
    using create_message_frame(2) [OF cm] by (simp add: s' cm send_on_def send_history)
  with un old [OF r] show ?thesis by simp
qed

lemma ws_system_step_unregistered:
  assumes "ws_system_step bc X P y y'" and wf: "ws_wf bc (sys_service y)"
    and live: "live_receiver bc r (sys_service y)" and gone: "\<not> registered bc r (sys_service y)"
  shows "\<not> registered bc r (sys_service y') \<and> history bc r (sys_service y') = history bc r (sys_service y)"
  using assms(1)
proof (cases rule: ws_system_step.cases)
  case (client now mid user rx s')
  from handle_client_unregistered [OF client(2) wf live gone] show ?thesis by (simp add: client(1))
next
  case (finished user rx)
  have "connected bc u r (sys_service y)" if "connected bc u r (sys_service y')" for u
    using that by (auto simp: finished connection_finished_def Let_def connected_def drop_receivers
        map_of_AList_delete split: option.splits if_splits)
  with gone show ?thesis
    by (auto simp: finished registered_def connection_finished_def Let_def drop_history split: option.splits)
next
  case (close user)
  with gone close_connections_disconnects show ?thesis
    by (auto simp: registered_def) (simp add: close_connections_def)
next
  case (send now mid us n)
  obtain m s1 where cm: "create_message X P now mid NetworkOk (Some n) (sys_service y) = (m, s1)" by fastforce
  have "connected bc u r (sys_service y') \<longleftrightarrow> connected bc u r (sys_service y)" for u
    using create_message_frame [OF cm]
    by (simp add: send ws_send_def cm send_broadcast_def send_multicast_def connected_def)
  with ws_send_history [OF wf cm] gone show ?thesis by (simp add: send registered_def)
next
  case (store st)
  with gone show ?thesis by (simp add: store_network_status_def registered_def connected_def)
next
  case (broadcast st now mid)
  obtain m s1 where cm: "create_message X P now mid st None (sys_service y) = (m, s1)" by fastforce
  have un: "connected bc u r s1 \<longleftrightarrow> connected bc u r (sys_service y)" for u
    using create_message_frame [OF cm] by (simp add: connected_def)
  have "connected bc u r (sys_service y') \<longleftrightarrow> connected bc u r (sys_service y)" for u
    using create_message_frame [OF cm]
    by (simp add: broadcast broadcast_network_status_def cm send_broadcast_def connected_def)
  moreover have "history bc r (send_broadcast bc m s1) = history bc r s1"
    using gone wf by (subst broadcast_history) (simp_all add: un registered_def wf_create_message [OF cm])
  ultimately show ?thesis
    using gone create_message_frame(2) [OF cm]
    by (simp add: broadcast registered_def broadcast_network_status_def cm)
qed

lemma live_steps_unregistered:
  assumes "(live_step bc X P r)\<^sup>*\<^sup>* y y'" and "ws_wf bc (sys_service y)" and "live_receiver bc r (sys_service y)"
    and "\<not> registered bc r (sys_service y)"
  shows "ws_wf bc (sys_service y') \<and> live_receiver bc r (sys_service y') \<and>
    \<not> registered bc r (sys_service y') \<and> history bc r (sys_service y') = history bc r (sys_service y)"
  using assms
proof (induction rule: rtranclp_induct)
  case (step y1 y2)
  then have IH: "ws_wf bc (sys_service y1)" "live_receiver bc r (sys_service y1)" "\<not> registered bc r (sys_service y1)"
    "history bc r (sys_service y1) = history bc r (sys_service y)" by simp_all
  from step.hyps(2) have st: "ws_system_step bc X P y1 y2" "live_receiver bc r (sys_service y2)"
    by (simp_all add: live_step_def)
  from ws_system_step_unregistered [OF st(1) IH(1-3)] ws_system_step_wf [OF st(1) IH(1)] st(2) IH(4)
  show ?case by simp
qed simp

lemma handle_client_live:
  assumes "handle_client bc X P now mid user s = (rx, s')" and "ws_wf bc s"
  shows "live_receiver bc rx s'"
  using handle_client_connected [OF assms(2,1), of user rx] by (auto simp: live_receiver_def connected_def)

end

end
