(* ===== verification/Ws_Consumer.thy ===== *)
theory Ws_Consumer
  imports Websockets_Service Deduplication Rabbit_Consumer Tickets Jwt_Auth
begin

text \<open>
  The consumer of \<open>tom-notifier-ws-delivery\<close> (\<open>notifications_consumer_service.rs\<close>): the callback
  for deliveries, which deduplicates a notification and sends it to the connections of its users,
  and the callback for status changes, which updates the network status. The generated message
  identifier and the clock of \<open>create_message\<close> are arguments.
\<close>

section \<open>The delivery callback\<close>

type_synonym 'b ws_state = "last_updates \<times> 'b ws_service"

text \<open>The message's checks, in order; every failure is an error without requeueing.\<close>

definition read_delivery :: "ext \<Rightarrow> prost \<Rightarrow> bytes \<Rightarrow>
    (consume_error, uuid list \<times> notification_protobuf \<times> notification_status_update) result" where
  "read_delivery X P cont =
     and_then (ok_or \<lparr>requeue = False\<rparr> (decode_notification P cont)) (\<lambda>message.
     and_then (ok_or \<lparr>requeue = False\<rparr> (rnp_notification message)) (\<lambda>notification.
     and_then (try_map (\<lambda>s. ok_or \<lparr>requeue = False\<rparr> (uuid_from_str X s)) (rnp_user_ids message)) (\<lambda>user_ids.
     and_then (map_err (\<lambda>_. \<lparr>requeue = False\<rparr>) (status_update_try_from X notification)) (\<lambda>update.
     Ok (user_ids, notification, update)))))"

definition delivery_callback :: "(websocket_message, 'b) broadcast \<Rightarrow> ext \<Rightarrow> prost \<Rightarrow> offset_date_time \<Rightarrow> uuid \<Rightarrow>
    bytes \<Rightarrow> 'b ws_state \<Rightarrow> (consume_error, unit) result \<times> 'b ws_state" where
  "delivery_callback bc X P now mid cont st =
    (case st of (m, s) \<Rightarrow>
      (case read_delivery X P cont of
         Err e \<Rightarrow> (Err e, m, s)
       | Ok (user_ids, notification, update) \<Rightarrow>
           (case deduplicate update m of
              (Ok _, m') \<Rightarrow> (Ok (), m', ws_send bc X P now mid user_ids notification s)
            | (Err Duplicate, m') \<Rightarrow> (Ok (), m', s)
            | (Err err, m') \<Rightarrow> (Err \<lparr>requeue = (case err of Ws_Database _ \<Rightarrow> True | _ \<Rightarrow> False)\<rparr>, m', s))))"

section \<open>The status callback\<close>

fun network_status_of :: "consumer_status \<Rightarrow> network_status" where
  "network_status_of Consuming = NetworkOk"
| "network_status_of Recovering = NetworkError"

text \<open>\<open>update_network_status\<close>, its two steps in sequence.\<close>

definition status_callback :: "(websocket_message, 'b) broadcast \<Rightarrow> ext \<Rightarrow> prost \<Rightarrow> offset_date_time \<Rightarrow> uuid \<Rightarrow>
    consumer_status \<Rightarrow> 'b ws_service \<Rightarrow> 'b ws_service" where
  "status_callback bc X P now mid st s =
     broadcast_network_status bc X P now mid (network_status_of st) (store_network_status (network_status_of st) s)"

section \<open>What a delivery does\<close>

text \<open>A malformed message is refused once and for all, and changes nothing.\<close>

lemma delivery_callback_error:
  assumes "delivery_callback bc X P now mid cont (m, s) = (Err e, st)"
  shows "e = \<lparr>requeue = False\<rparr> \<and> st = (m, s) \<and> read_delivery X P cont = Err e"
proof (cases "read_delivery X P cont")
  case (Inl e')
  have "try_map (\<lambda>s. ok_or \<lparr>requeue = False\<rparr> (uuid_from_str X s)) us = Err e' \<Longrightarrow> e' = \<lparr>requeue = False\<rparr>" for us
    by (induction us) (auto simp: and_then_def ok_or_def split: sum.splits option.splits)
  then have "e' = \<lparr>requeue = False\<rparr>"
    using Inl by (auto simp: read_delivery_def and_then_def ok_or_def map_err_def split: sum.splits option.splits)
  with Inl assms show ?thesis by (simp add: delivery_callback_def)
next
  case (Inr p)
  with assms show ?thesis
    by (cases p) (auto simp: delivery_callback_def deduplicate_def split: option.splits if_splits)
qed

text \<open>What a client reads from a message: the notification's change.\<close>

definition client_reads :: "ext \<Rightarrow> prost \<Rightarrow> websocket_message \<Rightarrow> (object_id \<times> timestamp \<times> change) option" where
  "client_reads X P wm =
    (case decode_websocket_notification P (payload wm) of
       Some w \<Rightarrow> (case wnp_notification w of
         Some n \<Rightarrow> (case (oid_from_str X (np_id n), np_timestamp n, read_change X (status P (np_status n)) n) of
             (Some i, Some t, Some c) \<Rightarrow> if wnp_network_status w = network_status_value NetworkOk
               then Some (i, t, c) else None
           | _ \<Rightarrow> None)
       | None \<Rightarrow> None)
     | None \<Rightarrow> None)"

definition announced_time :: "ext \<Rightarrow> announcement \<Rightarrow> offset_date_time \<Rightarrow> bool" where
  "announced_time X a t \<longleftrightarrow> (\<exists>t0. from_unix_timestamp X (seconds (an_timestamp a)) = Some t0 \<and>
     replace_nanosecond X t0 (nanos (an_timestamp a)) = Some t)"

text \<open>A message of the core is understood: its users, its notification and its time.\<close>

lemma read_announcement_delivery:
  assumes "read_announcement X P msg = Some a" and "announced_time X a t"
  shows "\<exists>n. read_delivery X P (content msg) = Ok (an_user_ids a, n, \<lparr>nsu_id = an_id a, nsu_timestamp = t\<rparr>) \<and>
    oid_from_str X (np_id n) = Some (an_id a) \<and> np_timestamp n = Some (an_timestamp a) \<and>
    read_change X (status P (np_status n)) n = Some (an_change a)"
proof -
  from assms(1) obtain r n i ts c where r: "decode_notification P (content msg) = Some r"
    and n: "rnp_notification r = Some n" and i: "oid_from_str X (np_id n) = Some i"
    and ts: "np_timestamp n = Some ts" and c: "read_change X (status P (np_status n)) n = Some c"
    and us: "list_all (\<lambda>s. uuid_from_str X s \<noteq> None) (rnp_user_ids r)"
    and a: "a = \<lparr>an_user_ids = map (\<lambda>s. the (uuid_from_str X s)) (rnp_user_ids r), an_id = i,
      an_timestamp = ts, an_change = c\<rparr>"
    by (auto simp: read_announcement_def split: option.splits if_splits)
  have "try_map (\<lambda>s. ok_or \<lparr>requeue = False\<rparr> (uuid_from_str X s)) (rnp_user_ids r) =
      Ok (map (\<lambda>s. the (uuid_from_str X s)) (rnp_user_ids r))"
    by (rule try_map_Ok) (use us in \<open>auto simp: list_all_iff\<close>)
  with assms(2) r n i ts c a show ?thesis
    by (auto simp: read_delivery_def status_update_try_from_def announced_time_def)
qed

context ws_broadcast
begin

text \<open>
  Delivery of an announcement. When it is news, every connection of a listed user (of every user
  when none is listed) is sent one message per listing, which reads as the announcement; when it
  is not, it is acknowledged and nobody is sent anything.
\<close>

lemma delivery_of_announcement:
  assumes P: "prost_ok P" and a: "read_announcement X P msg = Some a" and t: "announced_time X a t"
    and wf: "ws_wf bc s" and run: "delivery_callback bc X P now mid (content msg) (m, s) = (res, m', s')"
  shows "res = Ok ()"
    and "\<forall>t'. m (an_id a) = Some t' \<longrightarrow> t' < t \<Longrightarrow> m' = m(an_id a \<mapsto> t) \<and>
      (\<exists>wm. client_reads X P wm = Some (an_id a, an_timestamp a, an_change a) \<and>
        (\<forall>r. history bc r s' = history bc r s @
          replicate (if an_user_ids a = [] then (if \<exists>u. connected bc u r s then 1 else 0)
            else length (filter (\<lambda>u. connected bc u r s) (an_user_ids a))) wm))"
    and "m (an_id a) = Some t' \<Longrightarrow> t \<le> t' \<Longrightarrow> m' = m \<and> s' = s"
proof -
  from read_announcement_delivery [OF a t] obtain n
    where rd: "read_delivery X P (content msg) = Ok (an_user_ids a, n, \<lparr>nsu_id = an_id a, nsu_timestamp = t\<rparr>)"
      and n: "oid_from_str X (np_id n) = Some (an_id a)" "np_timestamp n = Some (an_timestamp a)"
        "read_change X (status P (np_status n)) n = Some (an_change a)" by blast
  show "res = Ok ()"
    using run rd by (auto simp: delivery_callback_def deduplicate_def split: option.splits if_splits)
  show "m (an_id a) = Some t' \<Longrightarrow> t \<le> t' \<Longrightarrow> m' = m \<and> s' = s"
    using run rd by (simp add: delivery_callback_def deduplicate_def)
  assume news: "\<forall>t'. m (an_id a) = Some t' \<longrightarrow> t' < t"
  then have d: "deduplicate \<lparr>nsu_id = an_id a, nsu_timestamp = t\<rparr> m = (Ok (), m(an_id a \<mapsto> t))"
    by (auto simp: deduplicate_def split: option.splits)
  have s': "s' = ws_send bc X P now mid (an_user_ids a) n s" and m': "m' = m(an_id a \<mapsto> t)"
    using run rd d by (simp_all add: delivery_callback_def)
  obtain wm s1 where cm: "create_message X P now mid NetworkOk (Some n) s = (wm, s1)" by fastforce
  have "client_reads X P wm = Some (an_id a, an_timestamp a, an_change a)"
    using cm n prost_okD(3) [OF P] by (auto simp: create_message_def Let_def client_reads_def split: if_splits)
  with ws_send_history [OF wf cm] m' show "m' = m(an_id a \<mapsto> t) \<and>
      (\<exists>wm. client_reads X P wm = Some (an_id a, an_timestamp a, an_change a) \<and>
        (\<forall>r. history bc r s' = history bc r s @
          replicate (if an_user_ids a = [] then (if \<exists>u. connected bc u r s then 1 else 0)
            else length (filter (\<lambda>u. connected bc u r s) (an_user_ids a))) wm))"
    unfolding s' by blast
qed

text \<open>
  Deduplication does not look at the user: of two announcements about one notification, each for
  another user, the earlier one is lost when the later one is processed first.
\<close>

lemma other_users_change_lost:
  assumes P: "prost_ok P" and wf: "ws_wf bc s"
    and a: "read_announcement X P msg = Some a" "announced_time X a t"
    and b: "read_announcement X P msg' = Some b" "announced_time X b t'"
    and ids: "an_id a = an_id b" and le: "t \<le> t'"
    and first: "delivery_callback bc X P now mid (content msg') (m, s) = (res', m', s')"
    and second: "delivery_callback bc X P now2 mid2 (content msg) (m', s') = (res, m'', s'')"
  shows "res = Ok () \<and> m'' = m' \<and> s'' = s'"
proof -
  have wf': "ws_wf bc s'"
    using first operations_wf(4) [OF wf] wf
    by (auto simp: delivery_callback_def deduplicate_def split: sum.splits option.splits if_splits)
  have "\<exists>t1 \<ge> t'. m' (an_id b) = Some t1"
  proof (cases "\<forall>t1. m (an_id b) = Some t1 \<longrightarrow> t1 < t'")
    case True
    then show ?thesis using delivery_of_announcement(2) [OF P b wf first] by auto
  next
    case False
    then obtain t1 where "m (an_id b) = Some t1" "t' \<le> t1" by auto
    then show ?thesis using delivery_of_announcement(3) [OF P b wf first] by auto
  qed
  then show ?thesis
    using delivery_of_announcement(1,3) [OF P a wf' second] ids le by (metis order_trans)
qed

lemma status_callback_told:
  assumes P: "prost_ok P" and wf: "ws_wf bc s"
    and con: "connected bc u r (status_callback bc X P now mid st s)"
  shows "last_status P (history bc r (status_callback bc X P now mid st s)) = network_status_of st"
    and "ws_network_ok (status_callback bc X P now mid st s) \<longleftrightarrow> st = Consuming"
proof -
  have wf1: "ws_wf bc (store_network_status (network_status_of st) s)" by (rule operations_wf(5) [OF wf])
  show "last_status P (history bc r (status_callback bc X P now mid st s)) = network_status_of st"
    using broadcast_status_told(1) [OF P wf1] con by (simp add: status_callback_def)
  show "ws_network_ok (status_callback bc X P now mid st s) \<longleftrightarrow> st = Consuming"
    using broadcast_status_told(2) [OF P wf1] con
    by (cases st) (simp_all add: status_callback_def store_network_status_def)
qed

end

end
