(* ===== verification/Ws_Properties.thy ===== *)
theory Ws_Properties
  imports Client_Run Ws_Consumer Ws_Server Instances
begin

text \<open>
  The properties of \<open>tom-notifier-ws-delivery\<close>, with their witnesses.
\<close>

section \<open>One connection\<close>

text \<open>C12. In every run of a connection each message is put on the wire at most once plus the configured
  number of retries for each time it came from the broadcast channel, every binary frame is such a
  transmission, and the retry queue stays sorted by time.\<close>

theorem retransmission_is_bounded:
  assumes "ws_run X P cfg (websocket_connection_new cfg user t0) k0 t0 t r c k l"
  shows "(r = Ok () \<longrightarrow> connection_wf cfg t c) \<and>
    binary_payloads (log_frames l) = map payload (log_transmitted l) \<and>
    count_list (log_transmitted l) m \<le> (1 + unat (retry_max_count cfg)) * count_list (log_received l) m"
  using ws_run_invariant [OF assms connection_new_wf, of m] by (simp add: websocket_connection_new_def)

definition demo_config :: websockets_service_config where
  "demo_config = \<lparr>ping_interval = 10, retry_max_count = 2, retry_interval = 3, connection_buffer_size = 4\<rparr>"

definition no_confirmations :: callback_world where
  "no_confirmations = \<lparr>was_called = \<lambda>_. False, confirmations = []\<rparr>"

definition demo_message :: websocket_message where
  "demo_message = \<lparr>message_id = Uuid 9, payload = [1, 2], delivered_callback = None\<rparr>"

lemma demo_run:
  "\<exists>c k (l :: ws_log). ws_run ref_ext ref_prost demo_config (websocket_connection_new demo_config alice 0) k0 0 5 (Ok ()) c k l \<and>
     log_transmitted l = [demo_message, demo_message] \<and> log_received l = [demo_message]"
proof -
  let ?c0 = "websocket_connection_new demo_config alice 0"
  let ?c1 = "?c0\<lparr>wc_unconfirmed := [\<lparr>retry_at = 4, retries_remaining = 2, um_message = demo_message\<rparr>]\<rparr>"
  let ?c2 = "?c0\<lparr>wc_unconfirmed := [\<lparr>retry_at = 8, retries_remaining = 1, um_message = demo_message\<rparr>]\<rparr>"
  have 1: "try_run_iteration ref_ext ref_prost demo_config 1 (Ok ()) (NewMessage (Ok demo_message)) ?c0 k0 =
      Some (Ok (), ?c1, k0, [Binary [1, 2]])"
    by (simp add: try_run_iteration_def process_message_def websocket_connection_new_def demo_config_def
        demo_message_def)
  have 2: "try_run_iteration ref_ext ref_prost demo_config 5 (Ok ()) RetryTime ?c1 k0 =
      Some (Ok (), ?c2, k0, [Binary [1, 2]])"
    by (simp add: try_run_iteration_def process_unconfirmed_message_def websocket_connection_new_def
        demo_config_def demo_message_def Let_def)
  have "ws_run ref_ext ref_prost demo_config ?c0 k0 0 5 (Ok ()) ?c2 k0
      \<lparr>log_frames = [Binary [1, 2], Binary [1, 2]], log_transmitted = [demo_message, demo_message],
        log_received = [demo_message], log_confirmed = []\<rparr>"
    using ws_run.step [OF ws_run.step [OF ws_run.start _ 1] _ 2]
    by (simp add: transmitted_def received_def confirmed_message_def empty_log_def)
  then show ?thesis by (intro exI conjI) (assumption, simp_all)
qed

theorem retransmission_is_bounded_witness:
  "\<exists>l :: ws_log. count_list (log_transmitted l) demo_message = 2 \<and>
     binary_payloads (log_frames l) = map payload [demo_message, demo_message] \<and>
     count_list (log_transmitted l) demo_message \<le>
       (1 + unat (retry_max_count demo_config)) * count_list (log_received l) demo_message"
proof -
  obtain c k l where run: "ws_run ref_ext ref_prost demo_config (websocket_connection_new demo_config alice 0)
      \<lparr>was_called = \<lambda>_. False, confirmations = []\<rparr> 0 5 (Ok ()) c k l"
    and l: "log_transmitted l = [demo_message, demo_message]" "log_received l = [demo_message]"
    using demo_run by blast
  from retransmission_is_bounded [OF run, of demo_message] l show ?thesis by (intro exI [of _ l]) (simp only: count_list.simps, simp)
qed




text \<open>C27. Whatever the service and the other connections do, as long as a connection lives the messages it
  has taken from its channel are those the service sent it first, in order; each was put on the
  wire, and each is confirmed by the client or queued to be sent again.\<close>

theorem client_gets_its_messages:
  assumes "broadcast_channels bc" and "ws_wf bc s" and "handle_client bc X P now mid user s = (rx, s')"
    and "client_run bc X P cfg rx \<lparr>sys_service = s', sys_pending = p\<rparr> (websocket_connection_new cfg user t0) k0 t0
      y t (Ok ()) c k l"
  shows "\<exists>n. n \<le> length (history bc rx (sys_service y)) \<and>
    log_received l = take n (history bc rx (sys_service y)) \<and>
    mset (log_received l) = mset (log_confirmed l) + mset (map um_message (wc_unconfirmed c)) \<and>
    set (log_received l) \<subseteq> set (log_transmitted l) \<and>
    binary_payloads (log_frames l) = map payload (log_transmitted l)"
proof -
  note ws = ws_broadcast.intro [OF assms(1)]
  have wf: "ws_wf bc s'" using ws_broadcast.operations_wf(1) [OF ws assms(2,3)] .
  have run: "ws_run X P cfg (websocket_connection_new cfg user t0) k0 t0 t (Ok ()) c k l"
    by (rule client_run_connection [OF assms(4)])
  have "wc_unconfirmed (websocket_connection_new cfg user t0) = []" by (simp add: websocket_connection_new_def)
  from ws_run_conserves [OF run this] ws_run_invariant [OF run connection_new_wf this]
    ws_broadcast.client_run_received [OF ws assms(4)] wf ws_broadcast.handle_client_live [OF ws assms(3,2)]
  show ?thesis by (intro exI [of _ "length (log_received l)"]) simp
qed

text \<open>\<open>alice\<close> connects during a failure and is told.\<close>

theorem client_gets_its_messages_witness:
  "\<exists>rx s' m (c :: websocket_connection) (l :: ws_log). handle_client ref_broadcast ref_ext ref_prost 1 (Uuid 8) alice
      (store_network_status NetworkError (websockets_service_new demo_config
        \<lparr>rb_next = 0, rb_senders = [], rb_receivers = [], rb_history = []\<rparr>)) = (rx, s') \<and>
    history ref_broadcast rx s' = [m] \<and> log_received l = [m] \<and>
    mset [m] = mset (log_confirmed l) + mset (map um_message (wc_unconfirmed c)) \<and>
    binary_payloads (log_frames l) = map payload (log_transmitted l)"
proof -
  let ?s = "store_network_status NetworkError (websockets_service_new demo_config
        \<lparr>rb_next = 0, rb_senders = [], rb_receivers = [], rb_history = []\<rparr>)"
  let ?c0 = "websocket_connection_new demo_config alice 0"
  obtain rx s' where hc: "handle_client ref_broadcast ref_ext ref_prost 1 (Uuid 8) alice ?s = (rx, s')" by fastforce
  have wf: "ws_wf ref_broadcast ?s"
    by (simp add: ws_wf_def store_network_status_def websockets_service_new_def ref_broadcast_def)
  have "\<not> ws_network_ok ?s" by (simp add: store_network_status_def)
  with ref_ws.handle_client_told_failure [OF ref_prost_ok hc wf] obtain m where m: "history ref_broadcast rx s' = [m]"
    by blast
  let ?c1 = "?c0\<lparr>wc_unconfirmed := [\<lparr>retry_at = 4, retries_remaining = 2, um_message = m\<rparr>]\<rparr>"
  have step: "try_run_iteration ref_ext ref_prost demo_config 1 (Ok ()) (NewMessage (Ok m)) ?c0 no_confirmations =
      Some (Ok (), ?c1, no_confirmations, [Binary (payload m)])"
    by (simp add: try_run_iteration_def process_message_def websocket_connection_new_def demo_config_def)
  have "recv_ok (history ref_broadcast rx (sys_service \<lparr>sys_service = s', sys_pending = None\<rparr>))
      (length (log_received empty_log))
      (registered ref_broadcast rx (sys_service \<lparr>sys_service = s', sys_pending = None\<rparr>)) (NewMessage (Ok m))"
    by (simp add: recv_ok_def m empty_log_def)
  from client_run.connection [OF client_run.start _ this step]
  obtain l where run: "client_run ref_broadcast ref_ext ref_prost demo_config rx
      \<lparr>sys_service = s', sys_pending = None\<rparr> ?c0 no_confirmations 0
      \<lparr>sys_service = s', sys_pending = None\<rparr> 1 (Ok ()) ?c1 no_confirmations l" and l: "log_received l = [m]"
    by (fastforce simp: received_def empty_log_def)
  from client_gets_its_messages [OF ref_broadcast.broadcast_channels_axioms wf hc run] l
  have "mset [m] = mset (log_confirmed l) + mset (map um_message (wc_unconfirmed ?c1))"
    and "binary_payloads (log_frames l) = map payload (log_transmitted l)" by (simp_all, blast+)
  with hc m l show ?thesis by (intro exI [of _ rx] exI [of _ s'] exI [of _ m] exI [of _ ?c1] exI [of _ l]) simp
qed

text \<open>A client's confirmation of a queued message takes its first occurrence out of the retry queue,
  counts as a sign of life, and runs the message's callback; of a message that is not queued it
  changes nothing.\<close>

theorem confirmation_dequeues:
  assumes "prost_ok P" and "identifiers_ok X"
  shows "process_incomming_message X P cfg now
      (Some (Ok (Binary (encode_websocket_confirmation P \<lparr>wcp_message_id = uuid_to_string X mid\<rparr>)))) c k =
    (case find (\<lambda>u. message_id (um_message u) = mid) (wc_unconfirmed c) of
       None \<Rightarrow> (Ok (), c, k, [])
     | Some u \<Rightarrow> (Ok (), c\<lparr>wc_ping_time := now + ping_interval cfg, wc_pings_sent := 0,
           wc_unconfirmed := remove1 u (wc_unconfirmed c)\<rparr>,
         (case delivered_callback (um_message u) of None \<Rightarrow> k | Some cb \<Rightarrow> callback_execute X (wc_user_id c) cb k), []))"
  using assms by (intro confirmation_of_queued) (simp_all add: identifiers_ok_def)

theorem confirmation_dequeues_witness:
  "fst (snd (process_incomming_message ref_ext ref_prost demo_config 7
      (Some (Ok (Binary (encode_websocket_confirmation ref_prost \<lparr>wcp_message_id = uuid_to_string ref_ext (Uuid 9)\<rparr>))))
      ((websocket_connection_new demo_config alice 0)\<lparr>wc_unconfirmed :=
         [\<lparr>retry_at = 4, retries_remaining = 2, um_message = demo_message\<rparr>]\<rparr>) no_confirmations)) =
   (websocket_connection_new demo_config alice 0)\<lparr>wc_ping_time := 17\<rparr>"
  by (simp add: confirmation_dequeues [OF ref_prost_ok ref_identifiers_ok] demo_message_def demo_config_def
      websocket_connection_new_def)

text \<open>C38. The flag of the confirmation callback is shared by all connections that were sent the message:
  whatever number of users confirm it, only the first confirmation is sent to the core.\<close>

theorem only_first_confirmation_is_sent:
  assumes "\<not> was_called k (cb_was_called cb)"
  shows "confirmations (fold (\<lambda>u. callback_execute X u cb) (u # us) k) =
    confirmations k @ [\<lparr>rcp_user_id = uuid_to_string X u, rcp_id = cb_id cb\<rparr>]"
  using assms by (rule callback_execute_many)

theorem only_first_confirmation_is_sent_witness:
  "confirmations (fold (\<lambda>u. callback_execute ref_ext u \<lparr>cb_was_called = 0, cb_id = ''n''\<rparr>) [alice, bob]
     \<lparr>was_called = \<lambda>_. False, confirmations = []\<rparr>) = [\<lparr>rcp_user_id = uuid_to_string ref_ext alice, rcp_id = ''n''\<rparr>]"
  using only_first_confirmation_is_sent [of "\<lparr>was_called = \<lambda>_. False, confirmations = []\<rparr>"
      "\<lparr>cb_was_called = 0, cb_id = ''n''\<rparr>" ref_ext alice "[bob]"] by simp

section \<open>All connections\<close>

text \<open>C14. A notification is sent as one message to every connection of the users it is for, once for each
  time a user is listed, and to no other; without users it is sent to every connection, once. The
  registry of connections stays well-formed.\<close>

theorem recipients_are_sent_one_message:
  assumes "broadcast_channels bc" and "prost_ok P" and "ws_wf bc s"
  shows "ws_wf bc (ws_send bc X P now mid us n s) \<and>
    (\<exists>wm. decode_websocket_notification P (payload wm) =
        Some \<lparr>wnp_message_id = uuid_to_string X mid, wnp_message_timestamp = Some (timestamp_of X now),
          wnp_network_status = network_status_value NetworkOk, wnp_notification = Some n\<rparr> \<and>
      (\<forall>r. history bc r (ws_send bc X P now mid us n s) = history bc r s @
        replicate (if us = [] then (if \<exists>u. connected bc u r s then 1 else 0)
          else length (filter (\<lambda>u. connected bc u r s) us)) wm))"
proof -
  note ws = ws_broadcast.intro [OF assms(1)]
  obtain m s1 where cm: "create_message X P now mid NetworkOk (Some n) s = (m, s1)" by fastforce
  then have "payload m = encode_websocket_notification P
      \<lparr>wnp_message_id = uuid_to_string X mid, wnp_message_timestamp = Some (timestamp_of X now),
       wnp_network_status = network_status_value NetworkOk, wnp_notification = Some n\<rparr>"
    by (auto simp: create_message_def Let_def)
  with ws_broadcast.ws_send_history [OF ws assms(3) cm] ws_broadcast.operations_wf(4) [OF ws assms(3)]
  show ?thesis by (intro conjI exI [of _ m]) (simp_all add: prost_okD(3) [OF assms(2)])
qed

text \<open>\<open>alice\<close> with two connections, 5 and 6.\<close>

definition alice_online :: "websocket_message ref_broadcast ws_service" where
  "alice_online = \<lparr>ws_config = demo_config, ws_network_ok = True, ws_users = [(alice, 1)],
     ws_channels = \<lparr>rb_next = 7, rb_senders = [1], rb_receivers = [(1, 5), (1, 6)], rb_history = []\<rparr>,
     ws_next_ref = 0\<rparr>"

lemma alice_online_wf: "ws_wf ref_broadcast alice_online"
  by (auto simp: ws_wf_def alice_online_def ref_broadcast_def)

lemma alice_online_connected: "connected ref_broadcast u r alice_online \<longleftrightarrow> u = alice \<and> (r = 5 \<or> r = 6)"
  by (auto simp: connected_def alice_online_def ref_broadcast_def)

lemma alice_online_history: "history ref_broadcast r alice_online = []"
  by (simp add: alice_online_def ref_broadcast_def rb_sent_def)

theorem recipients_are_sent_one_message_witness:
  "\<exists>wm. \<forall>r. history ref_broadcast r (ws_send ref_broadcast ref_ext ref_prost 3 (Uuid 9) [bob, alice]
     \<lparr>np_id = ''n'', np_status = 2, np_timestamp = None, np_created_by = None, np_seen = None,
      np_content_type = None, np_content = None\<rparr> alice_online) = (if r = 5 \<or> r = 6 then [wm] else [])"
proof -
  let ?n = "\<lparr>np_id = ''n'', np_status = 2, np_timestamp = None, np_created_by = None, np_seen = None,
      np_content_type = None, np_content = None\<rparr>"
  obtain wm where "\<forall>r. history ref_broadcast r (ws_send ref_broadcast ref_ext ref_prost 3 (Uuid 9) [bob, alice] ?n alice_online) =
    history ref_broadcast r alice_online @ replicate (if [bob, alice] = [] then (if \<exists>u. connected ref_broadcast u r alice_online
      then 1 else 0) else length (filter (\<lambda>u. connected ref_broadcast u r alice_online) [bob, alice])) wm"
    using recipients_are_sent_one_message [OF ref_broadcast.broadcast_channels_axioms ref_prost_ok alice_online_wf,
      where us = "[bob, alice]" and X = ref_ext and now = 3 and mid = "Uuid 9" and n = ?n] by blast
  then show ?thesis by (intro exI [of _ wm]) (simp add: alice_online_connected alice_online_history)
qed

text \<open>C11. In every interleaving of connections, disconnections, notifications and status updates, once no
  update is in progress the last network status each connected client was sent is the current one.\<close>

theorem clients_know_the_network_status:
  assumes "broadcast_channels bc" and "prost_ok P" and "\<forall>t. bc_receivers bc t b = {}"
    and "(ws_system_step bc X P)\<^sup>*\<^sup>* \<lparr>sys_service = websockets_service_new cfg b, sys_pending = None\<rparr> y"
  shows "ws_wf bc (sys_service y) \<and>
    (sys_pending y = None \<longrightarrow> connected bc u r (sys_service y) \<longrightarrow>
      (last_status P (history bc r (sys_service y)) = NetworkOk \<longleftrightarrow> ws_network_ok (sys_service y)))"
proof -
  have "told_ok bc P y"
    using assms(4)
  proof (induction rule: rtranclp_induct)
    case base
    then show ?case using assms(3) by (simp add: told_ok_def websockets_service_new_def ws_wf_def connected_def)
  next
    case (step y z)
    then show ?case using ws_broadcast.ws_system_step_told [OF ws_broadcast.intro [OF assms(1)] assms(2)] by blast
  qed
  then show ?thesis by (auto simp: told_ok_def)
qed

definition no_channels :: "websocket_message ref_broadcast" where
  "no_channels = \<lparr>rb_next = 0, rb_senders = [], rb_receivers = [], rb_history = []\<rparr>"

text \<open>The network fails, \<open>alice\<close> connects before the failure is broadcast.\<close>

definition alice_in_failure :: "websocket_message ref_broadcast ws_system" where
  "alice_in_failure =
     (let s = store_network_status NetworkError (websockets_service_new demo_config no_channels);
          s' = snd (handle_client ref_broadcast ref_ext ref_prost 1 (Uuid 8) alice s)
      in \<lparr>sys_service = broadcast_network_status ref_broadcast ref_ext ref_prost 2 (Uuid 9) NetworkError s',
          sys_pending = None\<rparr>)"

lemma alice_in_failure_run:
  "(ws_system_step ref_broadcast ref_ext ref_prost)\<^sup>*\<^sup>*
     \<lparr>sys_service = websockets_service_new demo_config no_channels, sys_pending = None\<rparr> alice_in_failure"
proof -
  let ?y0 = "\<lparr>sys_service = websockets_service_new demo_config no_channels, sys_pending = None\<rparr>"
  let ?s = "store_network_status NetworkError (websockets_service_new demo_config no_channels)"
  let ?y1 = "\<lparr>sys_service = ?s, sys_pending = Some NetworkError\<rparr>"
  obtain rx s' where hc: "handle_client ref_broadcast ref_ext ref_prost 1 (Uuid 8) alice ?s = (rx, s')" by fastforce
  let ?y2 = "\<lparr>sys_service = s', sys_pending = Some NetworkError\<rparr>"
  have "ws_system_step ref_broadcast ref_ext ref_prost ?y0 ?y1"
    using ws_system_step.store [of ?y0 ref_broadcast ref_ext ref_prost NetworkError] by simp
  moreover have "ws_system_step ref_broadcast ref_ext ref_prost ?y1 ?y2"
    using ws_system_step.client [of ref_broadcast ref_ext ref_prost 1 "Uuid 8" alice ?y1 rx s'] hc by simp
  moreover have "ws_system_step ref_broadcast ref_ext ref_prost ?y2 alice_in_failure"
    using ws_system_step.broadcast [of ?y2 NetworkError ref_broadcast ref_ext ref_prost 2 "Uuid 9"] hc
    by (simp add: alice_in_failure_def Let_def)
  ultimately show ?thesis by (meson converse_rtranclp_into_rtranclp rtranclp.rtrancl_refl)
qed

lemma alice_in_failure_facts:
  "sys_pending alice_in_failure = None" "\<not> ws_network_ok (sys_service alice_in_failure)"
  "\<exists>r. connected ref_broadcast alice r (sys_service alice_in_failure)"
proof -
  let ?s = "store_network_status NetworkError (websockets_service_new demo_config no_channels)"
  obtain rx s' where hc: "handle_client ref_broadcast ref_ext ref_prost 1 (Uuid 8) alice ?s = (rx, s')" by fastforce
  obtain m s2 where cm: "create_message ref_ext ref_prost 2 (Uuid 9) NetworkError None s' = (m, s2)" by fastforce
  have wf: "ws_wf ref_broadcast ?s"
    by (simp add: ws_wf_def store_network_status_def websockets_service_new_def no_channels_def ref_broadcast_def)
  have y: "alice_in_failure = \<lparr>sys_service = send_broadcast ref_broadcast m s2, sys_pending = None\<rparr>"
    by (simp add: alice_in_failure_def hc cm broadcast_network_status_def)
  show "sys_pending alice_in_failure = None" by (simp add: y)
  have "ws_network_ok s2 = ws_network_ok ?s"
    using create_message_frame(3) [OF cm] ref_ws.handle_client_network_ok [OF hc wf] by simp
  then show "\<not> ws_network_ok (sys_service alice_in_failure)"
    by (simp add: y send_broadcast_def store_network_status_def)
  have "connected ref_broadcast alice rx s'" using ref_ws.handle_client_connected [OF wf hc] by blast
  then show "\<exists>r. connected ref_broadcast alice r (sys_service alice_in_failure)"
    by (auto simp: y send_broadcast_def connected_def create_message_frame [OF cm])
qed

theorem clients_know_the_network_status_witness:
  "\<exists>r. connected ref_broadcast alice r (sys_service alice_in_failure) \<and>
     last_status ref_prost (history ref_broadcast r (sys_service alice_in_failure)) = NetworkError"
proof -
  obtain r where r: "connected ref_broadcast alice r (sys_service alice_in_failure)"
    using alice_in_failure_facts(3) by blast
  have "\<forall>t. bc_receivers ref_broadcast t no_channels = {}" by (simp add: ref_broadcast_def no_channels_def)
  note told = clients_know_the_network_status [OF ref_broadcast.broadcast_channels_axioms ref_prost_ok this
      alice_in_failure_run, of alice r]
  with alice_in_failure_facts(1,2) r
  have "last_status ref_prost (history ref_broadcast r (sys_service alice_in_failure)) \<noteq> NetworkOk" by blast
  moreover have "st \<noteq> NetworkOk \<Longrightarrow> st = NetworkError" for st by (cases st) simp_all
  ultimately show ?thesis using r by blast
qed

section \<open>Tickets\<close>

text \<open>C26. The tickets repository refines the abstract list of tickets on any server with the documented
  behaviour: insertion, lookup and the conditional update that uses a ticket, errors included; and
  its constructor establishes it.\<close>

theorem tickets_repository_refines_list:
  assumes "mongo_server m"
  shows "tickets_repository (tickets_repository_impl X m) X (tickets_stored m)"
  using assms by (rule mongo_server.tickets_contract)

theorem tickets_repository_refines_list_witness:
  "tickets_repository (tickets_repository_impl ref_ext ref_server) ref_ext (tickets_stored ref_server) \<and>
   tickets_stored ref_server (store_world [] [alice_ticket]) [alice_ticket]"
  using tickets_repository_refines_list [OF ref.mongo_server_axioms] alice_ticket_stored by blast

text \<open>C8. A ticket opens at most one connection: whatever requests run between the check of a ticket and
  the update that uses it, no ticket is handed back twice, and each was issued to that user and used
  before it expired.\<close>

theorem ticket_is_consumed_once:
  assumes "mongo_server m" and "tickets_stored m w0 ts0"
    and "tickets_run X lifespan (tickets_repository_impl X m) w0 y"
  shows "distinct (map t_ticket (consumed y)) \<and>
    (\<forall>t \<in> set (consumed y). (\<exists>now. t_used_at t = Some now \<and> now \<le> t_expire_at t) \<and>
      ((t_ticket t, t_user_id t) \<in> set (issued y) \<or>
       (\<exists>e0 \<in> set ts0. te_ticket e0 = t_ticket t \<and> te_user_id e0 = t_user_id t)))"
  using tickets_repository.consumed_once [OF mongo_server.tickets_contract [OF assms(1)] assms(3,2)] by blast

text \<open>Two requests check the ticket of \<open>alice\<close>; then both try to use it.\<close>

definition race :: "bool \<Rightarrow> ref_world tickets_system \<Rightarrow> ref_world tickets_system" where
  "race use y =
    (let r = tickets_repository_impl ref_ext ref_server
     in if use then
       (case checked y of [] \<Rightarrow> y | (t, now) # ys \<Rightarrow>
         (case mark_ticket_used r t now (tickets_world y) of (res, w') \<Rightarrow>
           y\<lparr>tickets_world := w', checked := [] @ ys,
             consumed := (case res of Inr t' \<Rightarrow> t' # consumed y | Inl _ \<Rightarrow> consumed y)\<rparr>))
     else
       (case check_ticket r \<lparr>wt_ticket = ''t''\<rparr> 5000000 (tickets_world y) of (res, w') \<Rightarrow>
         y\<lparr>tickets_world := w', checked := (case res of Inr t \<Rightarrow> (t, 5000000) # checked y | Inl _ \<Rightarrow> checked y)\<rparr>))"

lemma race_run: "tickets_run ref_ext l (tickets_repository_impl ref_ext ref_server) w y \<Longrightarrow>
    tickets_run ref_ext l (tickets_repository_impl ref_ext ref_server) w (race use y)"
proof (cases use)
  case True
  assume run: "tickets_run ref_ext l (tickets_repository_impl ref_ext ref_server) w y"
  show ?thesis
  proof (cases "checked y")
    case Nil
    with run True show ?thesis by (simp add: race_def)
  next
    case (Cons c ys)
    obtain t now where c: "c = (t, now)" by fastforce
    obtain res w' where m: "mark_ticket_used (tickets_repository_impl ref_ext ref_server) t now (tickets_world y) = (res, w')"
      by fastforce
    from tickets_run.mark [OF run _ m, of "[]" ys] Cons c m True show ?thesis by (simp add: race_def)
  qed
next
  case False
  assume run: "tickets_run ref_ext l (tickets_repository_impl ref_ext ref_server) w y"
  obtain res w' where c: "check_ticket (tickets_repository_impl ref_ext ref_server) \<lparr>wt_ticket = ''t''\<rparr> 5000000
      (tickets_world y) = (res, w')" by fastforce
  from tickets_run.check [OF run c] c False show ?thesis by (simp add: race_def)
qed

definition raced :: "ref_world tickets_system" where
  "raced = race True (race True (race False (race False
     \<lparr>tickets_world = store_world [] [alice_ticket], checked = [], issued = [], consumed = []\<rparr>)))"

theorem ticket_is_consumed_once_witness:
  "distinct (map t_ticket (consumed raced)) \<and>
    list_all (\<lambda>t. \<exists>now. t_used_at t = Some now \<and> now \<le> t_expire_at t) (consumed raced)"
proof -
  have "tickets_run ref_ext 0 (tickets_repository_impl ref_ext ref_server) (store_world [] [alice_ticket]) raced"
    unfolding raced_def by (intro race_run tickets_run.start)
  from ticket_is_consumed_once [OF ref.mongo_server_axioms alice_ticket_stored this] show ?thesis
    by (simp add: list_all_iff)
qed

section \<open>The server\<close>

text \<open>C25. A WebSocket request is answered 101 only for an unused, unexpired ticket, which it uses up, and
  for that ticket's user; 401 only for a ticket that does not exist, was used or has expired, and
  then nothing changes; any other answer is a database error, 500.\<close>

theorem upgrade_needs_a_valid_ticket:
  assumes "mongo_server m" and "tickets_stored m w ts" and "wa_tickets A = tickets_repository_impl X m"
    and "body req = WebsocketUpgrade tk"
  shows "case ws_serve A J key algs x req (w, s) of (resp, w', s') \<Rightarrow> s' = s \<and>
    (case find (\<lambda>e. te_ticket e = wt_ticket tk) ts of
       Some e \<Rightarrow> (response_status resp = SWITCHING_PROTOCOLS \<longrightarrow> te_used_at e = None \<and>
           wi_now x \<le> dt_into X (te_expire_at e) \<and> response_body resp = Some (Upgraded (te_user_id e)) \<and>
           tickets_stored m w' (use_ticket (te_id e) (dt_from X (wi_now x)) ts)) \<and>
         (response_status resp = UNAUTHORIZED \<longrightarrow> tickets_stored m w' ts \<and>
           (te_used_at e \<noteq> None \<or> dt_into X (te_expire_at e) < wi_now x))
     | None \<Rightarrow> response_status resp \<noteq> SWITCHING_PROTOCOLS) \<and>
    response_status resp \<in> {SWITCHING_PROTOCOLS, UNAUTHORIZED, INTERNAL_SERVER_ERROR}"
proof -
  obtain resp w' s' where run: "ws_serve A J key algs x req (w, s) = (resp, w', s')" by (metis surj_pair)
  note out = tickets_repository.ws_serve_upgrade [OF mongo_server.tickets_contract [OF assms(1)] assms(2,3,4) run]
  show ?thesis
  proof (cases "find (\<lambda>e. te_ticket e = wt_ticket tk) ts")
    case None
    with out run show ?thesis by auto
  next
    case (Some e)
    with out run show ?thesis by auto
  qed
qed

definition alice_upgrades :: "offset_date_time \<Rightarrow> ws_response \<times> ref_world \<times> websocket_message ref_broadcast ws_service" where
  "alice_upgrades now = ws_serve \<lparr>wa_ext = ref_ext, wa_ticket_lifespan = 10,
      wa_tickets = tickets_repository_impl ref_ext ref_server\<rparr> ref_jwt () [HS256] \<lparr>wi_now = now, wi_uuid = Uuid 3\<rparr>
    \<lparr>authorization = None, extension = None, body = WebsocketUpgrade \<lparr>wt_ticket = ''t''\<rparr>\<rparr>
    (store_world [] [alice_ticket], alice_online)"

lemma alice_upgrades_status: "response_status (fst (alice_upgrades 20000000)) \<noteq> INTERNAL_SERVER_ERROR"
  by (simp add: alice_upgrades_def ws_serve_def websocket_upgrade_def consume_ticket_def check_ticket_def
      ticket_find_def r_find_one_def store_world_def alice_ticket_def encode_ticket_def ticket_insert_fields_def
      TICKETS_def NOTIFICATIONS_def decode_ticket_entity_def opt_date_def ticket_of_entity_def ref_ext_def
      ws_into_response_def)

theorem upgrade_needs_a_valid_ticket_witness:
  "response_status (fst (alice_upgrades 20000000)) = UNAUTHORIZED"
proof -
  let ?A = "\<lparr>wa_ext = ref_ext, wa_ticket_lifespan = 10, wa_tickets = tickets_repository_impl ref_ext ref_server\<rparr>"
  let ?req = "\<lparr>authorization = None, extension = None, body = WebsocketUpgrade \<lparr>wt_ticket = ''t''\<rparr>\<rparr>"
  obtain resp w' s' where run: "alice_upgrades 20000000 = (resp, w', s')" by (metis surj_pair)
  have "dt_into ref_ext (te_expire_at alice_ticket) < 20000000" by (simp add: ref_ext_def alice_ticket_def)
  moreover have "te_ticket alice_ticket = ''t''" by (simp add: alice_ticket_def)
  ultimately show ?thesis
    using upgrade_needs_a_valid_ticket [OF ref.mongo_server_axioms alice_ticket_stored [where ns = "[]"], where X = ref_ext and A = ?A and req = ?req
        and tk = "\<lparr>wt_ticket = ''t''\<rparr>" and J = ref_jwt and key = "()" and algs = "[HS256]"
        and x = "\<lparr>wi_now = 20000000, wi_uuid = Uuid 3\<rparr>" and s = alice_online]
      alice_upgrades_status run
    by (auto simp: alice_upgrades_def)
qed

text \<open>C20. An administrator closes a user's connections: each of them is sent nothing more, whatever the service
  and the other connections do from then on; it takes what it was sent before, and the next time it
  asks for a message it ends.\<close>

theorem closed_connection_ends:
  assumes "broadcast_channels bc" and "ws_wf bc s" and "connected bc user r s"
    and "parse_authorization_header J key algs (authorization req) = Ok u" and "Admin \<in> set (roles u)"
    and "body req = DeleteConnection user" and "ws_serve A J key algs x req (w, s) = (resp, w', s')"
    and "(live_step bc X P r)\<^sup>*\<^sup>* \<lparr>sys_service = s', sys_pending = p\<rparr> y"
  shows "response_status resp = NO_CONTENT \<and> w' = w \<and> \<not> registered bc r (sys_service y) \<and>
    history bc r (sys_service y) = history bc r s \<and>
    (\<forall>m. \<not> recv_ok (history bc r (sys_service y)) (length (history bc r s)) (registered bc r (sys_service y)) (NewMessage (Ok m))) \<and>
    (\<exists>e'. try_run_iteration X P cfg t sent (NewMessage (Err e)) c k = Some (Err e', c, k, []))"
proof -
  note ws = ws_broadcast.intro [OF assms(1)]
  have s': "s' = close_connections user s" and r: "response_status resp = NO_CONTENT" "w' = w"
    using assms(5,7) by (auto simp: ws_serve_delete_connection [OF assms(4,6)])
  have wf: "ws_wf bc s'" unfolding s' by (rule ws_broadcast.operations_wf(3) [OF ws assms(2)])
  have live: "live_receiver bc r s'"
    using assms(3) by (auto simp: s' live_receiver_def connected_def close_connections_def)
  have "v = user" if "connected bc v r s" for v
    using that assms(2,3) distinct_snd_unique [of "ws_users s" v _ user]
    by (fastforce simp: connected_def ws_wf_def dest: map_of_SomeD)
  then have "\<not> registered bc r s'"
    using ws_broadcast.close_connections_disconnects [OF ws, of _ r user s] by (auto simp: registered_def s')
  with ws_broadcast.live_steps_unregistered [OF ws assms(8)] wf live
  have y: "\<not> registered bc r (sys_service y)" "history bc r (sys_service y) = history bc r s"
    by (simp_all add: s' close_connections_def)
  have "\<exists>e'. try_run_iteration X P cfg t sent (NewMessage (Err e)) c k = Some (Err e', c, k, [])"
    by (cases e) (simp_all add: try_run_iteration_def process_message_def)
  with r y show ?thesis by (simp add: recv_ok_def)
qed

text \<open>\<open>alice\<close>, an administrator, closes her own connections; a notification sent to her then does not arrive.\<close>

definition alice_closes :: "ws_response \<times> ref_world \<times> websocket_message ref_broadcast ws_service" where
  "alice_closes = ws_serve \<lparr>wa_ext = ref_ext, wa_ticket_lifespan = 10,
      wa_tickets = tickets_repository_impl ref_ext ref_server\<rparr> ref_jwt () [HS256] \<lparr>wi_now = 1, wi_uuid = Uuid 3\<rparr>
    \<lparr>authorization = bearer ''a'', extension = None, body = DeleteConnection alice\<rparr> (store_world [] [], alice_online)"

definition demo_notification :: notification_protobuf where
  "demo_notification = \<lparr>np_id = ''n'', np_status = 2, np_timestamp = None, np_created_by = None, np_seen = None,
     np_content_type = None, np_content = None\<rparr>"

theorem closed_connection_ends_witness:
  "response_status (fst alice_closes) = NO_CONTENT \<and>
   history ref_broadcast 5 (ws_send ref_broadcast ref_ext ref_prost 2 (Uuid 9) [alice] demo_notification (snd (snd alice_closes))) = []"
proof -
  obtain resp w' s' where run: "alice_closes = (resp, w', s')" by (metis surj_pair)
  let ?y = "\<lparr>sys_service = s', sys_pending = None\<rparr>"
  let ?s = "ws_send ref_broadcast ref_ext ref_prost 2 (Uuid 9) [alice] demo_notification s'"
  have con: "connected ref_broadcast alice 5 alice_online" by (simp add: alice_online_connected)
  have s': "s' = close_connections alice alice_online"
    using run by (simp add: alice_closes_def Admin_def bearer_tokens ws_serve_delete_connection [where u = alice_admin and user = alice]
        alice_admin_def)
  have "live_receiver ref_broadcast 5 ?s"
    using con by (auto simp: s' live_receiver_def connected_def ws_send_def send_multicast_def close_connections_def
        create_message_def Let_def)
  then have "live_step ref_broadcast ref_ext ref_prost 5 ?y (?y\<lparr>sys_service := ?s\<rparr>)"
    using ws_system_step.send [of ref_broadcast ref_ext ref_prost ?y 2 "Uuid 9" "[alice]" demo_notification] by (simp add: live_step_def)
  then have "(live_step ref_broadcast ref_ext ref_prost 5)\<^sup>*\<^sup>* ?y (?y\<lparr>sys_service := ?s\<rparr>)" by (rule r_into_rtranclp)
  from closed_connection_ends [OF ref_broadcast.broadcast_channels_axioms alice_online_wf con _ _ _
      run [unfolded alice_closes_def] this, where u = alice_admin] bearer_tokens(1)
  show ?thesis by (simp add: run Admin_def alice_online_history alice_admin_def)
qed

section \<open>Deduplication\<close>



text \<open>C39. Deduplication goes by the notification alone: of two changes of one notification, each for
  another user, the one with the earlier time is dropped when it is processed second, and its user
  is not told.\<close>

theorem other_users_change_is_dropped:
  assumes "broadcast_channels bc" and "prost_ok P" and "ws_wf bc s"
    and "read_announcement X P msg = Some a" and "announced_time X a t"
    and "read_announcement X P msg' = Some b" and "announced_time X b t'"
    and "an_id a = an_id b" and "t \<le> t'"
    and "delivery_callback bc X P now mid (content msg') (m, s) = (res', m', s')"
  shows "delivery_callback bc X P now2 mid2 (content msg) (m', s') = (Ok (), m', s')"
proof -
  obtain res m'' s'' where second: "delivery_callback bc X P now2 mid2 (content msg) (m', s') = (res, m'', s'')"
    by (metis surj_pair)
  from ws_broadcast.other_users_change_lost [OF ws_broadcast.intro [OF assms(1)] assms(2-10) this] second
  show ?thesis by simp
qed

text \<open>\<open>alice\<close> sees the notification at time 5, \<open>bob\<close> at time 6; \<open>bob\<close>'s change is processed first.\<close>

definition seen_by :: "uuid \<Rightarrow> offset_date_time \<Rightarrow> message" where
  "seen_by u t = hd (send_updated ref_ext ref_prost u (ObjectId 7) True t [])"

lemma seen_by_read:
  "read_announcement ref_ext ref_prost (seen_by u t) = Some \<lparr>an_user_ids = [u], an_id = ObjectId 7,
     an_timestamp = timestamp_of ref_ext t, an_change = Updated True\<rparr>"
  using ref_announcements.announce_updated [of u "ObjectId 7" True t "[]"]
  by (simp add: seen_by_def notifications_producer_service_impl_def send_updated_def send_def)

lemma seen_by_time: "0 \<le> t \<Longrightarrow> t < 2 ^ 63 \<Longrightarrow> announced_time ref_ext
    \<lparr>an_user_ids = [u], an_id = ObjectId 7, an_timestamp = timestamp_of ref_ext t, an_change = Updated True\<rparr> t"
  using ref_timestamp_ok [of t] by (simp add: announced_time_def timestamp_ok_def timestamp_of_def)

theorem other_users_change_is_dropped_witness:
  "\<exists>m' s'. snd (delivery_callback ref_broadcast ref_ext ref_prost 7 (Uuid 1) (content (seen_by bob 6))
       (Map.empty, alice_online)) = (m', s') \<and>
     delivery_callback ref_broadcast ref_ext ref_prost 8 (Uuid 2) (content (seen_by alice 5)) (m', s') =
     (Ok (), m', s') \<and> history ref_broadcast 5 s' = []"
proof -
  obtain res m' s' where first: "delivery_callback ref_broadcast ref_ext ref_prost 7 (Uuid 1)
      (content (seen_by bob 6)) (Map.empty, alice_online) = (res, m', s')" by (metis surj_pair)
  have time: "announced_time ref_ext \<lparr>an_user_ids = [u], an_id = ObjectId 7,
      an_timestamp = timestamp_of ref_ext t, an_change = Updated True\<rparr> t" if "t = 5 \<or> t = 6" for u t
    using that by (intro seen_by_time) auto
  note lost = other_users_change_is_dropped [OF ref_broadcast.broadcast_channels_axioms ref_prost_ok alice_online_wf
      seen_by_read [of alice 5] time seen_by_read [of bob 6] time _ _ first]
  have "\<not> connected ref_broadcast bob 5 alice_online"
    by (simp add: connected_def alice_online_def)
  moreover have "history ref_broadcast 5 alice_online = []"
    by (simp add: alice_online_def ref_broadcast_def rb_sent_def)
  ultimately have "history ref_broadcast 5 s' = []"
    using ref_ws.delivery_of_announcement(2) [OF ref_prost_ok seen_by_read [of bob 6] time alice_online_wf first]
    by auto
  with lost [of 8 "Uuid 2"] first show ?thesis by (intro exI [of _ m'] exI [of _ s']) simp
qed

end
