(* ===== verification/Shutdown.thy ===== *)
theory Shutdown
  imports Rabbit_Connection Rabbit_Producer
begin

text \<open>
  \<open>application_shutdown.rs\<close> of both programs and the \<open>close\<close> of the producer. Services are shared
  through \<open>Arc\<close>: \<open>Arc::try_unwrap\<close> succeeds when its reference is the last one, so the number of
  references that exist is an input. A task that has been closed drops its clone of the connection.
\<close>

section \<open>The producer\<close>

text \<open>
  The stop signal is tested first (\<open>biased\<close>) and ends the state machine in any state: what it still
  holds, unconfirmed or not yet published, is dropped with it.
\<close>

definition producer_close :: "(message, 'q) mpsc \<Rightarrow> ('c, 'q, 'r) producer_machine \<Rightarrow> message list" where
  "producer_close ch p = map snd (pm_unconfirmed p) @ ch_items ch (pm_messages p)"

context producer_channels
begin

lemma close_accounts_for_messages:
  assumes "producer_run ch cch p0 es S A p" and "producer_wf 0 p0" and "length es < 2 ^ 64"
    and "pending_messages ch p0 = {#}"
  shows "S = A + mset (producer_close ch p)"
  using producer_run_conserves [OF assms(1-3)] assms(4)
  by (simp add: pending_messages_def producer_close_def ac_simps)

end

section \<open>The programs\<close>

datatype closed = ClosedProducer | ClosedConsumer | ClosedDeduplication | ClosedConnection | ClosedDatabase

definition try_unwrap :: "nat \<Rightarrow> bool" where
  "try_unwrap references \<longleftrightarrow> references = 1"

text \<open>
  \<open>clones\<close> counts the clones of the connection: the application's, those of the producer's and the
  consumer's tasks, and any others.
\<close>

definition core_close :: "nat \<Rightarrow> nat \<Rightarrow> 'c connection_machine \<Rightarrow> closed list" where
  "core_close producer_references clones k =
    (let producer = (if try_unwrap producer_references then [ClosedProducer] else []);
         clones_left = clones - length producer - 1;
         connection = (case connection_close clones_left k of Some _ \<Rightarrow> [ClosedConnection] | None \<Rightarrow> [])
     in producer @ [ClosedConsumer] @ connection @ [ClosedDatabase])"

definition ws_close :: "nat \<Rightarrow> nat \<Rightarrow> nat \<Rightarrow> 'c connection_machine \<Rightarrow> closed list" where
  "ws_close deduplication_references confirmations_references clones k =
    (let deduplication = (if try_unwrap deduplication_references then [ClosedDeduplication] else []);
         confirmations = (if try_unwrap confirmations_references then [ClosedProducer] else []);
         clones_left = clones - 1 - length confirmations;
         connection = (case connection_close clones_left k of Some _ \<Rightarrow> [ClosedConnection] | None \<Rightarrow> [])
     in [ClosedConsumer] @ deduplication @ confirmations @ connection @ [ClosedDatabase])"

text \<open>The connection is closed exactly when nobody else holds the producer or a clone of it.\<close>

lemma core_close_connection:
  "3 \<le> clones \<Longrightarrow> ClosedConnection \<in> set (core_close refs clones k) \<longleftrightarrow> refs = 1 \<and> clones = 3"
  "3 \<le> clones \<Longrightarrow> refs = 1 \<and> clones = 3 \<longleftrightarrow>
     core_close refs clones k = [ClosedProducer, ClosedConsumer, ClosedConnection, ClosedDatabase]"
  by (auto simp: core_close_def try_unwrap_def connection_close_def Let_def)

text \<open>
  A queued message holds a reference to the confirmations service through its callback: with one
  left the service is not closed, and neither is the connection.
\<close>

lemma ws_close_connection:
  "3 \<le> clones \<Longrightarrow> ClosedConnection \<in> set (ws_close drefs crefs clones k) \<longleftrightarrow> crefs = 1 \<and> clones = 3"
  "1 < crefs \<Longrightarrow> ClosedProducer \<notin> set (ws_close drefs crefs clones k)"
  by (auto simp: ws_close_def try_unwrap_def connection_close_def Let_def)

end
