(* ===== verification/Spec2Isabelle.thy ===== *)
theory Spec2Isabelle
  imports Startup_Properties Core_Properties Client_Properties Ws_Properties Shutdown
begin

text \<open>
  A verification development of \<open>tom-notifier\<close>, two Rust programs that store notifications and
  push them to users, over a RabbitMQ client and an authentication middleware they share.

  The program. \<open>tom-notifier-core\<close> keeps notifications in MongoDB and serves them over HTTP:
  producers save notifications, users poll the undelivered ones, which confirms them, list and
  delete delivered ones and mark them seen. Every change is announced in a protobuf message on
  RabbitMQ. \<open>tom-notifier-ws-delivery\<close> consumes these messages, drops duplicates, and pushes each
  to the WebSocket connections of its users; a client's confirmation goes back to the core through
  a second queue. A WebSocket connection is opened with a single-use ticket. Messages carry
  identifiers and times as text and numbers; both programs read them with the same crates.

  The model is a shallow embedding. Fallible functions return sums, \<open>Inl\<close> (\<open>Err\<close>) the error; state
  is passed explicitly; an \<open>async fn\<close> is a function of its inputs and of what its awaited calls
  return; \<open>select!\<close> is an argument that says which branch completes; a clock reading and a
  generated identifier are arguments. Machine integers are words, so \<open>+\<close> and \<open>*\<close> wrap as the
  release build does. Loops that may not return are \<open>partial_function (option)\<close>: there is no fuel.
  Concurrency is a step relation whose steps are the code's atomic sections.

  Theories, and the source they model (paths under \<open>tom-notifier-core/src\<close>,
  \<open>tom-notifier-ws-delivery/src\<close>, \<open>shared\<close>):
  \<^item> \<open>Prelude\<close>: results, word types, list operations of \<open>std\<close>. \<open>Externals\<close>: identifiers, instants and
    the conversions of \<open>uuid\<close>, \<open>bson\<close> and \<open>time\<close> (record \<open>ext\<close>, a parameter). \<open>Protobuf\<close>: the messages
    of \<open>shared/protobuf\<close> and the codec of \<open>prost\<close> (record \<open>prost\<close>, a parameter).
  \<^item> \<open>Mongo\<close>, \<open>Mongo_Reference\<close>: BSON documents, what is relied on of MongoDB and its driver (record
    \<open>mongo\<close>, locales \<open>mongo_queries\<close>, \<open>mongo_updates\<close>, \<open>mongo_server\<close>), and a reference server that
    satisfies it. The source's filters, updates and projections are kept as documents.
  \<^item> Core: \<open>Core_Types\<close> (\<open>dto\<close>, \<open>error.rs\<close>, entities), \<open>Notifications_Repository\<close> (\<open>repository\<close>),
    \<open>Notifications_Producer_Service\<close>, \<open>Notifications_Service\<close> (\<open>service\<close>), \<open>Core_Server\<close> (\<open>routing.rs\<close>,
    \<open>application.rs\<close>, the confirmations consumer).
  \<^item> The core's specification: \<open>Notifications_Store\<close> (the abstract store), \<open>Notifications_Contract\<close> (the
    trait's contract as the locale \<open>notifications_repository\<close>), \<open>Notifications_Encoding\<close> and
    \<open>Notifications_Refinement\<close> (documents of notifications, and the refinement), \<open>Core_Invariants\<close>,
    \<open>Core_Requests\<close> (handlers in two halves, before and after their first wait for the database, and
    their interleavings).
  \<^item> Shared crates: \<open>Jwt_Auth\<close> (\<open>shared/jwt_auth\<close>); \<open>Retry\<close>, \<open>Rabbit_Connection\<close>, \<open>Channels\<close> (\<open>tokio::mpsc\<close>,
    a parameter), \<open>Rabbit_Producer\<close>, \<open>Rabbit_Consumer\<close> (\<open>shared/rabbitmq_client\<close>).
  \<^item> Delivery: \<open>Ws_Types\<close>, \<open>Websocket_Connection\<close> (\<open>websocket_connection.rs\<close>), \<open>Websockets_Service\<close>
    (\<open>websockets_service_impl.rs\<close>; \<open>tokio::broadcast\<close> is a parameter), \<open>Client_Run\<close> (a connection
    running with the service and the other connections), \<open>Tickets\<close> (tickets repository
    and service), \<open>Deduplication\<close>, \<open>Ws_Consumer\<close> (\<open>notifications_consumer_service.rs\<close>), \<open>Ws_Server\<close>
    (\<open>routing.rs\<close>).
  \<^item> Both programs: \<open>Configuration\<close> (\<open>application_env.rs\<close>), \<open>Topology\<close> (the exchanges, queues and
    bindings that the services' constructors declare), \<open>Startup\<close> (\<open>main.rs\<close> up to the listener,
    \<open>application_state.rs\<close>, \<open>application_middleware.rs\<close>), \<open>Shutdown\<close> (\<open>application_shutdown.rs\<close>).
  \<^item> \<open>Instances\<close>: concrete values for the witnesses. \<open>Startup_Properties\<close>, \<open>Core_Properties\<close>,
    \<open>Client_Properties\<close>, \<open>Ws_Properties\<close> and this theory: the properties.

  What is shown.
  \<^item> The repositories refine abstract lists of notifications and tickets, on every outcome including
    driver errors, where an update may or may not have happened. The services are proved against
    the contracts only.
  \<^item> Core: saving, polling, deleting, marking and confirming do what they promise, announce every
    change once, and over any run of requests, the halves of polls interleaved, no notification or
    confirmation is lost and what a poll returns is confirmed. However requests interleave or are
    dropped, announcements are about stored changes and each creation and deletion is announced once;
    two updates of the seen flag at once may be announced in the other order (this theory).
  \<^item> Client: the producer conserves messages through confirms, resends and reconnections; the
    state machines of connection, producer and consumer reach their working state again; each
    delivery is answered once; \<open>retry\<close> returns exactly when an attempt succeeds.
  \<^item> Delivery: each connection of the addressed users is sent one message; a living connection forgets
    none: each is on the wire and confirmed or queued to be sent again; retransmission is bounded,
    unresponsive users are disconnected, connected clients know the network status in every
    interleaving, tickets are consumed once in every interleaving, updates come in order, and a
    connection an administrator closed is sent nothing more and ends.
  \<^item> Together: a saved notification reaches its connected users, a client's confirmation reaches the
    store (this theory). Messages are routed to every instance of the delivery and confirmations to
    the core (this theory). A program starts only when configured, and then in a state from which
    the invariants hold (\<open>Startup_Properties\<close>).

  Hypotheses. \<open>mongo_server\<close>, \<open>broadcast_channels\<close> and \<open>unbounded_channel\<close> are the documented behaviour
  of third-party code and are interpreted on reference implementations; \<open>identifiers_ok\<close>, \<open>prost_ok\<close>,
  \<open>timestamp_ok\<close> and \<open>dt_mono\<close> state that printing and parsing, encoding and decoding, splitting and
  joining an instant round-trip, and that the conversion to milliseconds is monotone; \<open>ref_ext\<close> and
  \<open>ref_prost\<close> satisfy them. \<open>direct_routing\<close> is RabbitMQ's rule for direct exchanges. The producer's \<open>u64\<close> message counter is assumed not to wrap within one
  run (\<open>length es < 2 ^ 64\<close>).

  Not modelled: logging and tracing, waiting for the shutdown signal, the tower-http layers (CORS, body limit) beyond their
  configuration, serving, JSON and base64 conversion by \<open>serde\<close>, axum's extractors, build scripts
  and the test suites. They are I/O or calls of libraries with no state of their own.
\<close>

section \<open>Both programs together\<close>

text \<open>C1. A notification saved by the core reaches, through the message it publishes, every connection
  \<open>tom-notifier-ws-delivery\<close> has for the users it is for (for any user when none is listed), as one
  message per listing that reads as the new notification, if no later change of it was delivered.\<close>

theorem saved_notification_reaches_its_users:
  assumes "mongo_server m" and "identifiers_ok X" and "prost_ok P" and "stored m w ns" and "timestamp_ok X nc"
    and "save_notification X cfg (notifications_repository_impl X m) (notifications_producer_service_impl X P)
      p n nv nc (w, msgs) = (Ok out, w', msgs')"
    and "broadcast_channels bc" and "ws_wf bc s"
    and "delivery_callback bc X P now mid (content (last msgs')) (seen, s) = (res, seen', s')"
  shows "\<exists>i. out = \<lparr>nid = oid_to_hex X i\<rparr> \<and> res = Ok () \<and>
    (seen i = None \<longrightarrow> seen' = seen(i \<mapsto> nc) \<and>
      (\<exists>wm. client_reads X P wm =
          Some (i, timestamp_of X nc, New p False (in_content_type n) (in_content n)) \<and>
        (\<forall>r. history bc r s' = history bc r s @
          replicate (if in_user_ids n = [] then (if \<exists>u. connected bc u r s then 1 else 0)
            else length (filter (\<lambda>u. connected bc u r s) (in_user_ids n))) wm)))"
proof -
  obtain i where i: "out = \<lparr>nid = oid_to_hex X i\<rparr>"
    and log: "map (read_announcement X P) msgs' = map (read_announcement X P) msgs @
      [Some \<lparr>an_user_ids = in_user_ids n, an_id = i, an_timestamp = timestamp_of X nc,
        an_change = New p False (in_content_type n) (in_content n)\<rparr>]"
    using notifications_service.save_notification_Ok [OF notifications_service_impl [OF assms(1-3)] assms(4,6)] by blast
  from log have "msgs' \<noteq> []" by auto
  then have "read_announcement X P (last msgs') = last (map (read_announcement X P) msgs')"
    by (simp add: last_map)
  then have a: "read_announcement X P (last msgs') = Some \<lparr>an_user_ids = in_user_ids n, an_id = i,
      an_timestamp = timestamp_of X nc, an_change = New p False (in_content_type n) (in_content n)\<rparr>"
    by (simp add: log)
  have t: "announced_time X \<lparr>an_user_ids = in_user_ids n, an_id = i, an_timestamp = timestamp_of X nc,
      an_change = New p False (in_content_type n) (in_content n)\<rparr> nc"
    using assms(5) by (simp add: announced_time_def timestamp_ok_def timestamp_of_def)
  note ws = ws_broadcast.intro [OF assms(7)]
  note delivery = ws_broadcast.delivery_of_announcement [OF ws assms(3) a t assms(8,9)]
  show ?thesis
  proof (intro exI [of _ i] conjI impI)
    show "out = \<lparr>nid = oid_to_hex X i\<rparr>" by (rule i)
    show "res = Ok ()" by (rule delivery(1))
    assume "seen i = None"
    then show "seen' = seen(i \<mapsto> nc)" and "\<exists>wm. client_reads X P wm =
          Some (i, timestamp_of X nc, New p False (in_content_type n) (in_content n)) \<and>
        (\<forall>r. history bc r s' = history bc r s @
          replicate (if in_user_ids n = [] then (if \<exists>u. connected bc u r s then 1 else 0)
            else length (filter (\<lambda>u. connected bc u r s) (in_user_ids n))) wm)"
      using delivery(2) unfolding announcement.select_convs by simp_all
  qed
qed

text \<open>\<open>alice\<close>, connected twice, is sent the greeting on both connections.\<close>

theorem saved_notification_reaches_its_users_witness:
  "\<exists>wm. \<forall>r. history ref_broadcast r (snd (snd (delivery_callback ref_broadcast ref_ext ref_prost 12 (Uuid 9)
      (content (last (snd (snd save_greeting)))) (Map.empty, alice_online)))) = (if r = 5 \<or> r = 6 then [wm] else [])"
proof -
  let ?d = "delivery_callback ref_broadcast ref_ext ref_prost 12 (Uuid 9)
      (content (last (snd (snd save_greeting)))) (Map.empty, alice_online)"
  obtain res seen' s' where d: "?d = (res, seen', s')" by (metis surj_pair)
  have t: "timestamp_ok ref_ext 11" by (rule ref_timestamp_ok) simp_all
  from saved_notification_reaches_its_users [OF ref.mongo_server_axioms ref_identifiers_ok ref_prost_ok hello_stored t
      save_greeting_Ok [unfolded save_greeting_def] ref_broadcast.broadcast_channels_axioms alice_online_wf
      d [unfolded save_greeting_def]]
  obtain wm where "\<forall>r. history ref_broadcast r s' = history ref_broadcast r alice_online @
      replicate (if in_user_ids greeting = [] then (if \<exists>u. connected ref_broadcast u r alice_online then 1 else 0)
        else length (filter (\<lambda>u. connected ref_broadcast u r alice_online) (in_user_ids greeting))) wm"
    by auto
  then show ?thesis
    by (intro exI [of _ wm]) (simp add: d greeting_def alice_online_connected alice_online_history)
qed

text \<open>C2. A client's confirmation of a new notification, the first one of its message, comes back to the
  core as one message on the confirmations queue, and when the core acknowledges it the
  notification is confirmed for that client's user, if it was undelivered.\<close>

theorem confirmation_reaches_the_store:
  assumes "mongo_server m" and "identifiers_ok X" and "prost_ok P" and "stored m w ns"
    and "find (\<lambda>u. message_id (um_message u) = mid) (wc_unconfirmed c) = Some q"
    and "delivered_callback (um_message q) = Some \<lparr>cb_was_called = b, cb_id = oid_to_hex X i\<rparr>"
    and "\<not> was_called k b"
    and "process_incomming_message X P cfg t
      (Some (Ok (Binary (encode_websocket_confirmation P \<lparr>wcp_message_id = uuid_to_string X mid\<rparr>)))) c k = (r, c', k', fs)"
    and "confirmation_callback X P (notifications_repository_impl X m) now
      (content (last (confirmations_send P (last (confirmations k')) out))) w = (Ok (), w')"
  shows "r = Ok () \<and> length (confirmations k') = Suc (length (confirmations k)) \<and>
    stored m w' (update_where (id_of i (undelivered (wc_user_id c) (dt_from X now)))
      (confirm (wc_user_id c) (dt_from X now)) ns)"
proof -
  let ?c = "\<lparr>rcp_user_id = uuid_to_string X (wc_user_id c), rcp_id = oid_to_hex X i\<rparr>"
  have "uuid_text_ok X mid" using assms(2) by (simp add: identifiers_ok_def)
  from confirmation_of_queued [OF assms(3) this, of cfg t c k] assms(5-8)
  have r: "r = Ok ()" and k': "confirmations k' = confirmations k @ [?c]"
    by (simp_all add: callback_execute_def Let_def)
  have "received_confirmation X P (content (last (confirmations_send P (last (confirmations k')) out))) =
      Some \<lparr>cd_user_id = wc_user_id c, cd_id = i\<rparr>"
    by (simp add: k' received_confirmation_def confirmations_send_def prost_okD(2) [OF assms(3)]
        confirmation_try_from_def identifiers_okD [OF assms(2)])
  with confirmation_callback_outcome [OF assms(1,4,9)] r k' show ?thesis by simp
qed

definition hello_message :: websocket_message where
  "hello_message = \<lparr>message_id = Uuid 9, payload = [], delivered_callback =
     Some \<lparr>cb_was_called = 0, cb_id = oid_to_hex ref_ext (ObjectId 7)\<rparr>\<rparr>"

definition alice_waiting :: websocket_connection where
  "alice_waiting = (websocket_connection_new demo_config alice 0)\<lparr>wc_unconfirmed :=
     [\<lparr>retry_at = 4, retries_remaining = 2, um_message = hello_message\<rparr>]\<rparr>"

definition alice_answers :: "ws_step" where
  "alice_answers = process_incomming_message ref_ext ref_prost demo_config 3
     (Some (Ok (Binary (encode_websocket_confirmation ref_prost \<lparr>wcp_message_id = uuid_to_string ref_ext (Uuid 9)\<rparr>))))
     alice_waiting no_confirmations"

lemma alice_answers_confirmations:
  "confirmations (fst (snd (snd alice_answers))) =
     [\<lparr>rcp_user_id = uuid_to_string ref_ext alice, rcp_id = oid_to_hex ref_ext (ObjectId 7)\<rparr>]"
  unfolding alice_answers_def confirmation_of_queued [OF ref_prost_ok ref_uuid_text_ok]
  by (simp add: alice_waiting_def hello_message_def websocket_connection_new_def no_confirmations_def
      callback_execute_def)

theorem confirmation_reaches_the_store_witness:
  "stored ref_server (snd (consume_alice 9000000 (store_world [hello] []))) [confirm alice 9 hello]"
proof -
  obtain r c' k' fs where run: "alice_answers = (r, c', k', fs)" by (metis surj_pair)
  have ks: "confirmations k' = [\<lparr>rcp_user_id = uuid_to_string ref_ext alice, rcp_id = oid_to_hex ref_ext (ObjectId 7)\<rparr>]"
    using alice_answers_confirmations unfolding run by simp
  have cont: "content (last (confirmations_send ref_prost (last (confirmations k')) [])) = alice_confirms"
    by (simp add: ks confirmations_send_def alice_confirms_def)
  have "wc_user_id alice_waiting = alice" "find (\<lambda>u. message_id (um_message u) = Uuid 9) (wc_unconfirmed alice_waiting) =
      Some \<lparr>retry_at = 4, retries_remaining = 2, um_message = hello_message\<rparr>"
    by (simp_all add: alice_waiting_def websocket_connection_new_def hello_message_def)
  moreover have "dt_from ref_ext 9000000 = 9" by (simp add: ref_ext_def)
  ultimately show ?thesis
    using confirmation_reaches_the_store [OF ref.mongo_server_axioms ref_identifiers_ok ref_prost_ok hello_stored
        _ _ _ run [unfolded alice_answers_def], where out = "[]" and now = 9000000 and i = "ObjectId 7" and b = 0
        and q = "\<lparr>retry_at = 4, retries_remaining = 2, um_message = hello_message\<rparr>",
        unfolded cont, OF _ _ _ consume_alice_Ok [unfolded consume_alice_def]]
    by (simp add: hello_message_def no_confirmations_def hello_alice_confirmed consume_alice_def)
qed

text \<open>C3. Both programs declare each exchange with the same arguments, and when they are configured with
  the same exchange names, whatever the core announces is put into the queue of every running
  instance of the delivery, once, and every confirmation into the queue of the core, once.\<close>

theorem messages_are_routed:
  assumes "direct_routing route" and "identifiers_ok X" and "distinct instances"
    and "np_exchange_name np = nc_exchange nc" and "cs_exchange cs = cc_exchange cc"
  shows "notifications_producer_exchange np = ca_exchange (notifications_consumer_args X nc u) \<and>
    confirmations_service_exchange cs = ca_exchange (confirmations_consumer_args cc) \<and>
    (let at = (\<lambda>x msgs. reached route (all_binds X cc nc instances) x msgs);
         queues = mset (map (notifications_queue X nc) instances)
     in mset (at (np_exchange_name np) (send_new X P us i t p b ct co [])) = queues \<and>
        mset (at (np_exchange_name np) (send_updated X P v i b t [])) = queues \<and>
        mset (at (np_exchange_name np) (send_deleted X P v i t [])) = queues \<and>
        at (cs_exchange cs) (confirmations_send P c []) = [cc_queue cc])"
proof -
  note reach = announcement_reaches_instances [OF assms(1-3), of _ cc nc]
  show ?thesis
    using assms(4,5) confirmation_reaches_core [OF assms(1)]
    by (simp add: notifications_producer_exchange_def notifications_consumer_args_def Let_def
        confirmations_service_exchange_def confirmations_consumer_args_def reached_def send_new_def
        send_updated_def send_deleted_def send_def confirmations_send_def reach)
qed

theorem messages_are_routed_witness:
  "reached ref_route (all_binds ref_ext \<lparr>cc_exchange = ''c'', cc_queue = ''q''\<rparr> \<lparr>nc_exchange = ''n'', nc_queue = ''d''\<rparr>
     [Uuid 1, Uuid 2]) ''c'' (confirmations_send ref_prost \<lparr>rcp_user_id = ''u'', rcp_id = ''i''\<rparr> []) = [''q'']"
proof -
  have "distinct [Uuid 1, Uuid 2]" by simp
  from messages_are_routed [OF ref_route_ok ref_identifiers_ok this, where np = "\<lparr>np_exchange_name = ''n''\<rparr>"
      and nc = "\<lparr>nc_exchange = ''n'', nc_queue = ''d''\<rparr>" and cs = "\<lparr>cs_exchange = ''c''\<rparr>"
      and cc = "\<lparr>cc_exchange = ''c'', cc_queue = ''q''\<rparr>" and P = ref_prost
      and c = "\<lparr>rcp_user_id = ''u'', rcp_id = ''i''\<rparr>"]
  show ?thesis by (simp add: Let_def)
qed

text \<open>C23. The time of a change of the seen flag is read after the change is stored: when a user marks a
  notification twice at once, the store keeps the flag written last, but the other flag may be
  announced later and with the later time. The delivery then lets both through, and the user is left
  with the flag that is not stored.\<close>

theorem racing_updates_end_apart:
  assumes "mongo_server m" and "identifiers_ok X" and "prost_ok P" and "stored m w ns"
    and "app_repository A = notifications_repository_impl X m"
    and "app_producer A = notifications_producer_service_impl X P"
    and "request_begin A u (PutSeen i b1) c1 w = (Ok rest1, w1)"
    and "request_begin A u (PutSeen i b2) c2 w1 = (Ok rest2, w2)"
    and "request_end A rest2 t2 (w2, s) = (r2, w3, s')" and "request_end A rest1 t1 (w3, s') = (r1, w4, s'')"
    and "t2 < t1" and "\<And>t. seen i = Some t \<Longrightarrow> t < t2"
  shows "r1 = Ok no_content \<and> r2 = Ok no_content \<and>
    (\<exists>ns'. stored m w4 ns' \<and> (\<exists>n \<in> set ns'. n_id n = i \<and>
       rn_seen (delivered_view X (user_id u) None n) = new_seen b2)) \<and>
    map (read_announcement X P) s'' = map (read_announcement X P) s @
      [Some \<lparr>an_user_ids = [user_id u], an_id = i, an_timestamp = timestamp_of X t2, an_change = Updated (new_seen b2)\<rparr>,
       Some \<lparr>an_user_ids = [user_id u], an_id = i, an_timestamp = timestamp_of X t1, an_change = Updated (new_seen b1)\<rparr>] \<and>
    deduplicate \<lparr>nsu_id = i, nsu_timestamp = t2\<rparr> seen = (Ok (), seen(i \<mapsto> t2)) \<and>
    deduplicate \<lparr>nsu_id = i, nsu_timestamp = t1\<rparr> (seen(i \<mapsto> t2)) = (Ok (), seen(i \<mapsto> t1))"
proof -
  note repo = mongo_server.repository_contract [OF assms(1), of X]
  have 1: "rest1 = ToAnnounceUpdated (user_id u) i (new_seen b1)" and
    up1: "nr_update_confirmation_seen (notifications_repository_impl X m) i (user_id u) (new_seen b1) w = (Ok (), w1)"
    using assms(7) by (auto simp: seen_begin_def assms(5) split: prod.splits sum.splits)
  have 2: "rest2 = ToAnnounceUpdated (user_id u) i (new_seen b2)" and
    up2: "nr_update_confirmation_seen (notifications_repository_impl X m) i (user_id u) (new_seen b2) w1 = (Ok (), w2)"
    using assms(8) by (auto simp: seen_begin_def assms(5) split: prod.splits sum.splits)
  obtain ns1 where h1: "stored m w1 ns1"
    using notifications_repository.update_confirmation_seen [OF repo assms(4) up1] by (auto simp: update_outcome_def)
  let ?p = "id_of i (confirmed_some (user_id u))" and ?f = "mark_seen (user_id u) (new_seen b2)"
  from notifications_repository.update_confirmation_seen [OF repo h1 up2]
  have h2: "stored m w2 (update_where ?p ?f ns1)" and "list_ex ?p ns1" by (auto simp: update_outcome_def)
  then obtain n where "n \<in> set ns1" "?p n" by (auto simp: list_ex_iff)
  then have n: "?f n \<in> set (update_where ?p ?f ns1)" "n_id (?f n) = i" "confirmed_some (user_id u) n"
    by (auto simp: set_update_where id_of_def)
  note log = announcements.announce_updated [OF impl_announcements [OF assms(2,3)]]
  have e: "r2 = Ok no_content" "r1 = Ok no_content" "w4 = w2"
    "s' = ps_send_updated (notifications_producer_service_impl X P) (user_id u) i (new_seen b2) t2 s"
    "s'' = ps_send_updated (notifications_producer_service_impl X P) (user_id u) i (new_seen b1) t1 s'"
    using assms(9,10) by (auto simp: 1 2 assms(6))
  have "deduplicate \<lparr>nsu_id = i, nsu_timestamp = t2\<rparr> seen = (Ok (), seen(i \<mapsto> t2))"
    using assms(12) by (auto simp: deduplicate_def split: option.splits)
  moreover have "deduplicate \<lparr>nsu_id = i, nsu_timestamp = t1\<rparr> (seen(i \<mapsto> t2)) = (Ok (), seen(i \<mapsto> t1))"
    using assms(11) by (simp add: deduplicate_def)
  moreover have "\<exists>ns'. stored m w4 ns' \<and> (\<exists>n \<in> set ns'. n_id n = i \<and>
      rn_seen (delivered_view X (user_id u) None n) = new_seen b2)"
    using h2 n(1,2) mark_seen_read [OF n(3), of X "new_seen b2"] e(3) by blast
  ultimately show ?thesis by (simp add: e log)
qed

definition bob_marks :: "bool \<Rightarrow> ref_world \<Rightarrow> (core_error, unfinished) result \<times> ref_world" where
  "bob_marks b = request_begin ref_app bob_user (PutSeen (ObjectId 7) \<lparr>new_seen = b\<rparr>) at_twenty"

lemma bob_marks_Ok:
  assumes "w_docs w NOTIFICATIONS = [encode (mark_seen bob b hello)]"
  shows "bob_marks b' w = (Ok (ToAnnounceUpdated bob (ObjectId 7) b'),
    with_docs NOTIFICATIONS [encode (mark_seen bob b' (mark_seen bob b hello))] w)"
proof -
  let ?h = "mark_seen bob b hello"
  have h: "?h = hello\<lparr>n_confirmations := [\<lparr>c_user_id = bob, c_delivered_at = 6, c_seen = b, c_deleted = False\<rparr>]\<rparr>"
    by (simp add: mark_seen_def hello_def conf_filter_def)
  have "r_matches (Doc [(''_id'', Oid (ObjectId 7)), (''confirmations'', Doc [(''$elemMatch'', Doc
     [(''user_id'', UuidBin bob), (''notification_deleted'', Bool False)])])]) (encode ?h)"
    unfolding h by (simp add: encode_def encode_fields_def hello_def encode_confirmation_def)
  moreover have "delivered_conf bob None ?h \<noteq> None" unfolding h by (simp add: delivered_conf_def conf_filter_def)
  note mongo_updates.apply_set_seen [OF ref_updates.mongo_updates_axioms this, of "ObjectId 7" b']
  ultimately show ?thesis
    using assms
    by (simp add: bob_marks_def bob_user_def ref_app_def seen_begin_def repo_update_confirmation_seen_def
      updated_if_def r_update_one_def extract_one)
qed

lemma hello_unseen: "w_docs (store_world [hello] []) NOTIFICATIONS = [encode (mark_seen bob False hello)]"
proof -
  have "mark_seen bob False hello = hello" by (simp add: mark_seen_def hello_def conf_filter_def)
  then show ?thesis by (simp add: store_world_def)
qed

theorem racing_updates_end_apart_witness:
  "\<exists>w1 w2 ns' (s :: message list). bob_marks True (store_world [hello] []) = (Ok (ToAnnounceUpdated bob (ObjectId 7) True), w1) \<and>
     bob_marks False w1 = (Ok (ToAnnounceUpdated bob (ObjectId 7) False), w2) \<and>
     stored ref_server w2 ns' \<and> (\<exists>n \<in> set ns'. n_id n = ObjectId 7 \<and> \<not> rn_seen (delivered_view ref_ext bob None n)) \<and>
     map (read_announcement ref_ext ref_prost) s =
      [Some \<lparr>an_user_ids = [bob], an_id = ObjectId 7, an_timestamp = timestamp_of ref_ext 21, an_change = Updated False\<rparr>,
       Some \<lparr>an_user_ids = [bob], an_id = ObjectId 7, an_timestamp = timestamp_of ref_ext 22, an_change = Updated True\<rparr>]"
proof -
  let ?ps = "notifications_producer_service_impl ref_ext ref_prost"
  note first = bob_marks_Ok [OF hello_unseen, of True]
  define w1 where "w1 = with_docs NOTIFICATIONS [encode (mark_seen bob True (mark_seen bob False hello))] (store_world [hello] [])"
  have "w_docs w1 NOTIFICATIONS = [encode (mark_seen bob True hello)]"
    by (simp add: w1_def with_docs_def mark_seen_def hello_def conf_filter_def)
  note second = bob_marks_Ok [OF this, of False]
  define w2 where "w2 = with_docs NOTIFICATIONS [encode (mark_seen bob False (mark_seen bob True hello))] w1"
  have A: "app_repository ref_app = notifications_repository_impl ref_ext ref_server" "app_producer ref_app = ?ps"
    by (simp_all add: ref_app_def)
  have b: "bob_marks True (store_world [hello] []) = (Ok (ToAnnounceUpdated bob (ObjectId 7) True), w1)"
    "bob_marks False w1 = (Ok (ToAnnounceUpdated bob (ObjectId 7) False), w2)"
    using first second by (simp_all add: w1_def w2_def)
  have e: "request_end ref_app (ToAnnounceUpdated bob (ObjectId 7) f) t (w2, s) =
      (Ok no_content, w2, ps_send_updated ?ps bob (ObjectId 7) f t s)" for f t s
    by (simp add: A)
  from racing_updates_end_apart [OF ref.mongo_server_axioms ref_identifiers_ok ref_prost_ok hello_stored A
      b [unfolded bob_marks_def] e e, where seen = Map.empty and s = "[]" and ?t2.0 = 21 and ?t1.0 = 22]
  show ?thesis using b by (fastforce simp: bob_user_def)
qed

end
